theory Spec2Isabelle
  imports Main "HOL-Library.AList" "HOL-Library.Char_ord" "HOL-Library.List_Lexorder"
begin

section \<open>Handshake identifiers\<close>

text \<open>
  Modelled from the spec: the package \<^verbatim>\<open>pkg/consts\<close> that declares the annotation keys and
  the handshake values is absent from the sources. The request key and the values
  \<^verbatim>\<open>Idle\<close> and \<^verbatim>\<open>Drain_Required\<close> are the literals the controller test uses
  (\<^verbatim>\<open>sriovnetwork.openshift.io/state\<close>); the remaining identifiers carry the names the
  specification gives them. Only their pairwise distinctness is ever used.
\<close>

definition NodeDrainAnnotation :: string where
  "NodeDrainAnnotation = ''sriovnetwork.openshift.io/state''"

definition NodeStateDrainAnnotationCurrent :: string where
  "NodeStateDrainAnnotationCurrent = ''drain-state-current''"

definition DrainIdle :: string where
  "DrainIdle = ''Idle''"

definition DrainRequired :: string where
  "DrainRequired = ''Drain_Required''"

definition RebootRequired :: string where
  "RebootRequired = ''Reboot_Required''"

definition Draining :: string where
  "Draining = ''Draining''"

definition DrainMcpPaused :: string where
  "DrainMcpPaused = ''DrainMcpPaused''"

definition DrainComplete :: string where
  "DrainComplete = ''DrainComplete''"

section \<open>Objects of the orchestrator\<close>

text \<open>
  The metadata every API object carries. A Go map that is \<^verbatim>\<open>nil\<close> reads like an empty
  one and serialises to the same JSON, so annotations and labels are partial maps.
\<close>

record ObjectMeta =
  Name :: string
  Annotations :: "string \<rightharpoonup> string"
  Labels :: "string \<rightharpoonup> string"

text \<open>
  The two-result map read of Go, \<^verbatim>\<open>v, ok := m[k]\<close>: a missing key yields the zero value
  of the element type, the empty string, and \<^verbatim>\<open>ok = false\<close>.
\<close>

definition go_lookup :: "(string \<rightharpoonup> string) \<Rightarrow> string \<Rightarrow> string \<times> bool" where
  "go_lookup m k = (case m k of None \<Rightarrow> ('''', False) | Some v \<Rightarrow> (v, True))"

text \<open>The single-result read \<^verbatim>\<open>m[k]\<close>.\<close>

definition go_index :: "(string \<rightharpoonup> string) \<Rightarrow> string \<Rightarrow> string" where
  "go_index m k = fst (go_lookup m k)"

section \<open>Event filter of the drain controller (controllers/helper.go)\<close>

text \<open>
  \<^verbatim>\<open>event.CreateEvent\<close> and \<^verbatim>\<open>event.UpdateEvent\<close>; an interface value that is
  \<^verbatim>\<open>nil\<close> is \<open>None\<close>. The predicates only read the metadata of the object.
\<close>

record CreateEvent =
  Object :: "ObjectMeta option"

record UpdateEvent =
  ObjectOld :: "ObjectMeta option"
  ObjectNew :: "ObjectMeta option"

definition DrainAnnotationPredicate_Create :: "CreateEvent \<Rightarrow> bool" where
  "DrainAnnotationPredicate_Create e =
     (case Object e of
        None \<Rightarrow> False
      | Some obj \<Rightarrow>
          (let (_, hasAnno) = go_lookup (Annotations obj) NodeDrainAnnotation
           in if hasAnno then True else False))"

definition DrainAnnotationPredicate_Update :: "UpdateEvent \<Rightarrow> bool" where
  "DrainAnnotationPredicate_Update e =
     (case ObjectOld e of
        None \<Rightarrow> False
      | Some objOld \<Rightarrow>
          (case ObjectNew e of
             None \<Rightarrow> False
           | Some objNew \<Rightarrow>
               (let (oldAnno, hasOldAnno) = go_lookup (Annotations objOld) NodeDrainAnnotation;
                    (newAnno, hasNewAnno) = go_lookup (Annotations objNew) NodeDrainAnnotation
                in if \<not> hasOldAnno \<or> \<not> hasNewAnno then False
                   else oldAnno \<noteq> newAnno)))"

section \<open>Nodes, merge patches and the core API client\<close>

text \<open>
  A \<^verbatim>\<open>corev1.Node\<close>: the metadata, the part of the spec and of the status the
  development refers to.
\<close>

record NodeSpec =
  Unschedulable :: bool
  Taints :: "string list"

record NodeStatus =
  Conditions :: "(string \<times> string) list"

record Node = ObjectMeta +
  Spec :: NodeSpec
  Status :: NodeStatus

text \<open>
  \<^verbatim>\<open>strategicpatch.CreateTwoWayMergePatch\<close> belongs to the orchestrator's client
  library, not to this repository. On a node it yields the fields in which the modified
  document differs from the original one: for the two string maps the entries that were
  added or changed (\<open>Some (Some v)\<close>) or removed (\<open>Some None\<close>, a JSON null), for the
  other fields the new value. Applying a patch overwrites exactly the fields it lists.
\<close>

record NodePatch =
  patchAnnotations :: "string \<rightharpoonup> string option"
  patchLabels :: "string \<rightharpoonup> string option"
  patchUnschedulable :: "bool option"
  patchTaints :: "string list option"
  patchConditions :: "(string \<times> string) list option"

definition diffMap :: "(string \<rightharpoonup> string) \<Rightarrow> (string \<rightharpoonup> string) \<Rightarrow> (string \<rightharpoonup> string option)" where
  "diffMap original modified = (\<lambda>k. if original k = modified k then None else Some (modified k))"

definition diffField :: "'a \<Rightarrow> 'a \<Rightarrow> 'a option" where
  "diffField original modified = (if original = modified then None else Some modified)"

definition CreateTwoWayMergePatch :: "Node \<Rightarrow> Node \<Rightarrow> NodePatch" where
  "CreateTwoWayMergePatch original modified =
     \<lparr>patchAnnotations = diffMap (Annotations original) (Annotations modified),
      patchLabels = diffMap (Labels original) (Labels modified),
      patchUnschedulable =
        diffField (Unschedulable (Spec original)) (Unschedulable (Spec modified)),
      patchTaints = diffField (Taints (Spec original)) (Taints (Spec modified)),
      patchConditions =
        diffField (Conditions (Status original)) (Conditions (Status modified))\<rparr>"

definition applyMap :: "(string \<rightharpoonup> string option) \<Rightarrow> (string \<rightharpoonup> string) \<Rightarrow> (string \<rightharpoonup> string)" where
  "applyMap p m = (\<lambda>k. case p k of None \<Rightarrow> m k | Some v \<Rightarrow> v)"

definition applyField :: "'a option \<Rightarrow> 'a \<Rightarrow> 'a" where
  "applyField p x = (case p of None \<Rightarrow> x | Some y \<Rightarrow> y)"

definition applyNodePatch :: "NodePatch \<Rightarrow> Node \<Rightarrow> Node" where
  "applyNodePatch p n =
     n\<lparr>Annotations := applyMap (patchAnnotations p) (Annotations n),
       Labels := applyMap (patchLabels p) (Labels n),
       Spec := \<lparr>Unschedulable = applyField (patchUnschedulable p) (Unschedulable (Spec n)),
                Taints = applyField (patchTaints p) (Taints (Spec n))\<rparr>,
       Status := \<lparr>Conditions = applyField (patchConditions p) (Conditions (Status n))\<rparr>\<rparr>"

text \<open>
  The \<^verbatim>\<open>kubernetes.Interface\<close> handle as far as nodes go: the object store, the patch
  requests it has received (oldest first), and the requests the API server refuses, with
  the message of the refusal.
\<close>

datatype apiError = NotFound string | ServerError string

record KubeClient =
  nodes :: "string \<rightharpoonup> Node"
  nodePatches :: "(string \<times> NodePatch) list"
  getNodeFault :: "string \<rightharpoonup> string"
  patchNodeFault :: "string \<rightharpoonup> string"

definition Nodes_Get :: "KubeClient \<Rightarrow> string \<Rightarrow> apiError + Node" where
  "Nodes_Get kc name =
     (case getNodeFault kc name of
        Some msg \<Rightarrow> Inl (ServerError msg)
      | None \<Rightarrow>
          (case nodes kc name of
             None \<Rightarrow> Inl (NotFound name)
           | Some n \<Rightarrow> Inr n))"

definition Nodes_Patch :: "KubeClient \<Rightarrow> string \<Rightarrow> NodePatch \<Rightarrow> (apiError + Node) \<times> KubeClient" where
  "Nodes_Patch kc name p =
     (let kc1 = kc\<lparr>nodePatches := nodePatches kc @ [(name, p)]\<rparr>
      in case patchNodeFault kc name of
           Some msg \<Rightarrow> (Inl (ServerError msg), kc1)
         | None \<Rightarrow>
             (case nodes kc name of
                None \<Rightarrow> (Inl (NotFound name), kc1)
              | Some n \<Rightarrow>
                  (Inr (applyNodePatch p n),
                   kc1\<lparr>nodes := (nodes kc)(name \<mapsto> applyNodePatch p n)\<rparr>)))"

section \<open>AnnotateNode (pkg/utils/cluster.go)\<close>

text \<open>
  The Go function returns an error value and mutates the cluster through the client; the
  model returns the error (\<open>None\<close> is \<^verbatim>\<open>nil\<close>) together with the client afterwards.
  \<^verbatim>\<open>json.Marshal\<close> of a node and the patch computation on two marshalled nodes do not
  fail, so their error returns have no branch here. The deep copy followed by the
  replacement of a nil annotation map by an empty one leaves the partial map as it is.
\<close>

definition NodeHasAnnotation :: "Node \<Rightarrow> string \<Rightarrow> string \<Rightarrow> bool" where
  "NodeHasAnnotation node annoKey v =
     (let (anno, ok) = go_lookup (Annotations node) annoKey
      in if ok \<and> anno = v then True else False)"

definition AnnotateNode :: "string \<Rightarrow> string \<Rightarrow> KubeClient \<Rightarrow> apiError option \<times> KubeClient" where
  "AnnotateNode node v kubeClient =
     (case Nodes_Get kubeClient node of
        Inl err \<Rightarrow> (Some err, kubeClient)
      | Inr oldNode \<Rightarrow>
          (let newNode = oldNode
           in if go_index (Annotations newNode) NodeDrainAnnotation \<noteq> v
              then
                (let newNode' = newNode\<lparr>Annotations :=
                                   (Annotations newNode)(NodeDrainAnnotation \<mapsto> v)\<rparr>;
                     patchBytes = CreateTwoWayMergePatch oldNode newNode'
                 in case Nodes_Patch kubeClient node patchBytes of
                      (Inl err, kc') \<Rightarrow> (Some err, kc')
                    | (Inr _, kc') \<Rightarrow> (None, kc'))
              else (None, kubeClient)))"

text \<open>
  The patch document \<^verbatim>\<open>{"metadata":{"annotations":{<request key>: v}}}\<close>, the only
  patch \<open>AnnotateNode\<close> ever submits (shown below).
\<close>

definition requestPatch :: "string \<Rightarrow> NodePatch" where
  "requestPatch v =
     \<lparr>patchAnnotations = [NodeDrainAnnotation \<mapsto> Some v],
      patchLabels = Map.empty, patchUnschedulable = None, patchTaints = None,
      patchConditions = None\<rparr>"

text \<open>
  The node the controller test creates (\<^verbatim>\<open>createNode\<close>), and a cluster of two of them
  whose API server refuses nothing.
\<close>

definition testNode :: "string \<Rightarrow> Node" where
  "testNode nodeName =
     \<lparr>Name = nodeName,
      Annotations = [NodeDrainAnnotation \<mapsto> DrainIdle,
                     ''machineconfiguration.openshift.io/desiredConfig'' \<mapsto> ''worker-1''],
      Labels = [''test'' \<mapsto> ''''],
      Spec = \<lparr>Unschedulable = False, Taints = []\<rparr>,
      Status = \<lparr>Conditions = [(''Ready'', ''True'')]\<rparr>\<rparr>"

definition testCluster :: KubeClient where
  "testCluster =
     \<lparr>nodes = [''node1'' \<mapsto> testNode ''node1'', ''node2'' \<mapsto> testNode ''node2''],
      nodePatches = [],
      getNodeFault = Map.empty,
      patchNodeFault = Map.empty\<rparr>"

section \<open>The node state custom resource (api/v1, as far as the plugins and the daemon read it)\<close>

type_synonym goError = string

record VfGroup =
  DeviceType :: string
  VdpaType :: string

record Interface =
  PciAddress :: string
  NumVfs :: int
  IfName :: string
  ExternallyManaged :: bool
  VfGroups :: "VfGroup list"

record InterfaceExt =
  extPciAddress :: string
  extNumVfs :: int
  extName :: string
  Vendor :: string
  DeviceID :: string

record SriovNetworkNodeStateStatus =
  StatusInterfaces :: "InterfaceExt list"
  SyncStatus :: string
  LastSyncError :: string

record SriovNetworkNodeState = ObjectMeta +
  Generation :: int
  SpecInterfaces :: "Interface list"
  NodeStateStatus :: SriovNetworkNodeStateStatus

section \<open>The generic plugin (pkg/plugins/generic/generic_plugin.go)\<close>

text \<open>
  What the plugin asks of the host and of helper packages that are not part of the listed
  sources: \<^verbatim>\<open>utils.NeedUpdate\<close>, \<^verbatim>\<open>StoreManager.LoadPfsStatus\<close>,
  \<^verbatim>\<open>utils.GetCurrentKernelArgs\<close>, \<^verbatim>\<open>utils.IsKernelArgsSet\<close>,
  \<^verbatim>\<open>utils.WriteSwitchdevConfFile\<close>, the two kernel argument constants of
  \<^verbatim>\<open>utils\<close>, and the run of the \<^verbatim>\<open>enable-kargs.sh\<close> script with what
  \<^verbatim>\<open>strconv.Atoi\<close> makes of its trimmed output. They are parameters: every statement
  below holds whatever they answer.
\<close>

record PfStatus =
  pfExternallyManaged :: bool

datatype scriptRun =
    CommandNotFound goError
  | RunFailed goError
  | Printed "goError + int"

record GenericHost =
  NeedUpdate :: "Interface \<Rightarrow> InterfaceExt \<Rightarrow> bool"
  LoadPfsStatus :: "string \<Rightarrow> PfStatus \<times> bool \<times> goError option"
  GetCurrentKernelArgs :: "string \<times> goError option"
  IsKernelArgsSet :: "string \<Rightarrow> string \<Rightarrow> bool"
  runEnableKargs :: "string \<Rightarrow> scriptRun"
  WriteSwitchdevConfFile :: "SriovNetworkNodeState \<Rightarrow> bool \<times> goError option"
  KernelArgIntelIommu :: string
  KernelArgIommuPt :: string

datatype needDriver = needDriverCheckDeviceType_ptr | needDriverCheckVdpaType_ptr

record DriverState =
  DriverName :: string
  dsDeviceType :: string
  dsVdpaType :: string
  NeedDriverFunc :: needDriver
  DriverLoaded :: bool

text \<open>
  \<^verbatim>\<open>DesiredKernelArgs\<close> is a Go map that the plugin ranges over; the association list
  fixes one order of its keys, and since the list is arbitrary every order is covered.
\<close>

record GenericPlugin =
  DesireState :: "SriovNetworkNodeState option"
  LastState :: "SriovNetworkNodeState option"
  DriverStateMap :: "nat \<rightharpoonup> DriverState"
  DesiredKernelArgs :: "(string \<times> bool) list"

definition Vfio :: nat where "Vfio = 0"
definition VirtioVdpa :: nat where "VirtioVdpa = 1"
definition VhostVdpa :: nat where "VhostVdpa = 2"

definition needDriverCheckDeviceType :: "SriovNetworkNodeState \<Rightarrow> DriverState \<Rightarrow> bool" where
  "needDriverCheckDeviceType state driverState =
     (\<exists>iface \<in> set (SpecInterfaces state).
        \<exists>g \<in> set (VfGroups iface). DeviceType g = dsDeviceType driverState)"

definition needDriverCheckVdpaType :: "SriovNetworkNodeState \<Rightarrow> DriverState \<Rightarrow> bool" where
  "needDriverCheckVdpaType state driverState =
     (\<exists>iface \<in> set (SpecInterfaces state).
        \<exists>g \<in> set (VfGroups iface). VdpaType g = dsVdpaType driverState)"

definition callNeedDriver :: "needDriver \<Rightarrow> SriovNetworkNodeState \<Rightarrow> DriverState \<Rightarrow> bool" where
  "callNeedDriver f state driverState =
     (case f of
        needDriverCheckDeviceType_ptr \<Rightarrow> needDriverCheckDeviceType state driverState
      | needDriverCheckVdpaType_ptr \<Rightarrow> needDriverCheckVdpaType state driverState)"

text \<open>\<^verbatim>\<open>setKernelArg\<close>: the pair is the Go result \<^verbatim>\<open>(bool, error)\<close>.\<close>

definition setKernelArg :: "GenericHost \<Rightarrow> string \<Rightarrow> bool \<times> goError option" where
  "setKernelArg host karg =
     (case runEnableKargs host karg of
        CommandNotFound _ \<Rightarrow> (False, None)
      | RunFailed err \<Rightarrow> (False, Some err)
      | Printed (Inr i) \<Rightarrow> (if i > 0 then (True, None) else (False, None))
      | Printed (Inl err) \<Rightarrow> (False, Some err))"

definition addToDesiredKernelArgs :: "GenericPlugin \<Rightarrow> string \<Rightarrow> GenericPlugin" where
  "addToDesiredKernelArgs p karg =
     (if karg \<in> fst ` set (DesiredKernelArgs p) then p
      else p\<lparr>DesiredKernelArgs := DesiredKernelArgs p @ [(karg, False)]\<rparr>)"

text \<open>
  The loop of \<^verbatim>\<open>syncDesiredKernelArgs\<close> over the entries still to visit; \<open>done\<close> holds
  the entries already visited (with their updated flag), \<open>needReboot\<close> the flag so far.
  The result is the Go pair with the map afterwards.
\<close>

fun syncDesiredKernelArgs_loop ::
  "GenericHost \<Rightarrow> string \<Rightarrow> (string \<times> bool) list \<Rightarrow> (string \<times> bool) list \<Rightarrow> bool
     \<Rightarrow> (bool \<times> goError option) \<times> (string \<times> bool) list" where
  "syncDesiredKernelArgs_loop host kargs done [] needReboot = ((needReboot, None), done)"
| "syncDesiredKernelArgs_loop host kargs done ((desiredKarg, attempted) # rest) needReboot =
     (if \<not> IsKernelArgsSet host kargs desiredKarg
      then
        (case setKernelArg host desiredKarg of
           (_, Some err) \<Rightarrow> ((False, Some err), done @ (desiredKarg, attempted) # rest)
         | (update, None) \<Rightarrow>
             syncDesiredKernelArgs_loop host kargs (done @ [(desiredKarg, True)]) rest
               (if update then True else needReboot))
      else syncDesiredKernelArgs_loop host kargs (done @ [(desiredKarg, attempted)]) rest
             needReboot)"

definition syncDesiredKernelArgs :: "GenericHost \<Rightarrow> GenericPlugin \<Rightarrow> (bool \<times> goError option) \<times> GenericPlugin" where
  "syncDesiredKernelArgs host p =
     (if length (DesiredKernelArgs p) = 0 then ((False, None), p)
      else
        (case GetCurrentKernelArgs host of
           (_, Some err) \<Rightarrow> ((False, Some err), p)
         | (kargs, None) \<Rightarrow>
             (case syncDesiredKernelArgs_loop host kargs [] (DesiredKernelArgs p) False of
                (res, m) \<Rightarrow> (res, p\<lparr>DesiredKernelArgs := m\<rparr>))))"

text \<open>
  The inner loop of \<^verbatim>\<open>needDrainNode\<close> over the desired interfaces, for one interface of
  the status: the first component is \<^verbatim>\<open>configured\<close> when the loop ends, the second says
  that the function returned \<^verbatim>\<open>needDrain = true\<close> from inside the loop.
\<close>

fun needDrainNode_inner :: "GenericHost \<Rightarrow> InterfaceExt \<Rightarrow> Interface list \<Rightarrow> bool \<Rightarrow> bool \<times> bool" where
  "needDrainNode_inner host ifaceStatus [] configured = (configured, False)"
| "needDrainNode_inner host ifaceStatus (iface # rest) configured =
     (if PciAddress iface = extPciAddress ifaceStatus
      then
        (if extNumVfs ifaceStatus = 0 then (True, False)
         else if NeedUpdate host iface ifaceStatus then (True, True)
         else needDrainNode_inner host ifaceStatus rest True)
      else needDrainNode_inner host ifaceStatus rest configured)"

fun needDrainNode :: "GenericHost \<Rightarrow> Interface list \<Rightarrow> InterfaceExt list \<Rightarrow> bool" where
  "needDrainNode host desired [] = False"
| "needDrainNode host desired (ifaceStatus # current) =
     (case needDrainNode_inner host ifaceStatus desired False of
        (configured, returned) \<Rightarrow>
          if returned then True
          else if \<not> configured \<and> extNumVfs ifaceStatus > 0
          then
            (case LoadPfsStatus host (extPciAddress ifaceStatus) of
               (pfStatus, exist, err) \<Rightarrow>
                 if err \<noteq> None then needDrainNode host desired current
                 else if \<not> exist then needDrainNode host desired current
                 else if pfExternallyManaged pfStatus then needDrainNode host desired current
                 else True)
          else needDrainNode host desired current)"

text \<open>
  \<^verbatim>\<open>addVfioDesiredKernelArg\<close> dereferences the driver state stored under \<^verbatim>\<open>Vfio\<close>; a
  map without that entry yields a nil pointer and the dereference panics: \<open>None\<close>.
\<close>

definition addVfioDesiredKernelArg ::
  "GenericHost \<Rightarrow> GenericPlugin \<Rightarrow> SriovNetworkNodeState \<Rightarrow> GenericPlugin option" where
  "addVfioDesiredKernelArg host p state =
     (case DriverStateMap p Vfio of
        None \<Rightarrow> None
      | Some driverState \<Rightarrow>
          if \<not> DriverLoaded driverState
             \<and> callNeedDriver (NeedDriverFunc driverState) state driverState
          then Some (addToDesiredKernelArgs
                       (addToDesiredKernelArgs p (KernelArgIntelIommu host))
                       (KernelArgIommuPt host))
          else Some p)"

definition needRebootNode ::
  "GenericHost \<Rightarrow> GenericPlugin \<Rightarrow> SriovNetworkNodeState
     \<Rightarrow> ((bool \<times> goError option) \<times> GenericPlugin) option" where
  "needRebootNode host p state =
     (case addVfioDesiredKernelArg host p state of
        None \<Rightarrow> None
      | Some p1 \<Rightarrow>
          (case syncDesiredKernelArgs host p1 of
             ((_, Some err), p2) \<Rightarrow> Some ((False, Some err), p2)
           | ((updateNode, None), p2) \<Rightarrow>
               (let needReboot = (if updateNode then True else False)
                in case WriteSwitchdevConfFile host state of
                     (_, Some err) \<Rightarrow> Some ((False, Some err), p2)
                   | (updateNode', None) \<Rightarrow>
                       Some ((if updateNode' then True else needReboot, None), p2))))"

text \<open>
  \<^verbatim>\<open>GenericPlugin.OnNodeStateChange\<close>: the Go triple
  \<^verbatim>\<open>(needDrain, needReboot, err)\<close> and the plugin afterwards, or \<open>None\<close> for the panic.
\<close>

definition GenericPlugin_OnNodeStateChange ::
  "GenericHost \<Rightarrow> GenericPlugin \<Rightarrow> SriovNetworkNodeState
     \<Rightarrow> ((bool \<times> bool \<times> goError option) \<times> GenericPlugin) option" where
  "GenericPlugin_OnNodeStateChange host p new =
     (let p0 = p\<lparr>DesireState := Some new\<rparr>;
          needDrain = needDrainNode host (SpecInterfaces new)
                        (StatusInterfaces (NodeStateStatus new))
      in case needRebootNode host p0 new of
           None \<Rightarrow> None
         | Some ((needReboot, Some err), p1) \<Rightarrow> Some ((needDrain, needReboot, Some err), p1)
         | Some ((needReboot, None), p1) \<Rightarrow>
             Some ((if needReboot then True else needDrain, needReboot, None), p1))"

section \<open>The mellanox plugin\<close>

text \<open>
  The firmware helpers of \<^verbatim>\<open>pkg/vendors/mellanox\<close>, the host query and the API helper
  the plugin calls are not part of the listed sources and are parameters. A helper that
  writes through the \<^verbatim>\<open>attrs\<close> pointer returns the attributes afterwards. The plugin
  ranges over two Go maps, whose visiting order the runtime chooses: \<open>rangeSpec\<close> and
  \<open>rangeStatus\<close> stand for that choice.
\<close>

record MlxNic =
  EnableSriov :: bool
  TotalVfs :: int
  LinkTypeP1 :: string
  LinkTypeP2 :: string

type_synonym nicsSpec = "(string \<times> Interface) list"
type_synonym nicsStatus = "(string \<times> (string \<times> InterfaceExt) list) list"

record MlxHelpers =
  MellanoxVendorID :: string
  GetPciAddressPrefix :: "string \<Rightarrow> string"
  IsKernelLockdownMode :: bool
  GetMlxNicFwData :: "string \<Rightarrow> MlxNic \<times> MlxNic \<times> goError option"
  IsDualPort :: "string \<Rightarrow> nicsStatus \<Rightarrow> bool"
  HandleTotalVfs ::
    "MlxNic \<Rightarrow> MlxNic \<Rightarrow> MlxNic \<Rightarrow> Interface \<Rightarrow> bool \<Rightarrow> nicsSpec
       \<Rightarrow> (int \<times> bool \<times> bool) \<times> MlxNic"
  HandleEnableSriov :: "int \<Rightarrow> MlxNic \<Rightarrow> MlxNic \<Rightarrow> MlxNic \<Rightarrow> (bool \<times> bool) \<times> MlxNic"
  HandleLinkType ::
    "string \<Rightarrow> MlxNic \<Rightarrow> MlxNic \<Rightarrow> nicsSpec \<Rightarrow> nicsStatus
       \<Rightarrow> (bool \<times> goError option) \<times> MlxNic"
  GetVfDeviceID :: "string \<Rightarrow> string"
  rangeSpec :: "nicsSpec \<Rightarrow> nicsSpec"
  rangeStatus :: "nicsStatus \<Rightarrow> nicsStatus"

text \<open>The package-level variables of the plugin.\<close>

record MlxGlobals =
  attributesToChange :: "(string \<times> MlxNic) list"
  mellanoxNicsStatus :: nicsStatus
  mellanoxNicsSpec :: nicsSpec

text \<open>The loop that reads the status of the mellanox NICs (run once, on an empty map).\<close>

fun readNicsStatus :: "MlxHelpers \<Rightarrow> InterfaceExt list \<Rightarrow> nicsStatus \<Rightarrow> nicsStatus" where
  "readNicsStatus h [] m = m"
| "readNicsStatus h (iface # rest) m =
     (if Vendor iface \<noteq> MellanoxVendorID h then readNicsStatus h rest m
      else
        (let pciPrefix = GetPciAddressPrefix h (extPciAddress iface)
         in case map_of m pciPrefix of
              Some ifaces \<Rightarrow>
                readNicsStatus h rest
                  (AList.update pciPrefix (AList.update (extPciAddress iface) iface ifaces) m)
            | None \<Rightarrow>
                readNicsStatus h rest
                  (AList.update pciPrefix [(extPciAddress iface, iface)] m)))"

text \<open>The loop that collects the interfaces of the spec that sit on a known mellanox NIC.\<close>

fun collectNicsSpec :: "MlxHelpers \<Rightarrow> nicsStatus \<Rightarrow> Interface list \<Rightarrow> nicsSpec \<Rightarrow> nicsSpec" where
  "collectNicsSpec h status [] m = m"
| "collectNicsSpec h status (iface # rest) m =
     (let pciPrefix = GetPciAddressPrefix h (PciAddress iface)
      in if map_of status pciPrefix = None then collectNicsSpec h status rest m
         else collectNicsSpec h status rest (AList.update (PciAddress iface) iface m))"

text \<open>
  What the two processing loops carry from one iteration to the next: the set
  \<^verbatim>\<open>processedNics\<close>, the named result \<^verbatim>\<open>needReboot\<close> and the global
  \<^verbatim>\<open>attributesToChange\<close>. A loop ends with \<open>Inl\<close> when the function returns from inside
  it (the returned triple and the global map at that point), with \<open>Inr\<close> otherwise.
\<close>

record MlxLoop =
  processedNics :: "string list"
  needReboot :: bool
  toChange :: "(string \<times> MlxNic) list"

definition externallyManagedError :: goError where
  "externallyManagedError =
     ''required a change in the TotalVfs but the policy is externally managed failing''"

fun processNicsSpec ::
  "MlxHelpers \<Rightarrow> nicsSpec \<Rightarrow> nicsStatus \<Rightarrow> nicsSpec \<Rightarrow> MlxLoop
     \<Rightarrow> ((bool \<times> bool \<times> goError option) \<times> (string \<times> MlxNic) list) + MlxLoop" where
  "processNicsSpec h spec status [] st = Inr st"
| "processNicsSpec h spec status ((_, ifaceSpec) # rest) st =
     (let pciPrefix = GetPciAddressPrefix h (PciAddress ifaceSpec)
      in if pciPrefix \<in> set (processedNics st) then processNicsSpec h spec status rest st
         else
           (let st1 = st\<lparr>processedNics := pciPrefix # processedNics st\<rparr>
            in case GetMlxNicFwData h (PciAddress ifaceSpec) of
                 (_, _, Some err) \<Rightarrow> Inl ((False, False, Some err), toChange st1)
               | (fwCurrent, fwNext, None) \<Rightarrow>
                   (let isDualPort = IsDualPort h (PciAddress ifaceSpec) status;
                        attrs = \<lparr>EnableSriov = False, TotalVfs = - 1,
                                 LinkTypeP1 = '''', LinkTypeP2 = ''''\<rparr>
                    in case HandleTotalVfs h fwCurrent fwNext attrs ifaceSpec isDualPort spec of
                         ((totalVfs, needReboot0, changeWithoutReboot0), attrs1) \<Rightarrow>
                           (case HandleEnableSriov h totalVfs fwCurrent fwNext attrs1 of
                              ((sriovEnNeedReboot, sriovEnChangeWithoutReboot), attrs2) \<Rightarrow>
                                (let needReboot1 = (needReboot0 \<or> sriovEnNeedReboot);
                                     changeWithoutReboot =
                                       (changeWithoutReboot0 \<or> sriovEnChangeWithoutReboot)
                                 in if ExternallyManaged ifaceSpec \<and> needReboot1
                                    then Inl ((True, True, Some externallyManagedError),
                                              toChange st1)
                                    else
                                      (case HandleLinkType h pciPrefix fwCurrent attrs2 spec status of
                                         ((_, Some err), _) \<Rightarrow>
                                           Inl ((False, False, Some err), toChange st1)
                                       | ((needLinkChange, None), attrs3) \<Rightarrow>
                                           (let needReboot2 = (needReboot1 \<or> needLinkChange)
                                            in processNicsSpec h spec status rest
                                                 (st1\<lparr>needReboot := needReboot2,
                                                      toChange :=
                                                        (if needReboot2 \<or> changeWithoutReboot
                                                         then AList.update (PciAddress ifaceSpec)
                                                                attrs3 (toChange st1)
                                                         else toChange st1)\<rparr>))))))))"

text \<open>
  The read \<^verbatim>\<open>portsMap[pciAddress]\<close> of a missing key yields the zero interface, whose
  device identifier is the empty string.
\<close>

definition portDeviceID :: "(string \<times> InterfaceExt) list \<Rightarrow> string \<Rightarrow> string" where
  "portDeviceID portsMap pciAddress =
     (case map_of portsMap pciAddress of None \<Rightarrow> '''' | Some iface \<Rightarrow> DeviceID iface)"

fun processNicsStatus ::
  "MlxHelpers \<Rightarrow> nicsStatus \<Rightarrow> MlxLoop
     \<Rightarrow> ((bool \<times> bool \<times> goError option) \<times> (string \<times> MlxNic) list) + MlxLoop" where
  "processNicsStatus h [] st = Inr st"
| "processNicsStatus h ((pciPrefix, portsMap) # rest) st =
     (if pciPrefix \<in> set (processedNics st) then processNicsStatus h rest st
      else
        (let st1 = st\<lparr>processedNics := pciPrefix # processedNics st\<rparr>;
             pciAddress = pciPrefix @ ''0''
         in if GetVfDeviceID h (portDeviceID portsMap pciAddress) = ''''
            then processNicsStatus h rest st1
            else
              (case GetMlxNicFwData h pciAddress of
                 (_, _, Some err) \<Rightarrow> Inl ((False, False, Some err), toChange st1)
               | (_, fwNext, None) \<Rightarrow>
                   processNicsStatus h rest
                     (if TotalVfs fwNext > 0 \<or> EnableSriov fwNext
                      then st1\<lparr>toChange :=
                             AList.update pciAddress
                               \<lparr>EnableSriov = False, TotalVfs = 0,
                                LinkTypeP1 = '''', LinkTypeP2 = ''''\<rparr> (toChange st1)\<rparr>
                      else st1))))"

text \<open>
  \<^verbatim>\<open>MellanoxPlugin.OnNodeStateChange\<close>: the Go triple
  \<^verbatim>\<open>(needDrain, needReboot, err)\<close> and the package-level variables afterwards.
\<close>

definition MellanoxPlugin_OnNodeStateChange ::
  "MlxHelpers \<Rightarrow> MlxGlobals \<Rightarrow> SriovNetworkNodeState
     \<Rightarrow> (bool \<times> bool \<times> goError option) \<times> MlxGlobals" where
  "MellanoxPlugin_OnNodeStateChange h g new =
     (let status =
            (if length (mellanoxNicsStatus g) = 0
             then readNicsStatus h (StatusInterfaces (NodeStateStatus new)) (mellanoxNicsStatus g)
             else mellanoxNicsStatus g);
          spec = collectNicsSpec h status (SpecInterfaces new) [];
          g1 = \<lparr>attributesToChange = [], mellanoxNicsStatus = status, mellanoxNicsSpec = spec\<rparr>
      in if IsKernelLockdownMode h
         then
           (if length spec > 0
            then ((False, False, Some ''mellanox device detected when in lockdown mode''), g1)
            else ((False, False, None), g1))
         else
           (case processNicsSpec h spec status (rangeSpec h spec)
                   \<lparr>processedNics = [], needReboot = False, toChange = []\<rparr> of
              Inl (res, chg) \<Rightarrow> (res, g1\<lparr>attributesToChange := chg\<rparr>)
            | Inr st \<Rightarrow>
                (case processNicsStatus h (rangeStatus h status) st of
                   Inl (res, chg) \<Rightarrow> (res, g1\<lparr>attributesToChange := chg\<rparr>)
                 | Inr st' \<Rightarrow>
                     ((if needReboot st' then True else False, needReboot st', None),
                      g1\<lparr>attributesToChange := toChange st'\<rparr>))))"

text \<open>
  A host on which the kernel argument script asks for a reboot, the plugin as
  \<^verbatim>\<open>NewGenericPlugin\<close> builds it, and a node state that asks for one VFIO interface.
\<close>

definition testGenericHost :: GenericHost where
  "testGenericHost =
     \<lparr>NeedUpdate = (\<lambda>_ _. False),
      LoadPfsStatus = (\<lambda>_. (\<lparr>pfExternallyManaged = False\<rparr>, False, None)),
      GetCurrentKernelArgs = (''BOOT_IMAGE=/vmlinuz root=/dev/sda1'', None),
      IsKernelArgsSet = (\<lambda>_ _. False),
      runEnableKargs = (\<lambda>_. Printed (Inr 1)),
      WriteSwitchdevConfFile = (\<lambda>_. (False, None)),
      KernelArgIntelIommu = ''intel_iommu=on'',
      KernelArgIommuPt = ''iommu=pt''\<rparr>"

definition testGenericPlugin :: GenericPlugin where
  "testGenericPlugin =
     \<lparr>DesireState = None,
      LastState = None,
      DriverStateMap =
        [Vfio \<mapsto> \<lparr>DriverName = ''vfio_pci'', dsDeviceType = ''vfio-pci'', dsVdpaType = '''',
                    NeedDriverFunc = needDriverCheckDeviceType_ptr, DriverLoaded = False\<rparr>,
         VirtioVdpa \<mapsto> \<lparr>DriverName = ''virtio_vdpa'', dsDeviceType = ''netdevice'',
                    dsVdpaType = ''virtio'',
                    NeedDriverFunc = needDriverCheckVdpaType_ptr, DriverLoaded = False\<rparr>,
         VhostVdpa \<mapsto> \<lparr>DriverName = ''vhost_vdpa'', dsDeviceType = ''netdevice'',
                    dsVdpaType = ''vhost'',
                    NeedDriverFunc = needDriverCheckVdpaType_ptr, DriverLoaded = False\<rparr>],
      DesiredKernelArgs = []\<rparr>"

definition testNodeState :: SriovNetworkNodeState where
  "testNodeState =
     \<lparr>Name = ''node1'',
      Annotations = [NodeStateDrainAnnotationCurrent \<mapsto> DrainIdle],
      Labels = Map.empty,
      Generation = 2,
      SpecInterfaces =
        [\<lparr>PciAddress = ''0000:d8:00.0'', NumVfs = 4, IfName = ''ens1f0'',
          ExternallyManaged = False,
          VfGroups = [\<lparr>DeviceType = ''vfio-pci'', VdpaType = ''''\<rparr>]\<rparr>],
      NodeStateStatus =
        \<lparr>StatusInterfaces =
           [\<lparr>extPciAddress = ''0000:d8:00.0'', extNumVfs = 0, extName = ''ens1f0'',
             Vendor = ''15b3'', DeviceID = ''1017''\<rparr>],
         SyncStatus = ''Succeeded'', LastSyncError = ''''\<rparr>\<rparr>"

text \<open>Firmware helpers that report a change of the number of VFs that needs a reboot.\<close>

definition testMlxHelpers :: MlxHelpers where
  "testMlxHelpers =
     \<lparr>MellanoxVendorID = ''15b3'',
      GetPciAddressPrefix = butlast,
      IsKernelLockdownMode = False,
      GetMlxNicFwData =
        (\<lambda>_. (\<lparr>EnableSriov = False, TotalVfs = 0, LinkTypeP1 = ''ETH'', LinkTypeP2 = ''''\<rparr>,
               \<lparr>EnableSriov = False, TotalVfs = 0, LinkTypeP1 = ''ETH'', LinkTypeP2 = ''''\<rparr>,
               None)),
      IsDualPort = (\<lambda>_ _. False),
      HandleTotalVfs = (\<lambda>_ _ attrs iface _ _. ((NumVfs iface, True, False),
                          attrs\<lparr>TotalVfs := NumVfs iface\<rparr>)),
      HandleEnableSriov = (\<lambda>_ _ _ attrs. ((True, False), attrs\<lparr>EnableSriov := True\<rparr>)),
      HandleLinkType = (\<lambda>_ _ attrs _ _. ((False, None), attrs)),
      GetVfDeviceID = (\<lambda>_. ''1018''),
      rangeSpec = (\<lambda>m. m),
      rangeStatus = rev\<rparr>"

definition testMlxGlobals :: MlxGlobals where
  "testMlxGlobals = \<lparr>attributesToChange = [], mellanoxNicsStatus = [], mellanoxNicsSpec = []\<rparr>"

section \<open>The config daemon (pkg/daemon/daemon.go)\<close>

text \<open>
  \<^verbatim>\<open>utils.ObjectHasAnnotationKey\<close> and \<^verbatim>\<open>utils.ObjectHasAnnotation\<close> are not part
  of the listed sources; they read an object the way \<^verbatim>\<open>NodeHasAnnotation\<close> of
  \<^verbatim>\<open>cluster.go\<close> reads a node.
\<close>

definition ObjectHasAnnotationKey :: "'a ObjectMeta_scheme \<Rightarrow> string \<Rightarrow> bool" where
  "ObjectHasAnnotationKey obj annoKey = snd (go_lookup (Annotations obj) annoKey)"

definition ObjectHasAnnotation :: "'a ObjectMeta_scheme \<Rightarrow> string \<Rightarrow> string \<Rightarrow> bool" where
  "ObjectHasAnnotation obj annoKey v =
     (let (anno, ok) = go_lookup (Annotations obj) annoKey
      in if ok \<and> anno = v then True else False)"

text \<open>
  A \<^verbatim>\<open>plugin.VendorPlugin\<close> as the daemon sees it: what its two methods answer during
  one sync.
\<close>

record VendorPlugin =
  OnNodeStateChange :: "SriovNetworkNodeState \<Rightarrow> bool \<times> bool \<times> goError option"
  Apply :: "goError option"

definition GenericPluginName :: string where
  "GenericPluginName = ''generic_plugin''"

definition VirtualPluginName :: string where
  "VirtualPluginName = ''virtual_plugin''"

record Message =
  syncStatus :: string
  lastSyncError :: string

definition syncStatusSucceeded :: string where "syncStatusSucceeded = ''Succeeded''"
definition syncStatusFailed :: string where "syncStatusFailed = ''Failed''"
definition syncStatusInProgress :: string where "syncStatusInProgress = ''InProgress''"

record SriovResult =
  resSyncStatus :: string
  resLastSyncError :: string

text \<open>
  What a sync does besides talking to the two API clients, in the order it does it. A
  \<open>Refresh\<close> is a message sent on \<^verbatim>\<open>refreshCh\<close> followed by the wait on
  \<^verbatim>\<open>syncCh\<close>.
\<close>

datatype action =
    Refresh Message
  | CallOnNodeStateChange string
  | CallApply string
  | ClearPCIAddressFolder
  | WriteConfFile
  | RemoveSriovResult
  | WriteSriovSupportedNics
  | SendEvent string string
  | RebootNode
  | RestartDevicePluginPod

text \<open>
  The client of the custom resource API. A sync only ever calls \<^verbatim>\<open>Get\<close> on it; what
  the \<open>i\<close>-th \<^verbatim>\<open>Get\<close> of a sync answers is \<open>nodeStateGets i\<close> (the object changes
  between the two reads, since the status writer and the operator write to it). The
  write requests the client has received are logged in \<open>nodeStateWrites\<close>.
\<close>

record SriovClient =
  nodeStateGets :: "nat \<Rightarrow> SriovNetworkNodeState \<times> apiError option"
  nodeStateWrites :: "(string \<times> SriovNetworkNodeState) list"

text \<open>
  The host during one sync: the systemd helpers, the store manager, the plugin loader
  and the device plugin restart (whose pod deletion is not modelled beyond its result),
  none of them part of the drain handshake. \<open>rangePlugins i\<close> is the order in which the
  \<open>i\<close>-th range loop visits the map of plugins.
\<close>

record DaemonHost =
  IsServiceEnabled :: "bool \<times> goError option"
  ReadSriovResult :: "SriovResult \<times> goError option"
  clearPCIAddressFolder :: "goError option"
  enablePlugins :: "(string \<times> VendorPlugin) list \<times> goError option"
  writeConfFile :: "SriovNetworkNodeState \<Rightarrow> bool \<times> goError option"
  removeSriovResult :: "goError option"
  writeSriovSupportedNics :: "goError option"
  restartDevicePluginPod :: "goError option"
  rangePlugins :: "nat \<Rightarrow> (string \<times> VendorPlugin) list \<Rightarrow> (string \<times> VendorPlugin) list"

record Daemon =
  dnName :: string
  useSystemdService :: bool
  disableDrain :: bool
  desiredNodeState :: SriovNetworkNodeState
  currentNodeState :: SriovNetworkNodeState
  enabledPlugins :: "(string \<times> VendorPlugin) list"
  kubeClient :: KubeClient
  client :: SriovClient

datatype syncError = ApiErr apiError | HostErr goError

definition isNodeDraining :: "Daemon \<Rightarrow> bool" where
  "isNodeDraining dn =
     (let (anno, ok) =
            go_lookup (Annotations (desiredNodeState dn)) NodeStateDrainAnnotationCurrent
      in if \<not> ok then False
         else anno = Draining \<or> anno = DrainMcpPaused)"

text \<open>
  The call site passes the annotation key \<^verbatim>\<open>consts.NodeDrainAnnotation\<close> to
  \<^verbatim>\<open>utils.AnnotateNode\<close> explicitly; it is the key \<open>AnnotateNode\<close> writes.
\<close>

definition applyDrainRequired :: "Daemon \<Rightarrow> syncError option \<times> Daemon" where
  "applyDrainRequired dn =
     (case AnnotateNode (dnName dn) DrainRequired (kubeClient dn) of
        (Some err, kc) \<Rightarrow> (Some (ApiErr err), dn\<lparr>kubeClient := kc\<rparr>)
      | (None, kc) \<Rightarrow> (None, dn\<lparr>kubeClient := kc\<rparr>))"

text \<open>Lines 346 to 391: the generation has not changed and the drain is not complete.\<close>

definition syncUnchanged :: "DaemonHost \<Rightarrow> Daemon \<Rightarrow> syncError option \<times> Daemon \<times> action list" where
  "syncUnchanged host dn =
     (let notChanged =
            (if LastSyncError (NodeStateStatus (desiredNodeState dn)) \<noteq> ''''
                \<or> SyncStatus (NodeStateStatus (desiredNodeState dn)) \<noteq> syncStatusSucceeded
             then (None, dn, [Refresh \<lparr>syncStatus = syncStatusSucceeded, lastSyncError = ''''\<rparr>])
             else (None, dn, []))
      in if useSystemdService dn
         then
           (case IsServiceEnabled host of
              (_, Some err) \<Rightarrow> (Some (HostErr err), dn, [])
            | (serviceEnabled, None) \<Rightarrow>
                (if \<not> serviceEnabled
                 then
                   (None, dn,
                    [Refresh \<lparr>syncStatus = syncStatusFailed,
                       lastSyncError =
                         ''sriov-config systemd service is not available on node''\<rparr>])
                 else
                   (case ReadSriovResult host of
                      (_, Some err) \<Rightarrow> (Some (HostErr err), dn, [])
                    | (sriovResult, None) \<Rightarrow>
                        if resLastSyncError sriovResult \<noteq> ''''
                           \<or> resSyncStatus sriovResult = syncStatusFailed
                        then
                          (None, dn,
                           [Refresh \<lparr>syncStatus = syncStatusFailed,
                              lastSyncError = resLastSyncError sriovResult\<rparr>])
                        else notChanged)))
         else notChanged)"

text \<open>Lines 393 to 412: the first generation, with no interface policy yet.\<close>

definition syncFirstGeneration :: "DaemonHost \<Rightarrow> Daemon \<Rightarrow> syncError option \<times> Daemon \<times> action list" where
  "syncFirstGeneration host dn =
     (case clearPCIAddressFolder host of
        Some err \<Rightarrow> (Some (HostErr err), dn, [ClearPCIAddressFolder])
      | None \<Rightarrow>
          if SyncStatus (NodeStateStatus (desiredNodeState dn)) \<noteq> ''Succeeded''
          then (None, dn,
                [ClearPCIAddressFolder,
                 Refresh \<lparr>syncStatus = ''Succeeded'', lastSyncError = ''''\<rparr>])
          else (None, dn, [ClearPCIAddressFolder]))"

text \<open>
  The loop of lines 444 to 459 over the plugins still to ask, with the two flags and the
  actions so far; \<open>Inl\<close> is the error return from inside the loop.
\<close>

fun askPlugins ::
  "(string \<times> VendorPlugin) list \<Rightarrow> SriovNetworkNodeState \<Rightarrow> bool \<Rightarrow> bool \<Rightarrow> action list
     \<Rightarrow> (goError \<times> action list) + (bool \<times> bool \<times> action list)" where
  "askPlugins [] state reqDrain reqReboot tr = Inr (reqDrain, reqReboot, tr)"
| "askPlugins ((k, p) # rest) state reqDrain reqReboot tr =
     (case OnNodeStateChange p state of
        (_, _, Some err) \<Rightarrow> Inl (err, tr @ [CallOnNodeStateChange k])
      | (d, r, None) \<Rightarrow>
          askPlugins rest state (reqDrain \<or> d) (reqReboot \<or> r)
            (tr @ [CallOnNodeStateChange k]))"

text \<open>The loop of lines 493 to 502, which applies every plugin but the last two.\<close>

fun applyVendorPlugins ::
  "(string \<times> VendorPlugin) list \<Rightarrow> action list \<Rightarrow> (goError \<times> action list) + action list" where
  "applyVendorPlugins [] tr = Inr tr"
| "applyVendorPlugins ((k, p) # rest) tr =
     (if k \<noteq> GenericPluginName \<and> k \<noteq> VirtualPluginName
      then
        (case Apply p of
           Some err \<Rightarrow> Inl (err, tr @ [CallApply k])
         | None \<Rightarrow> applyVendorPlugins rest (tr @ [CallApply k]))
      else applyVendorPlugins rest tr)"

text \<open>Lines 431 to 438: the plugins are loaded when none is.\<close>

definition loadPlugins :: "DaemonHost \<Rightarrow> Daemon \<Rightarrow> Daemon \<times> goError option" where
  "loadPlugins host dn =
     (if length (enabledPlugins dn) = 0
      then (case enablePlugins host of (ps, err) \<Rightarrow> (dn\<lparr>enabledPlugins := ps\<rparr>, err))
      else (dn, None))"

text \<open>
  Lines 461 to 489, the systemd mode: the configuration file is written, and a modified
  file asks for a drain and a reboot.
\<close>

definition syncSystemd ::
  "DaemonHost \<Rightarrow> Daemon \<Rightarrow> bool \<Rightarrow> bool \<Rightarrow> action list
     \<Rightarrow> (goError \<times> action list) + (bool \<times> bool \<times> action list)" where
  "syncSystemd host dn reqDrain reqReboot tr =
     (if useSystemdService dn
      then
        (case writeConfFile host (desiredNodeState dn) of
           (_, Some err) \<Rightarrow> Inl (err, tr @ [WriteConfFile])
         | (systemdConfModified, None) \<Rightarrow>
             (case (if systemdConfModified
                    then (removeSriovResult host, tr @ [WriteConfFile, RemoveSriovResult])
                    else (None, tr @ [WriteConfFile])) of
                (Some err, tr1) \<Rightarrow> Inl (err, tr1)
              | (None, tr1) \<Rightarrow>
                  (case writeSriovSupportedNics host of
                     Some err \<Rightarrow> Inl (err, tr1 @ [WriteSriovSupportedNics])
                   | None \<Rightarrow>
                       Inr (reqDrain \<or> systemdConfModified, reqReboot \<or> systemdConfModified,
                            tr1 @ [WriteSriovSupportedNics]))))
      else Inr (reqDrain, reqReboot, tr))"

text \<open>
  Lines 414 to 502, from the in-progress message to the drain gate. \<open>Inl\<close> is a return
  before the gate; \<open>Inr\<close> carries \<^verbatim>\<open>reqDrain\<close>, \<^verbatim>\<open>reqReboot\<close>, the daemon and the
  actions when the gate is reached.
\<close>

definition syncPrepare ::
  "DaemonHost \<Rightarrow> Daemon
     \<Rightarrow> (syncError option \<times> Daemon \<times> action list) + (bool \<times> bool \<times> Daemon \<times> action list)" where
  "syncPrepare host dn =
     (let tr0 = [Refresh \<lparr>syncStatus = syncStatusInProgress, lastSyncError = ''''\<rparr>]
      in case nodeStateGets (client dn) 1 of
           (_, Some err) \<Rightarrow> Inl (Some (ApiErr err), dn, tr0)
         | (updatedState, None) \<Rightarrow>
             (case loadPlugins host
                     (dn\<lparr>desiredNodeState :=
                          (desiredNodeState dn)\<lparr>NodeStateStatus :=
                             NodeStateStatus updatedState\<rparr>\<rparr>) of
                (dn2, Some err) \<Rightarrow> Inl (Some (HostErr err), dn2, tr0)
              | (dn2, None) \<Rightarrow>
                  (case askPlugins (rangePlugins host 0 (enabledPlugins dn2))
                          (desiredNodeState dn2) False False tr0 of
                     Inl (err, tr1) \<Rightarrow> Inl (Some (HostErr err), dn2, tr1)
                   | Inr (reqDrain0, reqReboot0, tr1) \<Rightarrow>
                       (case syncSystemd host dn2 reqDrain0 reqReboot0 tr1 of
                          Inl (err, tr4) \<Rightarrow> Inl (Some (HostErr err), dn2, tr4)
                        | Inr (reqDrain, reqReboot, tr4) \<Rightarrow>
                            (case applyVendorPlugins
                                    (rangePlugins host 1 (enabledPlugins dn2)) tr4 of
                               Inl (err, tr5) \<Rightarrow> Inl (Some (HostErr err), dn2, tr5)
                             | Inr tr5 \<Rightarrow> Inr (reqDrain, reqReboot, dn2, tr5))))))"

text \<open>
  Lines 504 to 521, the drain gate: either the sync goes on, or it returns with the
  given error value.
\<close>

datatype gate = Proceed | Return "syncError option"

definition drainGate :: "Daemon \<Rightarrow> bool \<Rightarrow> gate \<times> Daemon" where
  "drainGate dn reqDrain =
     (if reqDrain
         \<or> (ObjectHasAnnotationKey (desiredNodeState dn) NodeStateDrainAnnotationCurrent
            \<and> \<not> ObjectHasAnnotation (desiredNodeState dn) NodeStateDrainAnnotationCurrent
                  DrainIdle)
      then
        (if ObjectHasAnnotation (desiredNodeState dn) NodeStateDrainAnnotationCurrent
              DrainComplete
         then (Proceed, dn)
         else if \<not> isNodeDraining dn
         then
           (if \<not> disableDrain dn
            then
              (case applyDrainRequired dn of
                 (Some err, dn') \<Rightarrow> (Return (Some err), dn')
               | (None, dn') \<Rightarrow> (Return None, dn'))
            else (Proceed, dn))
         else (Return None, dn))
      else (Proceed, dn))"

text \<open>Lines 523 to 581, after the gate.\<close>

definition applyLast :: "Daemon \<Rightarrow> string \<Rightarrow> action list \<Rightarrow> (goError \<times> action list) + action list" where
  "applyLast dn k tr =
     (case map_of (enabledPlugins dn) k of
        None \<Rightarrow> Inr tr
      | Some selectedPlugin \<Rightarrow>
          (case Apply selectedPlugin of
             Some err \<Rightarrow> Inl (err, tr @ [CallApply k])
           | None \<Rightarrow> Inr (tr @ [CallApply k])))"

definition syncFinish ::
  "DaemonHost \<Rightarrow> Daemon \<Rightarrow> bool \<Rightarrow> action list \<Rightarrow> syncError option \<times> Daemon \<times> action list" where
  "syncFinish host dn reqReboot tr =
     (let applied =
            (if \<not> reqReboot \<and> \<not> useSystemdService dn
             then
               (case applyLast dn GenericPluginName tr of
                  Inl e \<Rightarrow> Inl e
                | Inr tr1 \<Rightarrow> applyLast dn VirtualPluginName tr1)
             else Inr tr)
      in case applied of
           Inl (err, tr2) \<Rightarrow> (Some (HostErr err), dn, tr2)
         | Inr tr2 \<Rightarrow>
             if reqReboot
             then (None, dn,
                   tr2 @ [SendEvent ''RebootNode'' ''Reboot node has been initiated'',
                          RebootNode])
             else
               (case restartDevicePluginPod host of
                  Some err \<Rightarrow> (Some (HostErr err), dn, tr2 @ [RestartDevicePluginPod])
                | None \<Rightarrow>
                    (case AnnotateNode (dnName dn) DrainIdle (kubeClient dn) of
                       (Some err, kc) \<Rightarrow>
                         (Some (ApiErr err), dn\<lparr>kubeClient := kc\<rparr>,
                          tr2 @ [RestartDevicePluginPod])
                     | (None, kc) \<Rightarrow>
                         (None,
                          dn\<lparr>kubeClient := kc, currentNodeState := desiredNodeState dn\<rparr>,
                          tr2 @ [RestartDevicePluginPod,
                                 Refresh \<lparr>syncStatus = syncStatusSucceeded,
                                          lastSyncError = ''''\<rparr>]))))"

text \<open>
  \<^verbatim>\<open>Daemon.nodeStateSyncHandler\<close>: the error it returns (\<open>None\<close> is \<^verbatim>\<open>nil\<close>), the
  daemon afterwards and the actions of the sync. The first \<^verbatim>\<open>Get\<close> stores its result
  in the daemon even when it fails. In systemd mode the final message carries the sync
  result initialised at the top of the function, which is \<^verbatim>\<open>Succeeded\<close> with no error
  on this path.
\<close>

definition nodeStateSyncHandler :: "DaemonHost \<Rightarrow> Daemon \<Rightarrow> syncError option \<times> Daemon \<times> action list" where
  "nodeStateSyncHandler host dn =
     (case nodeStateGets (client dn) 0 of
        (fetched, Some err) \<Rightarrow> (Some (ApiErr err), dn\<lparr>desiredNodeState := fetched\<rparr>, [])
      | (fetched, None) \<Rightarrow>
          (let dn0 = dn\<lparr>desiredNodeState := fetched\<rparr>;
               latest = Generation (desiredNodeState dn0)
           in if Generation (currentNodeState dn0) = latest
                 \<and> \<not> ObjectHasAnnotation (desiredNodeState dn0)
                       NodeStateDrainAnnotationCurrent DrainComplete
              then syncUnchanged host dn0
              else if Generation (desiredNodeState dn0) = 1
                      \<and> length (SpecInterfaces (desiredNodeState dn0)) = 0
              then syncFirstGeneration host dn0
              else
                (case syncPrepare host dn0 of
                   Inl res \<Rightarrow> res
                 | Inr (reqDrain, reqReboot, dn1, tr) \<Rightarrow>
                     (case drainGate dn1 reqDrain of
                        (Return err, dn2) \<Rightarrow> (err, dn2, tr)
                      | (Proceed, dn2) \<Rightarrow> syncFinish host dn2 reqReboot tr))))"

text \<open>
  A daemon on \<^verbatim>\<open>node1\<close> of the test cluster that has not synced yet, whose node state
  carries the given grant; its only plugin is the generic one, which asks for a drain
  and no reboot and whose \<^verbatim>\<open>Apply\<close> succeeds; nothing on the host fails.
\<close>

definition testPlugin :: VendorPlugin where
  "testPlugin = \<lparr>OnNodeStateChange = (\<lambda>_. (True, False, None)), Apply = None\<rparr>"

definition testDaemonHost :: DaemonHost where
  "testDaemonHost =
     \<lparr>IsServiceEnabled = (False, None),
      ReadSriovResult = (\<lparr>resSyncStatus = ''Succeeded'', resLastSyncError = ''''\<rparr>, None),
      clearPCIAddressFolder = None,
      enablePlugins = ([(GenericPluginName, testPlugin)], None),
      writeConfFile = (\<lambda>_. (False, None)),
      removeSriovResult = None,
      writeSriovSupportedNics = None,
      restartDevicePluginPod = None,
      rangePlugins = (\<lambda>_ ps. ps)\<rparr>"

definition emptyNodeState :: SriovNetworkNodeState where
  "emptyNodeState =
     \<lparr>Name = '''', Annotations = Map.empty, Labels = Map.empty, Generation = 0,
      SpecInterfaces = [],
      NodeStateStatus = \<lparr>StatusInterfaces = [], SyncStatus = '''', LastSyncError = ''''\<rparr>\<rparr>"

definition testDaemon :: "bool \<Rightarrow> string \<Rightarrow> Daemon" where
  "testDaemon noDrain grant =
     \<lparr>dnName = ''node1'',
      useSystemdService = False,
      disableDrain = noDrain,
      desiredNodeState = emptyNodeState,
      currentNodeState = emptyNodeState,
      enabledPlugins = [],
      kubeClient = testCluster,
      client =
        \<lparr>nodeStateGets =
           (\<lambda>_. (testNodeState\<lparr>Annotations := [NodeStateDrainAnnotationCurrent \<mapsto> grant]\<rparr>,
                  None)),
         nodeStateWrites = []\<rparr>\<rparr>"

text \<open>
  Vocabulary for the statements about the daemon: the grant a node state carries, and the
  grant the daemon reads at the drain gate; the actions of lines 523 to 581, which lie
  behind the gate (\<^verbatim>\<open>Apply\<close> of the generic and of the virtual plugin, the reboot with
  its event, and the restart of the device plugin: every other action of a sync runs
  before the gate or on a path that does not lead to it); a sync that reaches the gate,
  with the flags, the daemon and the actions it arrives with; and the relation between a
  daemon before and after a step that may have submitted one patch of the request
  annotation of its own node, with the value \<open>v\<close>, and nothing else to either API.
\<close>

definition grantOf :: "SriovNetworkNodeState \<Rightarrow> string option" where
  "grantOf st = Annotations st NodeStateDrainAnnotationCurrent"

definition grantSeen :: "Daemon \<Rightarrow> string option" where
  "grantSeen dn = Annotations (desiredNodeState dn) NodeStateDrainAnnotationCurrent"

fun behindGate :: "action \<Rightarrow> bool" where
  "behindGate (CallApply k) \<longleftrightarrow> k = GenericPluginName \<or> k = VirtualPluginName"
| "behindGate (SendEvent reason msg) \<longleftrightarrow> True"
| "behindGate RebootNode \<longleftrightarrow> True"
| "behindGate RestartDevicePluginPod \<longleftrightarrow> True"
| "behindGate (Refresh m) \<longleftrightarrow> False"
| "behindGate (CallOnNodeStateChange k) \<longleftrightarrow> False"
| "behindGate ClearPCIAddressFolder \<longleftrightarrow> False"
| "behindGate WriteConfFile \<longleftrightarrow> False"
| "behindGate RemoveSriovResult \<longleftrightarrow> False"
| "behindGate WriteSriovSupportedNics \<longleftrightarrow> False"

definition reachesGate ::
  "DaemonHost \<Rightarrow> Daemon \<Rightarrow> SriovNetworkNodeState \<Rightarrow> bool \<Rightarrow> bool \<Rightarrow> Daemon \<Rightarrow> action list
     \<Rightarrow> bool" where
  "reachesGate host dn fetched reqDrain reqReboot dn1 tr \<longleftrightarrow>
     nodeStateGets (client dn) 0 = (fetched, None)
     \<and> \<not> (Generation (currentNodeState dn) = Generation fetched
           \<and> \<not> ObjectHasAnnotation fetched NodeStateDrainAnnotationCurrent DrainComplete)
     \<and> \<not> (Generation fetched = 1 \<and> length (SpecInterfaces fetched) = 0)
     \<and> syncPrepare host (dn\<lparr>desiredNodeState := fetched\<rparr>)
         = Inr (reqDrain, reqReboot, dn1, tr)"

definition oneRequestPatch :: "Daemon \<Rightarrow> Daemon \<Rightarrow> string \<Rightarrow> bool" where
  "oneRequestPatch dn dn' v \<longleftrightarrow>
     client dn' = client dn \<and> dnName dn' = dnName dn
     \<and> (nodePatches (kubeClient dn') = nodePatches (kubeClient dn)
        \<or> nodePatches (kubeClient dn')
            = nodePatches (kubeClient dn) @ [(dnName dn, requestPatch v)])"

text \<open>
  A host whose plugin loader answers the mellanox plugin beside the generic one, and the
  test daemon in systemd mode.
\<close>

definition testVendorHost :: DaemonHost where
  "testVendorHost =
     testDaemonHost\<lparr>enablePlugins :=
       ([(''mellanox_plugin'', testPlugin), (GenericPluginName, testPlugin)], None)\<rparr>"

definition testSystemdDaemon :: "string \<Rightarrow> Daemon" where
  "testSystemdDaemon grant = (testDaemon False grant)\<lparr>useSystemdService := True\<rparr>"

section \<open>The drain coordinator\<close>

text \<open>
  Modelled from the spec: the reconciler of the drain controller (\<^verbatim>\<open>Reconcile\<close>, the pool
  resolver and the state machine) is not part of the listed sources, which hold only its
  event filter and its tests. The definitions of this section follow sections 3, 4.1,
  4.3 and 4.4 of the specification. The two sides of the handshake are the tagged values
  that section 9 asks for.
\<close>

datatype grant = G_Idle | G_DrainRequired | G_Draining | G_DrainMcpPaused | G_DrainComplete

datatype request = R_DrainIdle | R_DrainRequired | R_RebootRequired

text \<open>
  Modelled from the spec: a node as the coordinator sees it (section 3), with its request
  annotation (\<open>None\<close>: absent) and its node state (\<open>None\<close>: no node state of that name;
  \<open>Some None\<close>: a node state without grant annotation).
\<close>

record CoordNode =
  nodeName :: string
  nodeLabels :: "string \<rightharpoonup> string"
  unschedulable :: bool
  requestAnno :: "request option"
  nodeState :: "grant option option"

text \<open>
  Modelled from the spec: a pool configuration (section 3) is a name, a node selector
  (the label terms that must all match; none matches every node) and a budget that is an
  absolute number, a percentage, or unset. A string that is neither is kept as it is.
\<close>

datatype budget = Absolute int | Percentage int | Unparseable string

record PoolConfig =
  poolName :: string
  poolSelector :: "(string \<times> string) list"
  poolMaxUnavailable :: "budget option"

text \<open>
  Modelled from the spec: the snapshot a reconcile works on (section 4.4), the nodes,
  the pool configurations other than the default one, and the default one, which always
  exists.
\<close>

record Fleet =
  fleetNodes :: "CoordNode list"
  poolConfigs :: "PoolConfig list"
  defaultPool :: PoolConfig

datatype coordError =
    ConfigError
  | FatalInvariantViolation
  | DrainerError string
  | PlatformHookError string

text \<open>
  Modelled from the spec: the pool resolver of section 4.1. A node belongs to the
  matching non-default pool configuration with the smallest name in the lexicographic
  order, to the default one when none matches; two matching configurations of the same
  name are a fatal violation (section 7).
\<close>

definition selects :: "PoolConfig \<Rightarrow> CoordNode \<Rightarrow> bool" where
  "selects pc n = list_all (\<lambda>(k, v). nodeLabels n k = Some v) (poolSelector pc)"

definition poolConfigOf :: "Fleet \<Rightarrow> CoordNode \<Rightarrow> coordError + PoolConfig" where
  "poolConfigOf fleet n =
     (let matching = filter (\<lambda>pc. selects pc n) (poolConfigs fleet)
      in if matching = [] then Inr (defaultPool fleet)
         else if \<not> distinct (map poolName matching) then Inl FatalInvariantViolation
         else Inr (arg_min_list poolName matching))"

definition nodesInPool :: "Fleet \<Rightarrow> PoolConfig \<Rightarrow> CoordNode list" where
  "nodesInPool fleet pc = filter (\<lambda>m. poolConfigOf fleet m = Inr pc) (fleetNodes fleet)"

text \<open>
  Modelled from the spec: the resolution of \<^verbatim>\<open>MaxUnavailable\<close> against the size of the
  pool (section 4.1); \<open>None\<close> is the missing cap of an unset budget.
\<close>

definition resolveMaxUnavailable :: "budget option \<Rightarrow> nat \<Rightarrow> coordError + nat option" where
  "resolveMaxUnavailable b poolSize =
     (case b of
        None \<Rightarrow> Inr None
      | Some (Absolute i) \<Rightarrow>
          if i < 0 then Inl ConfigError else Inr (Some (min (nat i) poolSize))
      | Some (Percentage p) \<Rightarrow>
          if p < 0 then Inl ConfigError
          else Inr (Some (min (max 1 (nat p * poolSize div 100)) poolSize))
      | Some (Unparseable _) \<Rightarrow> Inl ConfigError)"

definition maxUnavailable :: "Fleet \<Rightarrow> PoolConfig \<Rightarrow> coordError + nat option" where
  "maxUnavailable fleet pc =
     resolveMaxUnavailable (poolMaxUnavailable pc) (length (nodesInPool fleet pc))"

text \<open>
  Modelled from the spec: the grants that count as a concurrent drain, and their number
  in a pool (section 4.4, step 5).
\<close>

definition consumesSlot :: "grant \<Rightarrow> bool" where
  "consumesSlot g \<longleftrightarrow> g = G_Draining \<or> g = G_DrainMcpPaused \<or> g = G_DrainComplete"

definition draining :: "CoordNode \<Rightarrow> bool" where
  "draining m = (case nodeState m of Some (Some g) \<Rightarrow> consumesSlot g | _ \<Rightarrow> False)"

definition concurrentDrains :: "Fleet \<Rightarrow> PoolConfig \<Rightarrow> nat" where
  "concurrentDrains fleet pc = length (filter draining (nodesInPool fleet pc))"

text \<open>
  Modelled from the spec: the external capabilities of sections 2 and 4.5. The drainer
  answers \<^verbatim>\<open>(completed, err)\<close>, a platform hook \<^verbatim>\<open>(ready, err)\<close>; \<open>poolPaused\<close> is
  the platform's signal that the pool of the node was paused.
\<close>

record Capabilities =
  drainNode :: "string \<Rightarrow> bool \<times> string option"
  uncordonNode :: "string \<Rightarrow> bool \<times> string option"
  beforeDrain :: "string \<Rightarrow> bool \<times> string option"
  completeDrain :: "string \<Rightarrow> bool \<times> string option"
  poolPaused :: "string \<Rightarrow> bool"

datatype reconcileResult = Success | RequeueAfter | Failure coordError

text \<open>
  Modelled from the spec: a write to the node of the given name or to its node state;
  all mutation flows through the object store, one object at a time (section 5).
\<close>

definition updateNode :: "Fleet \<Rightarrow> string \<Rightarrow> (CoordNode \<Rightarrow> CoordNode) \<Rightarrow> Fleet" where
  "updateNode fleet name f =
     fleet\<lparr>fleetNodes := map (\<lambda>m. if nodeName m = name then f m else m) (fleetNodes fleet)\<rparr>"

definition setGrant :: "Fleet \<Rightarrow> string \<Rightarrow> grant \<Rightarrow> Fleet" where
  "setGrant fleet name g = updateNode fleet name (\<lambda>m. m\<lparr>nodeState := Some (Some g)\<rparr>)"

definition setUnschedulable :: "Fleet \<Rightarrow> string \<Rightarrow> bool \<Rightarrow> Fleet" where
  "setUnschedulable fleet name b = updateNode fleet name (\<lambda>m. m\<lparr>unschedulable := b\<rparr>)"

text \<open>
  Modelled from the spec: step 4 of section 4.4, the request is idle or absent and the
  grant is not \<^verbatim>\<open>Idle\<close>: uncordon; call \<^verbatim>\<open>completeDrain\<close>; if ready, set the grant to
  \<^verbatim>\<open>Idle\<close>; else requeue. An error of the drainer or of the hook stops the advance
  (section 7).
\<close>

definition release :: "Capabilities \<Rightarrow> Fleet \<Rightarrow> string \<Rightarrow> reconcileResult \<times> Fleet" where
  "release cap fleet name =
     (case uncordonNode cap name of
        (_, Some e) \<Rightarrow> (Failure (DrainerError e), fleet)
      | (False, None) \<Rightarrow> (RequeueAfter, fleet)
      | (True, None) \<Rightarrow>
          (let fleet1 = setUnschedulable fleet name False
           in case completeDrain cap name of
                (_, Some e) \<Rightarrow> (Failure (PlatformHookError e), fleet1)
              | (False, None) \<Rightarrow> (RequeueAfter, fleet1)
              | (True, None) \<Rightarrow> (Success, setGrant fleet1 name G_Idle)))"

text \<open>
  Modelled from the spec: the first row of the table of section 4.3, request and grant
  both idle: ensure the node is schedulable.
\<close>

definition ensureSchedulable :: "Capabilities \<Rightarrow> Fleet \<Rightarrow> string \<Rightarrow> reconcileResult \<times> Fleet" where
  "ensureSchedulable cap fleet name =
     (case uncordonNode cap name of
        (_, Some e) \<Rightarrow> (Failure (DrainerError e), fleet)
      | (False, None) \<Rightarrow> (RequeueAfter, fleet)
      | (True, None) \<Rightarrow> (Success, setUnschedulable fleet name False))"

text \<open>
  Modelled from the spec: step 5 of section 4.4, the request asks for a drain and the
  grant is \<^verbatim>\<open>Idle\<close>: admit if the concurrent drains of the pool are fewer than its
  \<^verbatim>\<open>MaxUnavailable\<close>, otherwise do not advance and requeue; on admission cordon the
  node, call \<^verbatim>\<open>beforeDrain\<close> and set the grant to \<^verbatim>\<open>Draining\<close>, or to
  \<^verbatim>\<open>DrainMcpPaused\<close> if the platform signals that the pool was paused.
\<close>

definition withinCap :: "nat option \<Rightarrow> nat \<Rightarrow> bool" where
  "withinCap cap' concurrent = (case cap' of None \<Rightarrow> True | Some k \<Rightarrow> concurrent < k)"

definition admit ::
  "Capabilities \<Rightarrow> Fleet \<Rightarrow> string \<Rightarrow> PoolConfig \<Rightarrow> nat option \<Rightarrow> reconcileResult \<times> Fleet" where
  "admit cap fleet name pc cap' =
     (if withinCap cap' (concurrentDrains fleet pc)
      then
        (let fleet1 = setUnschedulable fleet name True
         in case beforeDrain cap name of
              (_, Some e) \<Rightarrow> (Failure (PlatformHookError e), fleet1)
            | (_, None) \<Rightarrow>
                (Success,
                 setGrant fleet1 name
                   (if poolPaused cap name then G_DrainMcpPaused else G_Draining)))
      else (RequeueAfter, fleet))"

text \<open>
  Modelled from the spec: step 6 of section 4.4 with the edge policy of section 4.3: the
  grant advances to \<^verbatim>\<open>DrainComplete\<close> only after \<^verbatim>\<open>beforeDrain\<close> returns ready and the
  drainer reports completed; otherwise requeue.
\<close>

definition advance :: "Capabilities \<Rightarrow> Fleet \<Rightarrow> string \<Rightarrow> reconcileResult \<times> Fleet" where
  "advance cap fleet name =
     (case beforeDrain cap name of
        (_, Some e) \<Rightarrow> (Failure (PlatformHookError e), fleet)
      | (False, None) \<Rightarrow> (RequeueAfter, fleet)
      | (True, None) \<Rightarrow>
          (case drainNode cap name of
             (_, Some e) \<Rightarrow> (Failure (DrainerError e), fleet)
           | (False, None) \<Rightarrow> (RequeueAfter, fleet)
           | (True, None) \<Rightarrow> (Success, setGrant fleet name G_DrainComplete)))"

definition requestsDrain :: "request option \<Rightarrow> bool" where
  "requestsDrain r \<longleftrightarrow> r = Some R_DrainRequired \<or> r = Some R_RebootRequired"

text \<open>
  Modelled from the spec: \<^verbatim>\<open>Reconcile(nodeName)\<close> of section 4.4, one transition of the
  state machine per invocation. A missing node or node state is a success without
  effect; a pool that cannot be resolved fails the reconcile and leaves the nodes in
  their prior state; a node state without grant annotation gets \<^verbatim>\<open>Idle\<close> written. A
  grant \<^verbatim>\<open>DrainComplete\<close> (or the intermediate \<^verbatim>\<open>DrainRequired\<close>) under a standing
  request is left as it is.
\<close>

definition Reconcile :: "Capabilities \<Rightarrow> Fleet \<Rightarrow> string \<Rightarrow> reconcileResult \<times> Fleet" where
  "Reconcile cap fleet name =
     (case find (\<lambda>m. nodeName m = name) (fleetNodes fleet) of
        None \<Rightarrow> (Success, fleet)
      | Some n \<Rightarrow>
          (case nodeState n of
             None \<Rightarrow> (Success, fleet)
           | Some observed \<Rightarrow>
               (case poolConfigOf fleet n of
                  Inl e \<Rightarrow> (Failure e, fleet)
                | Inr pc \<Rightarrow>
                    (case maxUnavailable fleet pc of
                       Inl e \<Rightarrow> (Failure e, fleet)
                     | Inr cap' \<Rightarrow>
                         (let g = (case observed of None \<Rightarrow> G_Idle | Some g' \<Rightarrow> g');
                              fleet0 = setGrant fleet name g
                          in if requestsDrain (requestAnno n)
                             then
                               (if g = G_Idle then admit cap fleet0 name pc cap'
                                else if g = G_Draining \<or> g = G_DrainMcpPaused
                                then advance cap fleet0 name
                                else (Success, fleet0))
                             else
                               (if g \<noteq> G_Idle then release cap fleet0 name
                                else ensureSchedulable cap fleet0 name))))))"

text \<open>
  Modelled from the spec: the per-node agent writes the request annotation of its node
  and nothing else (section 3); a run of the system is a sequence of reconciles, each
  with the answers its capabilities give, and of agent writes.
\<close>

definition agentWrites :: "Fleet \<Rightarrow> string \<Rightarrow> request \<Rightarrow> Fleet" where
  "agentWrites fleet name r = updateNode fleet name (\<lambda>m. m\<lparr>requestAnno := Some r\<rparr>)"

datatype event = Reconciled Capabilities string | AgentWrote string request

fun run :: "Fleet \<Rightarrow> event list \<Rightarrow> Fleet" where
  "run fleet [] = fleet"
| "run fleet (Reconciled cap name # evs) = run (snd (Reconcile cap fleet name)) evs"
| "run fleet (AgentWrote name r # evs) = run (agentWrites fleet name r) evs"



text \<open>
  Vocabulary for the statements about the coordinator: a write to a node that keeps its
  name and its labels; two fleets that differ by such writes to the nodes of one name;
  and the node state of the node of a given name.
\<close>

definition keepsIdentity :: "(CoordNode \<Rightarrow> CoordNode) \<Rightarrow> bool" where
  "keepsIdentity g \<longleftrightarrow> (\<forall>m. nodeName (g m) = nodeName m \<and> nodeLabels (g m) = nodeLabels m)"

definition touchesOnly :: "Fleet \<Rightarrow> string \<Rightarrow> Fleet \<Rightarrow> bool" where
  "touchesOnly fleet name fleet' \<longleftrightarrow> (\<exists>g. keepsIdentity g \<and> fleet' = updateNode fleet name g)"

definition nodeNamed :: "Fleet \<Rightarrow> string \<Rightarrow> CoordNode option" where
  "nodeNamed fleet name = find (\<lambda>m. nodeName m = name) (fleetNodes fleet)"

text \<open>
  The fleet of the controller test: three nodes labelled \<^verbatim>\<open>test\<close> with an idle grant,
  selected by the pool \<^verbatim>\<open>test-workers\<close> with the given budget, beside the default pool
  with a budget of one; and capabilities that answer completed and ready at once, as the
  mocked platform of the test does.
\<close>

definition testCoordNode :: "string \<Rightarrow> request \<Rightarrow> CoordNode" where
  "testCoordNode name r =
     \<lparr>nodeName = name, nodeLabels = [''test'' \<mapsto> ''''], unschedulable = False,
      requestAnno = Some r, nodeState = Some (Some G_Idle)\<rparr>"

definition testWorkers :: "budget option \<Rightarrow> PoolConfig" where
  "testWorkers b =
     \<lparr>poolName = ''test-workers'', poolSelector = [(''test'', '''')],
      poolMaxUnavailable = b\<rparr>"

definition testFleet :: "budget option \<Rightarrow> Fleet" where
  "testFleet b =
     \<lparr>fleetNodes = [testCoordNode ''node1'' R_DrainRequired,
                    testCoordNode ''node2'' R_DrainRequired,
                    testCoordNode ''node3'' R_DrainRequired],
      poolConfigs = [testWorkers b],
      defaultPool = \<lparr>poolName = ''default'', poolSelector = [],
                      poolMaxUnavailable = Some (Absolute 1)\<rparr>\<rparr>"

definition testCapabilities :: Capabilities where
  "testCapabilities =
     \<lparr>drainNode = (\<lambda>_. (True, None)),
      uncordonNode = (\<lambda>_. (True, None)),
      beforeDrain = (\<lambda>_. (True, None)),
      completeDrain = (\<lambda>_. (True, None)),
      poolPaused = (\<lambda>_. False)\<rparr>"




definition uncapped :: "Fleet \<Rightarrow> CoordNode \<Rightarrow> bool" where
  "uncapped fleet n \<longleftrightarrow>
     (case poolConfigOf fleet n of
        Inr pc \<Rightarrow> poolMaxUnavailable pc = None
      | Inl _ \<Rightarrow> False)"

definition reached :: "Fleet \<Rightarrow> string \<Rightarrow> nat \<Rightarrow> bool" where
  "reached fleet name k \<longleftrightarrow>
     (case nodeNamed fleet name of
        None \<Rightarrow> False
      | Some n \<Rightarrow>
          requestsDrain (requestAnno n) \<and> uncapped fleet n
          \<and> (nodeState n = Some (Some G_DrainComplete) \<and> unschedulable n
             \<or> k \<le> 1 \<and> (nodeState n = Some (Some G_Draining)
                          \<or> nodeState n = Some (Some G_DrainMcpPaused)) \<and> unschedulable n
             \<or> k = 0 \<and> (nodeState n = Some None \<or> nodeState n = Some (Some G_Idle))))"

text \<open>
  Vocabulary for the statement about pools without a budget: a node that asks for a drain,
  whose pool has no budget and whose grant is \<^verbatim>\<open>Idle\<close> or not written yet; and a node
  whose grant is \<^verbatim>\<open>DrainComplete\<close> while it is cordoned.
\<close>

definition awaitsUncappedDrain :: "Fleet \<Rightarrow> string \<Rightarrow> bool" where
  "awaitsUncappedDrain fleet name \<longleftrightarrow>
     (case nodeNamed fleet name of
        None \<Rightarrow> False
      | Some n \<Rightarrow>
          requestsDrain (requestAnno n) \<and> uncapped fleet n
          \<and> (nodeState n = Some None \<or> nodeState n = Some (Some G_Idle)))"

definition admittedAndCordoned :: "Fleet \<Rightarrow> string \<Rightarrow> bool" where
  "admittedAndCordoned fleet name \<longleftrightarrow>
     (case nodeNamed fleet name of
        None \<Rightarrow> False
      | Some n \<Rightarrow>
          (nodeState n = Some (Some G_Draining) \<or> nodeState n = Some (Some G_DrainMcpPaused))
          \<and> unschedulable n)"

definition drainCompleteAndCordoned :: "Fleet \<Rightarrow> string \<Rightarrow> bool" where
  "drainCompleteAndCordoned fleet name \<longleftrightarrow>
     (case nodeNamed fleet name of
        None \<Rightarrow> False
      | Some n \<Rightarrow> nodeState n = Some (Some G_DrainComplete) \<and> unschedulable n)"




section \<open>Properties of the event filter\<close>

lemmas handshake_defs =
  NodeDrainAnnotation_def NodeStateDrainAnnotationCurrent_def DrainIdle_def
  DrainRequired_def RebootRequired_def Draining_def DrainMcpPaused_def DrainComplete_def

text \<open>
  C5. A create event with a non-nil object passes the filter exactly when the object
  carries the request annotation key, whatever the value stored under it.
\<close>

theorem Create_accepts_iff_has_request_key:
  assumes "Object e = Some obj"
  shows "DrainAnnotationPredicate_Create e
           \<longleftrightarrow> NodeDrainAnnotation \<in> dom (Annotations obj)"
  using assms
  by (auto simp: DrainAnnotationPredicate_Create_def go_lookup_def split: option.splits)

theorem Create_accepts_iff_has_request_key_witness:
  "Object \<lparr>Object = Some \<lparr>Name = ''node1'',
        Annotations = [NodeDrainAnnotation \<mapsto> ''anything''], Labels = Map.empty\<rparr>\<rparr>
     = Some \<lparr>Name = ''node1'',
        Annotations = [NodeDrainAnnotation \<mapsto> ''anything''], Labels = Map.empty\<rparr>
   \<and> DrainAnnotationPredicate_Create \<lparr>Object = Some \<lparr>Name = ''node1'',
        Annotations = [NodeDrainAnnotation \<mapsto> ''anything''], Labels = Map.empty\<rparr>\<rparr>"
  using Create_accepts_iff_has_request_key
    [of "\<lparr>Object = Some \<lparr>Name = ''node1'',
        Annotations = [NodeDrainAnnotation \<mapsto> ''anything''], Labels = Map.empty\<rparr>\<rparr>"
        "\<lparr>Name = ''node1'',
        Annotations = [NodeDrainAnnotation \<mapsto> ''anything''], Labels = Map.empty\<rparr>"]
  by simp

text \<open>
  C1, as stated, fails: the request annotation appears on a node that had none (its value
  changes from absent to \<^verbatim>\<open>Drain_Required\<close>), and the update filter rejects the event.
\<close>

theorem Update_rejects_added_annotation:
  "Annotations \<lparr>Name = ''node1'', Annotations = Map.empty, Labels = Map.empty\<rparr>
       NodeDrainAnnotation
     \<noteq> Annotations \<lparr>Name = ''node1'',
         Annotations = [NodeDrainAnnotation \<mapsto> DrainRequired], Labels = Map.empty\<rparr>
       NodeDrainAnnotation
   \<and> \<not> DrainAnnotationPredicate_Update
       \<lparr>ObjectOld = Some \<lparr>Name = ''node1'', Annotations = Map.empty, Labels = Map.empty\<rparr>,
        ObjectNew = Some \<lparr>Name = ''node1'',
          Annotations = [NodeDrainAnnotation \<mapsto> DrainRequired], Labels = Map.empty\<rparr>\<rparr>"
  by (simp add: DrainAnnotationPredicate_Update_def go_lookup_def)

text \<open>
  C1, amended. An update event with both objects non-nil passes the filter exactly when
  the request annotation is present on both sides with different values; in particular an
  update that leaves the request annotation as it was is rejected.
\<close>

theorem Update_accepts_iff_value_changed_on_both:
  assumes "ObjectOld e = Some objOld" and "ObjectNew e = Some objNew"
  shows "(DrainAnnotationPredicate_Update e
            \<longleftrightarrow> (\<exists>a b. Annotations objOld NodeDrainAnnotation = Some a
                      \<and> Annotations objNew NodeDrainAnnotation = Some b \<and> a \<noteq> b))
       \<and> (Annotations objOld NodeDrainAnnotation = Annotations objNew NodeDrainAnnotation
            \<longrightarrow> \<not> DrainAnnotationPredicate_Update e)"
  using assms
  by (auto simp: DrainAnnotationPredicate_Update_def go_lookup_def split: option.splits)

theorem Update_accepts_iff_value_changed_on_both_witness:
  "DrainAnnotationPredicate_Update
       \<lparr>ObjectOld = Some \<lparr>Name = ''node1'',
          Annotations = [NodeDrainAnnotation \<mapsto> DrainIdle], Labels = Map.empty\<rparr>,
        ObjectNew = Some \<lparr>Name = ''node1'',
          Annotations = [NodeDrainAnnotation \<mapsto> DrainRequired], Labels = Map.empty\<rparr>\<rparr>
   \<and> \<not> DrainAnnotationPredicate_Update
       \<lparr>ObjectOld = Some \<lparr>Name = ''node1'',
          Annotations = [NodeDrainAnnotation \<mapsto> DrainIdle], Labels = Map.empty\<rparr>,
        ObjectNew = Some \<lparr>Name = ''node1'',
          Annotations = [NodeDrainAnnotation \<mapsto> DrainIdle], Labels = [''zone'' \<mapsto> ''a'']\<rparr>\<rparr>"
  using Update_accepts_iff_value_changed_on_both
    [of "\<lparr>ObjectOld = Some \<lparr>Name = ''node1'',
          Annotations = [NodeDrainAnnotation \<mapsto> DrainIdle], Labels = Map.empty\<rparr>,
        ObjectNew = Some \<lparr>Name = ''node1'',
          Annotations = [NodeDrainAnnotation \<mapsto> DrainRequired], Labels = Map.empty\<rparr>\<rparr>"
        "\<lparr>Name = ''node1'',
          Annotations = [NodeDrainAnnotation \<mapsto> DrainIdle], Labels = Map.empty\<rparr>"
        "\<lparr>Name = ''node1'',
          Annotations = [NodeDrainAnnotation \<mapsto> DrainRequired], Labels = Map.empty\<rparr>"]
    Update_accepts_iff_value_changed_on_both
    [of "\<lparr>ObjectOld = Some \<lparr>Name = ''node1'',
          Annotations = [NodeDrainAnnotation \<mapsto> DrainIdle], Labels = Map.empty\<rparr>,
        ObjectNew = Some \<lparr>Name = ''node1'',
          Annotations = [NodeDrainAnnotation \<mapsto> DrainIdle], Labels = [''zone'' \<mapsto> ''a'']\<rparr>\<rparr>"
        "\<lparr>Name = ''node1'',
          Annotations = [NodeDrainAnnotation \<mapsto> DrainIdle], Labels = Map.empty\<rparr>"
        "\<lparr>Name = ''node1'',
          Annotations = [NodeDrainAnnotation \<mapsto> DrainIdle], Labels = [''zone'' \<mapsto> ''a'']\<rparr>"]
  by (simp add: DrainIdle_def DrainRequired_def)

section \<open>Properties of AnnotateNode\<close>

lemma CreateTwoWayMergePatch_annotation:
  "Annotations n k \<noteq> Some v \<Longrightarrow>
   CreateTwoWayMergePatch n (n\<lparr>Annotations := (Annotations n)(k \<mapsto> v)\<rparr>)
     = \<lparr>patchAnnotations = [k \<mapsto> Some v],
        patchLabels = Map.empty, patchUnschedulable = None, patchTaints = None,
        patchConditions = None\<rparr>"
  by (auto simp: CreateTwoWayMergePatch_def diffMap_def diffField_def fun_eq_iff)

lemma applyNodePatch_requestPatch:
  "applyNodePatch (requestPatch v) n
     = n\<lparr>Annotations := (Annotations n)(NodeDrainAnnotation \<mapsto> v)\<rparr>"
  by (auto simp: requestPatch_def applyNodePatch_def applyMap_def applyField_def fun_eq_iff)

lemma go_index_differs: "go_index m k \<noteq> v \<Longrightarrow> m k \<noteq> Some v"
  by (auto simp: go_index_def go_lookup_def)

lemma go_index_Some [simp]: "m k = Some v \<Longrightarrow> go_index m k = v"
  by (simp add: go_index_def go_lookup_def)

text \<open>The paths of \<open>AnnotateNode\<close>, one by one.\<close>

lemma AnnotateNode_paths:
  "AnnotateNode node v kc =
     (case getNodeFault kc node of
        Some msg \<Rightarrow> (Some (ServerError msg), kc)
      | None \<Rightarrow>
          (case nodes kc node of
             None \<Rightarrow> (Some (NotFound node), kc)
           | Some old \<Rightarrow>
               if go_index (Annotations old) NodeDrainAnnotation = v then (None, kc)
               else
                 (case patchNodeFault kc node of
                    Some msg \<Rightarrow>
                      (Some (ServerError msg),
                       kc\<lparr>nodePatches := nodePatches kc @ [(node, requestPatch v)]\<rparr>)
                  | None \<Rightarrow>
                      (None,
                       kc\<lparr>nodePatches := nodePatches kc @ [(node, requestPatch v)],
                          nodes := (nodes kc)(node \<mapsto>
                            old\<lparr>Annotations :=
                                  (Annotations old)(NodeDrainAnnotation \<mapsto> v)\<rparr>)\<rparr>))))"
  by (auto simp: AnnotateNode_def Nodes_Get_def Nodes_Patch_def Let_def
        CreateTwoWayMergePatch_annotation applyNodePatch_requestPatch
        applyNodePatch_requestPatch [unfolded requestPatch_def] requestPatch_def
      dest: go_index_differs split: option.splits)

text \<open>
  C3. When the stored node already carries the value under the request key,
  \<open>AnnotateNode\<close> leaves the store and the list of submitted patches as they are; and a
  second call with the same value leaves the store as the first call left it (after a
  first call that succeeded it submits no further patch either).
\<close>

theorem AnnotateNode_idempotent:
  "(\<forall>n. nodes kc node = Some n \<and> Annotations n NodeDrainAnnotation = Some v \<longrightarrow>
        nodePatches (snd (AnnotateNode node v kc)) = nodePatches kc
      \<and> nodes (snd (AnnotateNode node v kc)) = nodes kc)
   \<and> nodes (snd (AnnotateNode node v (snd (AnnotateNode node v kc))))
       = nodes (snd (AnnotateNode node v kc))
   \<and> (fst (AnnotateNode node v kc) = None \<longrightarrow>
        nodePatches (snd (AnnotateNode node v (snd (AnnotateNode node v kc))))
          = nodePatches (snd (AnnotateNode node v kc)))"
proof (intro conjI)
  show "\<forall>n. nodes kc node = Some n \<and> Annotations n NodeDrainAnnotation = Some v \<longrightarrow>
        nodePatches (snd (AnnotateNode node v kc)) = nodePatches kc
      \<and> nodes (snd (AnnotateNode node v kc)) = nodes kc"
    by (auto simp: AnnotateNode_paths split: option.splits)
  show "nodes (snd (AnnotateNode node v (snd (AnnotateNode node v kc))))
       = nodes (snd (AnnotateNode node v kc))"
    by (auto simp: AnnotateNode_paths split: option.splits)
  show "fst (AnnotateNode node v kc) = None \<longrightarrow>
        nodePatches (snd (AnnotateNode node v (snd (AnnotateNode node v kc))))
          = nodePatches (snd (AnnotateNode node v kc))"
    by (auto simp: AnnotateNode_paths split: option.splits)
qed

theorem AnnotateNode_idempotent_witness:
  "nodes testCluster ''node1'' = Some (testNode ''node1'')
   \<and> Annotations (testNode ''node1'') NodeDrainAnnotation = Some DrainIdle
   \<and> nodePatches (snd (AnnotateNode ''node1'' DrainIdle testCluster)) = []
   \<and> nodes (snd (AnnotateNode ''node1'' DrainIdle testCluster)) = nodes testCluster
   \<and> fst (AnnotateNode ''node1'' DrainRequired testCluster) = None
   \<and> nodePatches (snd (AnnotateNode ''node1'' DrainRequired
        (snd (AnnotateNode ''node1'' DrainRequired testCluster))))
      = [(''node1'', requestPatch DrainRequired)]"
proof -
  have a: "nodes testCluster ''node1'' = Some (testNode ''node1'')"
    by (simp add: testCluster_def)
  have b: "Annotations (testNode ''node1'') NodeDrainAnnotation = Some DrainIdle"
    by (simp add: testNode_def handshake_defs)
  have c: "AnnotateNode ''node1'' DrainRequired testCluster
     = (None, testCluster\<lparr>nodePatches := [(''node1'', requestPatch DrainRequired)],
          nodes := (nodes testCluster)(''node1'' \<mapsto> (testNode ''node1'')\<lparr>Annotations :=
             (Annotations (testNode ''node1''))(NodeDrainAnnotation \<mapsto> DrainRequired)\<rparr>)\<rparr>)"
    by (simp add: AnnotateNode_paths testCluster_def testNode_def handshake_defs
          go_index_def go_lookup_def)
  from AnnotateNode_idempotent [of testCluster "''node1''" DrainIdle] a b
  have d: "nodePatches (snd (AnnotateNode ''node1'' DrainIdle testCluster)) = nodePatches testCluster
      \<and> nodes (snd (AnnotateNode ''node1'' DrainIdle testCluster)) = nodes testCluster"
    by blast
  from AnnotateNode_idempotent [of testCluster "''node1''" DrainRequired] c
  have e: "nodePatches (snd (AnnotateNode ''node1'' DrainRequired
        (snd (AnnotateNode ''node1'' DrainRequired testCluster))))
      = nodePatches (snd (AnnotateNode ''node1'' DrainRequired testCluster))"
    by simp
  show ?thesis using a b c d e by (simp add: testCluster_def)
qed

text \<open>
  C10. Whatever the cluster, the node name and the value: \<open>AnnotateNode\<close> submits at most
  one patch, addressed to the named node, and that patch lists the request key alone, so
  applied to any node it rewrites that one annotation and nothing else; in the store,
  every other node is untouched and the named node keeps its name, its labels, its spec
  (with the unschedulable flag), its status and every annotation other than the request
  key.
\<close>

theorem AnnotateNode_frame:
  "(nodePatches (snd (AnnotateNode node v kc)) = nodePatches kc
      \<or> nodePatches (snd (AnnotateNode node v kc)) = nodePatches kc @ [(node, requestPatch v)])
   \<and> (\<forall>n. applyNodePatch (requestPatch v) n
            = n\<lparr>Annotations := (Annotations n)(NodeDrainAnnotation \<mapsto> v)\<rparr>)
   \<and> (\<forall>m. m \<noteq> node \<longrightarrow> nodes (snd (AnnotateNode node v kc)) m = nodes kc m)
   \<and> (nodes kc node = None \<longrightarrow> nodes (snd (AnnotateNode node v kc)) node = None)
   \<and> (\<forall>old. nodes kc node = Some old \<longrightarrow>
        (\<exists>new. nodes (snd (AnnotateNode node v kc)) node = Some new
           \<and> Name new = Name old \<and> Labels new = Labels old
           \<and> Spec new = Spec old \<and> Status new = Status old
           \<and> (\<forall>k. k \<noteq> NodeDrainAnnotation \<longrightarrow> Annotations new k = Annotations old k)))"
proof (intro conjI)
  show "nodePatches (snd (AnnotateNode node v kc)) = nodePatches kc
      \<or> nodePatches (snd (AnnotateNode node v kc)) = nodePatches kc @ [(node, requestPatch v)]"
    by (auto simp: AnnotateNode_paths split: option.splits)
  show "\<forall>n. applyNodePatch (requestPatch v) n
            = n\<lparr>Annotations := (Annotations n)(NodeDrainAnnotation \<mapsto> v)\<rparr>"
    by (simp add: applyNodePatch_requestPatch)
  show "\<forall>m. m \<noteq> node \<longrightarrow> nodes (snd (AnnotateNode node v kc)) m = nodes kc m"
    by (auto simp: AnnotateNode_paths split: option.splits)
  show "nodes kc node = None \<longrightarrow> nodes (snd (AnnotateNode node v kc)) node = None"
    by (auto simp: AnnotateNode_paths split: option.splits)
  show "\<forall>old. nodes kc node = Some old \<longrightarrow>
        (\<exists>new. nodes (snd (AnnotateNode node v kc)) node = Some new
           \<and> Name new = Name old \<and> Labels new = Labels old
           \<and> Spec new = Spec old \<and> Status new = Status old
           \<and> (\<forall>k. k \<noteq> NodeDrainAnnotation \<longrightarrow> Annotations new k = Annotations old k))"
    by (auto simp: AnnotateNode_paths split: option.splits)
qed

theorem AnnotateNode_frame_witness:
  "nodes testCluster ''node1'' = Some (testNode ''node1'')
   \<and> ''node2'' \<noteq> ''node1''
   \<and> nodes (snd (AnnotateNode ''node1'' DrainRequired testCluster)) ''node2''
       = Some (testNode ''node2'')
   \<and> (\<exists>new. nodes (snd (AnnotateNode ''node1'' DrainRequired testCluster)) ''node1'' = Some new
        \<and> Annotations new NodeDrainAnnotation = Some DrainRequired
        \<and> Labels new = Labels (testNode ''node1'')
        \<and> Spec new = \<lparr>Unschedulable = False, Taints = []\<rparr>
        \<and> Status new = Status (testNode ''node1'')
        \<and> Annotations new ''machineconfiguration.openshift.io/desiredConfig''
            = Some ''worker-1'')"
proof -
  have a: "nodes testCluster ''node1'' = Some (testNode ''node1'')"
    by (simp add: testCluster_def)
  have b: "nodes testCluster ''node2'' = Some (testNode ''node2'')"
    by (simp add: testCluster_def)
  have c: "''machineconfiguration.openshift.io/desiredConfig'' \<noteq> NodeDrainAnnotation"
    by (simp add: handshake_defs)
  have d: "\<exists>new. nodes (snd (AnnotateNode ''node1'' DrainRequired testCluster)) ''node1'' = Some new
        \<and> Annotations new NodeDrainAnnotation = Some DrainRequired"
    by (simp add: AnnotateNode_paths testCluster_def testNode_def handshake_defs
          go_index_def go_lookup_def)
  note f = AnnotateNode_frame [of "''node1''" DrainRequired testCluster]
  from f have "nodes (snd (AnnotateNode ''node1'' DrainRequired testCluster)) ''node2''
       = nodes testCluster ''node2''"
    by simp
  moreover from f a obtain new where
    "nodes (snd (AnnotateNode ''node1'' DrainRequired testCluster)) ''node1'' = Some new"
    "Labels new = Labels (testNode ''node1'')" "Spec new = Spec (testNode ''node1'')"
    "Status new = Status (testNode ''node1'')"
    "\<forall>k. k \<noteq> NodeDrainAnnotation \<longrightarrow> Annotations new k = Annotations (testNode ''node1'') k"
    by blast
  ultimately show ?thesis using a b c d
    by (auto simp: testNode_def)
qed

section \<open>Properties of the vendor plugins\<close>

lemma needRebootNode_error_no_reboot:
  "needRebootNode host p state = Some ((r, Some err), p') \<Longrightarrow> \<not> r"
  by (auto simp: needRebootNode_def Let_def split: option.splits prod.splits if_splits)

lemma GenericPlugin_reboot_drain:
  "GenericPlugin_OnNodeStateChange host p new = Some ((d, r, e), p') \<Longrightarrow> r \<Longrightarrow> d"
  by (auto simp: GenericPlugin_OnNodeStateChange_def Let_def
      dest: needRebootNode_error_no_reboot split: option.splits prod.splits if_splits)

text \<open>Whenever one of the two loops returns from inside, the triple is well formed.\<close>

lemma processNicsSpec_return:
  "processNicsSpec h spec status entries st = Inl ((d, r, e), chg) \<Longrightarrow> r \<Longrightarrow> d"
proof (induction h spec status entries st rule: processNicsSpec.induct)
  case (1 h spec status st)
  then show ?case by simp
next
  case (2 h spec status uu ifaceSpec rest st)
  then show ?case
    by (auto simp: Let_def split: if_splits prod.splits option.splits)
qed

lemma processNicsStatus_return:
  "processNicsStatus h entries st = Inl ((d, r, e), chg) \<Longrightarrow> r \<Longrightarrow> d"
proof (induction h entries st rule: processNicsStatus.induct)
  case (1 h st)
  then show ?case by simp
next
  case (2 h pciPrefix portsMap rest st)
  then show ?case
    by (auto simp: Let_def split: if_splits prod.splits option.splits)
qed

lemma MellanoxPlugin_reboot_drain:
  "MellanoxPlugin_OnNodeStateChange h g new = ((d, r, e), g') \<Longrightarrow> r \<Longrightarrow> d"
  by (auto simp: MellanoxPlugin_OnNodeStateChange_def Let_def
      dest: processNicsSpec_return processNicsStatus_return
      split: if_splits sum.splits prod.splits)

text \<open>
  C9. For the generic plugin and for the mellanox plugin, on every host, plugin state
  and node state: a result of \<open>OnNodeStateChange\<close> (with or without an error) that has
  \<open>needReboot\<close> set has \<open>needDrain\<close> set as well.
\<close>

theorem OnNodeStateChange_reboot_implies_drain:
  "(GenericPlugin_OnNodeStateChange host p new = Some ((drain, reboot, err), p')
      \<longrightarrow> reboot \<longrightarrow> drain)
   \<and> (MellanoxPlugin_OnNodeStateChange h g new' = ((drain', reboot', err'), g')
      \<longrightarrow> reboot' \<longrightarrow> drain')"
  using GenericPlugin_reboot_drain MellanoxPlugin_reboot_drain by blast

theorem OnNodeStateChange_reboot_implies_drain_witness:
  "\<not> needDrainNode testGenericHost (SpecInterfaces testNodeState)
        (StatusInterfaces (NodeStateStatus testNodeState))
   \<and> map_option fst
        (GenericPlugin_OnNodeStateChange testGenericHost testGenericPlugin testNodeState)
       = Some (True, True, None)
   \<and> fst (MellanoxPlugin_OnNodeStateChange testMlxHelpers testMlxGlobals testNodeState)
       = (True, True, None)"
proof -
  have nd: "\<not> needDrainNode testGenericHost (SpecInterfaces testNodeState)
        (StatusInterfaces (NodeStateStatus testNodeState))"
    by (simp add: testGenericHost_def testNodeState_def)
  obtain d r e p' where
    g: "GenericPlugin_OnNodeStateChange testGenericHost testGenericPlugin testNodeState
          = Some ((d, r, e), p')" and gr: "r" and ge: "e = None"
    by (simp add: GenericPlugin_OnNodeStateChange_def needRebootNode_def
        addVfioDesiredKernelArg_def testGenericHost_def testGenericPlugin_def testNodeState_def
        Vfio_def VirtioVdpa_def VhostVdpa_def callNeedDriver_def needDriverCheckDeviceType_def
        addToDesiredKernelArgs_def syncDesiredKernelArgs_def setKernelArg_def Let_def)
  obtain d' r' e' g' where
    m: "MellanoxPlugin_OnNodeStateChange testMlxHelpers testMlxGlobals testNodeState
          = ((d', r', e'), g')" and mr: "r'" and me: "e' = None"
    by (simp add: MellanoxPlugin_OnNodeStateChange_def testMlxHelpers_def testMlxGlobals_def
        testNodeState_def Let_def portDeviceID_def)
  from OnNodeStateChange_reboot_implies_drain
         [of testGenericHost testGenericPlugin testNodeState d r e p'
             testMlxHelpers testMlxGlobals testNodeState d' r' e' g'] g gr m mr
  have "d" and "d'" by blast+
  with nd g gr ge m mr me show ?thesis by simp
qed

section \<open>Properties of the config daemon\<close>

lemma AnnotateNode_patches:
  "AnnotateNode node v kc = (e, kc') \<Longrightarrow>
     nodePatches kc' = nodePatches kc
     \<or> nodePatches kc' = nodePatches kc @ [(node, requestPatch v)]"
  by (auto simp: AnnotateNode_paths split: option.splits if_splits)

lemma syncUnchanged_frame:
  "syncUnchanged host dn = (e, dn', tr) \<Longrightarrow> dn' = dn"
  by (auto simp: syncUnchanged_def Let_def split: if_splits prod.splits option.splits)

lemma syncFirstGeneration_frame:
  "syncFirstGeneration host dn = (e, dn', tr) \<Longrightarrow> dn' = dn"
  by (auto simp: syncFirstGeneration_def split: if_splits option.splits)

text \<open>The paths of \<open>syncPrepare\<close>, one by one.\<close>

lemma syncPrepare_paths:
  "\<And>u x. nodeStateGets (client dn) 1 = (u, Some x)
     \<Longrightarrow> syncPrepare host dn
       = Inl (Some (ApiErr x), dn,
           [Refresh \<lparr>syncStatus = syncStatusInProgress, lastSyncError = ''''\<rparr>])"
  "\<And>u dn2 x. nodeStateGets (client dn) 1 = (u, None) \<Longrightarrow>
     loadPlugins host (dn\<lparr>desiredNodeState :=
        (desiredNodeState dn)\<lparr>NodeStateStatus := NodeStateStatus u\<rparr>\<rparr>) = (dn2, Some x)
     \<Longrightarrow> syncPrepare host dn
       = Inl (Some (HostErr x), dn2,
           [Refresh \<lparr>syncStatus = syncStatusInProgress, lastSyncError = ''''\<rparr>])"
  "\<And>u dn2 x tr1. nodeStateGets (client dn) 1 = (u, None) \<Longrightarrow>
     loadPlugins host (dn\<lparr>desiredNodeState :=
        (desiredNodeState dn)\<lparr>NodeStateStatus := NodeStateStatus u\<rparr>\<rparr>) = (dn2, None) \<Longrightarrow>
     askPlugins (rangePlugins host 0 (enabledPlugins dn2)) (desiredNodeState dn2) False False
       [Refresh \<lparr>syncStatus = syncStatusInProgress, lastSyncError = ''''\<rparr>] = Inl (x, tr1)
     \<Longrightarrow> syncPrepare host dn = Inl (Some (HostErr x), dn2, tr1)"
  "\<And>u dn2 x tr1 d0 r0 tr4. nodeStateGets (client dn) 1 = (u, None) \<Longrightarrow>
     loadPlugins host (dn\<lparr>desiredNodeState :=
        (desiredNodeState dn)\<lparr>NodeStateStatus := NodeStateStatus u\<rparr>\<rparr>) = (dn2, None) \<Longrightarrow>
     askPlugins (rangePlugins host 0 (enabledPlugins dn2)) (desiredNodeState dn2) False False
       [Refresh \<lparr>syncStatus = syncStatusInProgress, lastSyncError = ''''\<rparr>]
       = Inr (d0, r0, tr1) \<Longrightarrow>
     syncSystemd host dn2 d0 r0 tr1 = Inl (x, tr4)
     \<Longrightarrow> syncPrepare host dn = Inl (Some (HostErr x), dn2, tr4)"
  "\<And>u dn2 x tr1 d0 r0 d r tr4 tr5. nodeStateGets (client dn) 1 = (u, None) \<Longrightarrow>
     loadPlugins host (dn\<lparr>desiredNodeState :=
        (desiredNodeState dn)\<lparr>NodeStateStatus := NodeStateStatus u\<rparr>\<rparr>) = (dn2, None) \<Longrightarrow>
     askPlugins (rangePlugins host 0 (enabledPlugins dn2)) (desiredNodeState dn2) False False
       [Refresh \<lparr>syncStatus = syncStatusInProgress, lastSyncError = ''''\<rparr>]
       = Inr (d0, r0, tr1) \<Longrightarrow>
     syncSystemd host dn2 d0 r0 tr1 = Inr (d, r, tr4) \<Longrightarrow>
     applyVendorPlugins (rangePlugins host 1 (enabledPlugins dn2)) tr4 = Inl (x, tr5)
     \<Longrightarrow> syncPrepare host dn = Inl (Some (HostErr x), dn2, tr5)"
  "\<And>u dn2 tr1 d0 r0 d r tr4 tr5. nodeStateGets (client dn) 1 = (u, None) \<Longrightarrow>
     loadPlugins host (dn\<lparr>desiredNodeState :=
        (desiredNodeState dn)\<lparr>NodeStateStatus := NodeStateStatus u\<rparr>\<rparr>) = (dn2, None) \<Longrightarrow>
     askPlugins (rangePlugins host 0 (enabledPlugins dn2)) (desiredNodeState dn2) False False
       [Refresh \<lparr>syncStatus = syncStatusInProgress, lastSyncError = ''''\<rparr>]
       = Inr (d0, r0, tr1) \<Longrightarrow>
     syncSystemd host dn2 d0 r0 tr1 = Inr (d, r, tr4) \<Longrightarrow>
     applyVendorPlugins (rangePlugins host 1 (enabledPlugins dn2)) tr4 = Inr tr5
     \<Longrightarrow> syncPrepare host dn = Inr (d, r, dn2, tr5)"
  by (simp_all add: syncPrepare_def)

lemma syncPrepare_cases [consumes 0, case_names getErr loadErr askErr systemdErr applyErr gate]:
  obtains
    (getErr) x where
      "syncPrepare host dn
         = Inl (Some (ApiErr x), dn,
             [Refresh \<lparr>syncStatus = syncStatusInProgress, lastSyncError = ''''\<rparr>])"
  | (loadErr) u dn2 x where
      "loadPlugins host (dn\<lparr>desiredNodeState :=
          (desiredNodeState dn)\<lparr>NodeStateStatus := NodeStateStatus (u :: SriovNetworkNodeState)\<rparr>\<rparr>) = (dn2, Some x)"
      "syncPrepare host dn
         = Inl (Some (HostErr x), dn2,
             [Refresh \<lparr>syncStatus = syncStatusInProgress, lastSyncError = ''''\<rparr>])"
  | (askErr) u dn2 x tr1 where
      "loadPlugins host (dn\<lparr>desiredNodeState :=
          (desiredNodeState dn)\<lparr>NodeStateStatus := NodeStateStatus (u :: SriovNetworkNodeState)\<rparr>\<rparr>) = (dn2, None)"
      "askPlugins (rangePlugins host 0 (enabledPlugins dn2)) (desiredNodeState dn2) False False
         [Refresh \<lparr>syncStatus = syncStatusInProgress, lastSyncError = ''''\<rparr>] = Inl (x, tr1)"
      "syncPrepare host dn = Inl (Some (HostErr x), dn2, tr1)"
  | (systemdErr) u dn2 x tr1 d0 r0 tr4 where
      "loadPlugins host (dn\<lparr>desiredNodeState :=
          (desiredNodeState dn)\<lparr>NodeStateStatus := NodeStateStatus (u :: SriovNetworkNodeState)\<rparr>\<rparr>) = (dn2, None)"
      "askPlugins (rangePlugins host 0 (enabledPlugins dn2)) (desiredNodeState dn2) False False
         [Refresh \<lparr>syncStatus = syncStatusInProgress, lastSyncError = ''''\<rparr>]
         = Inr (d0, r0, tr1)"
      "syncSystemd host dn2 d0 r0 tr1 = Inl (x, tr4)"
      "syncPrepare host dn = Inl (Some (HostErr x), dn2, tr4)"
  | (applyErr) u dn2 x tr1 d0 r0 d r tr4 tr5 where
      "loadPlugins host (dn\<lparr>desiredNodeState :=
          (desiredNodeState dn)\<lparr>NodeStateStatus := NodeStateStatus (u :: SriovNetworkNodeState)\<rparr>\<rparr>) = (dn2, None)"
      "askPlugins (rangePlugins host 0 (enabledPlugins dn2)) (desiredNodeState dn2) False False
         [Refresh \<lparr>syncStatus = syncStatusInProgress, lastSyncError = ''''\<rparr>]
         = Inr (d0, r0, tr1)"
      "syncSystemd host dn2 d0 r0 tr1 = Inr (d, r, tr4)"
      "applyVendorPlugins (rangePlugins host 1 (enabledPlugins dn2)) tr4 = Inl (x, tr5)"
      "syncPrepare host dn = Inl (Some (HostErr x), dn2, tr5)"
  | (gate) u dn2 tr1 d0 r0 d r tr4 tr5 where
      "loadPlugins host (dn\<lparr>desiredNodeState :=
          (desiredNodeState dn)\<lparr>NodeStateStatus := NodeStateStatus (u :: SriovNetworkNodeState)\<rparr>\<rparr>) = (dn2, None)"
      "askPlugins (rangePlugins host 0 (enabledPlugins dn2)) (desiredNodeState dn2) False False
         [Refresh \<lparr>syncStatus = syncStatusInProgress, lastSyncError = ''''\<rparr>]
         = Inr (d0, r0, tr1)"
      "syncSystemd host dn2 d0 r0 tr1 = Inr (d, r, tr4)"
      "applyVendorPlugins (rangePlugins host 1 (enabledPlugins dn2)) tr4 = Inr tr5"
      "syncPrepare host dn = Inr (d, r, dn2, tr5)"
proof -
  let ?tr0 = "[Refresh \<lparr>syncStatus = syncStatusInProgress, lastSyncError = ''''\<rparr>]"
  obtain u ge where g: "nodeStateGets (client dn) 1 = (u, ge)"
    by (cases "nodeStateGets (client dn) 1")
  let ?dn1 = "dn\<lparr>desiredNodeState :=
          (desiredNodeState dn)\<lparr>NodeStateStatus := NodeStateStatus u\<rparr>\<rparr>"
  obtain dn2 le where l: "loadPlugins host ?dn1 = (dn2, le)"
    by (cases "loadPlugins host ?dn1")
  show thesis
  proof (cases ge)
    case (Some x)
    show thesis by (rule getErr [OF syncPrepare_paths(1) [OF g [unfolded Some]]])
  next
    case None
    note g' = g [unfolded None]
    show thesis
    proof (cases le)
      case (Some x)
      note l' = l [unfolded Some]
      show thesis by (rule loadErr [OF l' syncPrepare_paths(2) [OF g' l']])
    next
      case lnone: None
      note l' = l [unfolded lnone]
      show thesis
      proof (cases "askPlugins (rangePlugins host 0 (enabledPlugins dn2))
                      (desiredNodeState dn2) False False ?tr0")
        case (Inl a)
        then obtain x tr1 where
          a: "askPlugins (rangePlugins host 0 (enabledPlugins dn2))
                (desiredNodeState dn2) False False ?tr0 = Inl (x, tr1)"
          by (cases a) auto
        show thesis by (rule askErr [OF l' a syncPrepare_paths(3) [OF g' l' a]])
      next
        case (Inr b)
        then obtain d0 r0 tr1 where
          a: "askPlugins (rangePlugins host 0 (enabledPlugins dn2))
                (desiredNodeState dn2) False False ?tr0 = Inr (d0, r0, tr1)"
          by (cases b) auto
        show thesis
        proof (cases "syncSystemd host dn2 d0 r0 tr1")
          case (Inl c)
          then obtain x tr4 where s: "syncSystemd host dn2 d0 r0 tr1 = Inl (x, tr4)"
            by (cases c) auto
          show thesis by (rule systemdErr [OF l' a s syncPrepare_paths(4) [OF g' l' a s]])
        next
          case (Inr c)
          then obtain d r tr4 where s: "syncSystemd host dn2 d0 r0 tr1 = Inr (d, r, tr4)"
            by (cases c) auto
          show thesis
          proof (cases "applyVendorPlugins (rangePlugins host 1 (enabledPlugins dn2)) tr4")
            case (Inl e)
            then obtain x tr5 where
              v: "applyVendorPlugins (rangePlugins host 1 (enabledPlugins dn2)) tr4
                    = Inl (x, tr5)"
              by (cases e) auto
            show thesis by (rule applyErr [OF l' a s v syncPrepare_paths(5) [OF g' l' a s v]])
          next
            case (Inr tr5)
            show thesis by (rule gate [OF l' a s Inr syncPrepare_paths(6) [OF g' l' a s Inr]])
          qed
        qed
      qed
    qed
  qed
qed

lemma loadPlugins_frame:
  "loadPlugins host dn = (dn2, e) \<Longrightarrow>
     kubeClient dn2 = kubeClient dn \<and> client dn2 = client dn \<and> dnName dn2 = dnName dn
     \<and> currentNodeState dn2 = currentNodeState dn \<and> disableDrain dn2 = disableDrain dn
     \<and> desiredNodeState dn2 = desiredNodeState dn"
  by (auto simp: loadPlugins_def split: if_splits prod.splits)

lemma syncPrepare_frame:
  assumes "syncPrepare host dn = Inl (e, dn', tr) \<or> syncPrepare host dn = Inr (d, r, dn', tr)"
  shows "kubeClient dn' = kubeClient dn \<and> client dn' = client dn \<and> dnName dn' = dnName dn
     \<and> currentNodeState dn' = currentNodeState dn \<and> disableDrain dn' = disableDrain dn
     \<and> Annotations (desiredNodeState dn') = Annotations (desiredNodeState dn)"
proof (cases rule: syncPrepare_cases [of host dn])
  case (getErr x)
  with assms have "dn' = dn" by simp
  then show ?thesis by simp
next
  case (loadErr u dn2 x)
  with assms have "dn' = dn2" by simp
  with loadPlugins_frame [OF loadErr(1)] show ?thesis by simp
next
  case (askErr u dn2 x tr1)
  from assms askErr(3) have "dn' = dn2" by simp
  with loadPlugins_frame [OF askErr(1)] show ?thesis by simp
next
  case (systemdErr u dn2 x tr1 d0 r0 tr4)
  from assms systemdErr(4) have "dn' = dn2" by simp
  with loadPlugins_frame [OF systemdErr(1)] show ?thesis by simp
next
  case (applyErr u dn2 x tr1 d0 r0 d r tr4 tr5)
  from assms applyErr(5) have "dn' = dn2" by simp
  with loadPlugins_frame [OF applyErr(1)] show ?thesis by simp
next
  case (gate u dn2 tr1 d0 r0 d r tr4 tr5)
  from assms gate(5) have "dn' = dn2" by simp
  with loadPlugins_frame [OF gate(1)] show ?thesis by simp
qed

lemma applyDrainRequired_frame:
  "applyDrainRequired dn = (e, dn') \<Longrightarrow> oneRequestPatch dn dn' DrainRequired"
  by (auto simp: applyDrainRequired_def oneRequestPatch_def split: prod.splits option.splits
      dest: AnnotateNode_patches)

lemma drainGate_frame:
  "drainGate dn reqDrain = (Proceed, dn') \<Longrightarrow> dn' = dn"
  "drainGate dn reqDrain = (Return e, dn') \<Longrightarrow> oneRequestPatch dn dn' DrainRequired"
  by (auto simp: drainGate_def split: if_splits prod.splits option.splits
      dest: applyDrainRequired_frame simp: oneRequestPatch_def)

lemma syncFinish_frame:
  "syncFinish host dn reqReboot tr = (e, dn', tr') \<Longrightarrow> oneRequestPatch dn dn' DrainIdle"
  by (auto simp: syncFinish_def oneRequestPatch_def Let_def
      split: if_splits prod.splits option.splits sum.splits dest: AnnotateNode_patches)

lemma nodeStateSyncHandler_unfold:
  assumes "nodeStateGets (client dn) 0 = (fetched, None)"
  shows "nodeStateSyncHandler host dn =
     (if Generation (currentNodeState dn) = Generation fetched
         \<and> \<not> ObjectHasAnnotation fetched NodeStateDrainAnnotationCurrent DrainComplete
      then syncUnchanged host (dn\<lparr>desiredNodeState := fetched\<rparr>)
      else if Generation fetched = 1 \<and> SpecInterfaces fetched = []
      then syncFirstGeneration host (dn\<lparr>desiredNodeState := fetched\<rparr>)
      else
        (case syncPrepare host (dn\<lparr>desiredNodeState := fetched\<rparr>) of
           Inl res \<Rightarrow> res
         | Inr (reqDrain, reqReboot, dn1, tr) \<Rightarrow>
             (case drainGate dn1 reqDrain of
                (Return err, dn2) \<Rightarrow> (err, dn2, tr)
              | (Proceed, dn2) \<Rightarrow> syncFinish host dn2 reqReboot tr)))"
  using assms by (simp add: nodeStateSyncHandler_def Let_def)

text \<open>The ways through a sync, as a case rule.\<close>

lemma nodeStateSyncHandler_cases
  [consumes 1, case_names getErr unchanged firstGeneration early stopped finished]:
  assumes "nodeStateSyncHandler host dn = (e, dn', tr)"
  obtains
    (getErr) fetched x where
      "nodeStateGets (client dn) 0 = (fetched, Some x)"
      "e = Some (ApiErr x)" "dn' = dn\<lparr>desiredNodeState := fetched\<rparr>" "tr = []"
  | (unchanged) fetched where
      "nodeStateGets (client dn) 0 = (fetched, None)"
      "syncUnchanged host (dn\<lparr>desiredNodeState := fetched\<rparr>) = (e, dn', tr)"
  | (firstGeneration) fetched where
      "nodeStateGets (client dn) 0 = (fetched, None)"
      "syncFirstGeneration host (dn\<lparr>desiredNodeState := fetched\<rparr>) = (e, dn', tr)"
  | (early) fetched where
      "nodeStateGets (client dn) 0 = (fetched, None)"
      "syncPrepare host (dn\<lparr>desiredNodeState := fetched\<rparr>) = Inl (e, dn', tr)"
  | (stopped) fetched d r dn1 where
      "nodeStateGets (client dn) 0 = (fetched, None)"
      "syncPrepare host (dn\<lparr>desiredNodeState := fetched\<rparr>) = Inr (d, r, dn1, tr)"
      "drainGate dn1 d = (Return e, dn')"
  | (finished) fetched d r dn1 tr1 where
      "nodeStateGets (client dn) 0 = (fetched, None)"
      "syncPrepare host (dn\<lparr>desiredNodeState := fetched\<rparr>) = Inr (d, r, dn1, tr1)"
      "drainGate dn1 d = (Proceed, dn1)"
      "syncFinish host dn1 r tr1 = (e, dn', tr)"
proof -
  obtain fetched ge where g: "nodeStateGets (client dn) 0 = (fetched, ge)"
    by (cases "nodeStateGets (client dn) 0")
  let ?dn0 = "dn\<lparr>desiredNodeState := fetched\<rparr>"
  show thesis
  proof (cases ge)
    case (Some x)
    with g assms have "e = Some (ApiErr x)" "dn' = ?dn0" "tr = []"
      by (simp_all add: nodeStateSyncHandler_def)
    with g Some show thesis by (intro getErr) simp_all
  next
    case None
    note g' = g [unfolded None]
    define A where "A \<longleftrightarrow> Generation (currentNodeState dn) = Generation fetched
         \<and> \<not> ObjectHasAnnotation fetched NodeStateDrainAnnotationCurrent DrainComplete"
    define B where "B \<longleftrightarrow> Generation fetched = 1 \<and> SpecInterfaces fetched = []"
    have unf: "nodeStateSyncHandler host dn =
       (if A then syncUnchanged host ?dn0
        else if B then syncFirstGeneration host ?dn0
        else
          (case syncPrepare host ?dn0 of
             Inl res \<Rightarrow> res
           | Inr (reqDrain, reqReboot, dn1, tr) \<Rightarrow>
               (case drainGate dn1 reqDrain of
                  (Return err, dn2) \<Rightarrow> (err, dn2, tr)
                | (Proceed, dn2) \<Rightarrow> syncFinish host dn2 reqReboot tr)))"
      unfolding A_def B_def by (rule nodeStateSyncHandler_unfold [OF g'])
    show thesis
    proof (cases A)
      case True
      with assms unf have "syncUnchanged host ?dn0 = (e, dn', tr)" by simp
      with g' show thesis by (rule unchanged)
    next
      case nu: False
      show thesis
      proof (cases B)
        case True
        with nu assms unf have "syncFirstGeneration host ?dn0 = (e, dn', tr)" by simp
        with g' show thesis by (rule firstGeneration)
      next
        case nf: False
        from nu nf unf have unf':
          "nodeStateSyncHandler host dn =
             (case syncPrepare host ?dn0 of
                Inl res \<Rightarrow> res
              | Inr (reqDrain, reqReboot, dn1, tr) \<Rightarrow>
                  (case drainGate dn1 reqDrain of
                     (Return err, dn2) \<Rightarrow> (err, dn2, tr)
                   | (Proceed, dn2) \<Rightarrow> syncFinish host dn2 reqReboot tr))"
          by simp
        show thesis
        proof (cases "syncPrepare host ?dn0")
          case (Inl res)
          with assms unf' have "syncPrepare host ?dn0 = Inl (e, dn', tr)" by simp
          with g' show thesis by (rule early)
        next
          case (Inr y)
          then obtain d r dn1 tr1 where y: "syncPrepare host ?dn0 = Inr (d, r, dn1, tr1)"
            by (cases y) auto
          obtain gt dn2 where gt: "drainGate dn1 d = (gt, dn2)"
            by (cases "drainGate dn1 d")
          show thesis
          proof (cases gt)
            case Proceed
            with gt have "dn2 = dn1" by (auto dest: drainGate_frame(1))
            with gt Proceed have p: "drainGate dn1 d = (Proceed, dn1)" by simp
            with assms unf' y have "syncFinish host dn1 r tr1 = (e, dn', tr)" by simp
            with g' y p show thesis by (rule finished)
          next
            case (Return x)
            with assms unf' y gt have "x = e" "dn2 = dn'" "tr1 = tr" by simp_all
            with g' y gt Return show thesis by (intro stopped) simp_all
          qed
        qed
      qed
    qed
  qed
qed

lemma nodeStateSyncHandler_frame:
  assumes "nodeStateSyncHandler host dn = (e, dn', tr)"
  shows "oneRequestPatch dn dn' DrainRequired \<or> oneRequestPatch dn dn' DrainIdle"
  using assms
proof (cases rule: nodeStateSyncHandler_cases)
  case (getErr fetched x)
  then show ?thesis by (simp add: oneRequestPatch_def)
next
  case (unchanged fetched)
  from syncUnchanged_frame [OF unchanged(2)] show ?thesis
    by (simp add: oneRequestPatch_def)
next
  case (firstGeneration fetched)
  from syncFirstGeneration_frame [OF firstGeneration(2)] show ?thesis
    by (simp add: oneRequestPatch_def)
next
  case (early fetched)
  from syncPrepare_frame [OF disjI1 [OF early(2)]] show ?thesis
    by (simp add: oneRequestPatch_def)
next
  case (stopped fetched d r dn1)
  from syncPrepare_frame [OF disjI2 [OF stopped(2)]] drainGate_frame(2) [OF stopped(3)]
  show ?thesis by (simp add: oneRequestPatch_def)
next
  case (finished fetched d r dn1 tr1)
  from syncPrepare_frame [OF disjI2 [OF finished(2)]] syncFinish_frame [OF finished(4)]
  show ?thesis by (simp add: oneRequestPatch_def)
qed

text \<open>
  C4. On every path of a sync, and of \<open>applyDrainRequired\<close>, the daemon sends no write
  request to the node state API, and to the node API at most one patch: a patch of its
  own node that lists the request annotation alone, with the value \<^verbatim>\<open>Drain_Required\<close>
  or \<^verbatim>\<open>Idle\<close>.
\<close>

theorem daemon_writes_only_request_annotation:
  "(nodeStateSyncHandler host dn = (err, dn', tr) \<longrightarrow>
      nodeStateWrites (client dn') = nodeStateWrites (client dn)
    \<and> (nodePatches (kubeClient dn') = nodePatches (kubeClient dn)
       \<or> nodePatches (kubeClient dn')
           = nodePatches (kubeClient dn) @ [(dnName dn, requestPatch DrainRequired)]
       \<or> nodePatches (kubeClient dn')
           = nodePatches (kubeClient dn) @ [(dnName dn, requestPatch DrainIdle)]))
   \<and> (applyDrainRequired dn = (err2, dn2) \<longrightarrow>
      nodeStateWrites (client dn2) = nodeStateWrites (client dn)
    \<and> (nodePatches (kubeClient dn2) = nodePatches (kubeClient dn)
       \<or> nodePatches (kubeClient dn2)
           = nodePatches (kubeClient dn) @ [(dnName dn, requestPatch DrainRequired)]))
   \<and> patchAnnotations (requestPatch v) = [NodeDrainAnnotation \<mapsto> Some v]
   \<and> patchLabels (requestPatch v) = Map.empty
   \<and> patchUnschedulable (requestPatch v) = None
   \<and> patchTaints (requestPatch v) = None
   \<and> patchConditions (requestPatch v) = None"
proof (intro conjI impI)
  assume h: "nodeStateSyncHandler host dn = (err, dn', tr)"
  from nodeStateSyncHandler_frame [OF h]
  show "nodeStateWrites (client dn') = nodeStateWrites (client dn)"
    by (auto simp: oneRequestPatch_def)
  from nodeStateSyncHandler_frame [OF h]
  show "nodePatches (kubeClient dn') = nodePatches (kubeClient dn)
       \<or> nodePatches (kubeClient dn')
           = nodePatches (kubeClient dn) @ [(dnName dn, requestPatch DrainRequired)]
       \<or> nodePatches (kubeClient dn')
           = nodePatches (kubeClient dn) @ [(dnName dn, requestPatch DrainIdle)]"
    by (auto simp: oneRequestPatch_def)
next
  assume h: "applyDrainRequired dn = (err2, dn2)"
  from applyDrainRequired_frame [OF h]
  show "nodeStateWrites (client dn2) = nodeStateWrites (client dn)"
    by (auto simp: oneRequestPatch_def)
  from applyDrainRequired_frame [OF h]
  show "nodePatches (kubeClient dn2) = nodePatches (kubeClient dn)
       \<or> nodePatches (kubeClient dn2)
           = nodePatches (kubeClient dn) @ [(dnName dn, requestPatch DrainRequired)]"
    by (auto simp: oneRequestPatch_def)
qed (simp_all add: requestPatch_def)

lemmas daemon_test_defs =
  testDaemon_def testDaemonHost_def testPlugin_def testNodeState_def emptyNodeState_def
  testCluster_def testNode_def

lemmas daemon_defs =
  nodeStateSyncHandler_def syncPrepare_def loadPlugins_def syncSystemd_def drainGate_def
  applyDrainRequired_def syncFinish_def applyLast_def syncUnchanged_def syncFirstGeneration_def
  isNodeDraining_def ObjectHasAnnotation_def ObjectHasAnnotationKey_def
  go_lookup_def go_index_def GenericPluginName_def VirtualPluginName_def
  syncStatusSucceeded_def syncStatusFailed_def syncStatusInProgress_def

theorem daemon_writes_only_request_annotation_witness:
  "fst (nodeStateSyncHandler testDaemonHost (testDaemon False DrainIdle)) = None
   \<and> nodeStateWrites (client (fst (snd
        (nodeStateSyncHandler testDaemonHost (testDaemon False DrainIdle))))) = []
   \<and> nodePatches (kubeClient (fst (snd
        (nodeStateSyncHandler testDaemonHost (testDaemon False DrainIdle)))))
       = [(''node1'', requestPatch DrainRequired)]
   \<and> patchAnnotations (requestPatch DrainRequired)
       = [NodeDrainAnnotation \<mapsto> Some DrainRequired]"
proof -
  obtain e dn' tr where
    h: "nodeStateSyncHandler testDaemonHost (testDaemon False DrainIdle) = (e, dn', tr)"
    by (cases "nodeStateSyncHandler testDaemonHost (testDaemon False DrainIdle)")
  have ev: "fst (nodeStateSyncHandler testDaemonHost (testDaemon False DrainIdle)) = None
    \<and> nodePatches (kubeClient (fst (snd
        (nodeStateSyncHandler testDaemonHost (testDaemon False DrainIdle)))))
       = [(''node1'', requestPatch DrainRequired)]"
    by (simp add: daemon_defs daemon_test_defs AnnotateNode_paths handshake_defs Let_def)
  have w0: "nodeStateWrites (client (testDaemon False DrainIdle)) = []"
    by (simp add: testDaemon_def)
  from daemon_writes_only_request_annotation
         [where host = testDaemonHost and dn = "testDaemon False DrainIdle" and err = e
            and dn' = dn' and tr = tr and v = DrainRequired] h
  have "nodeStateWrites (client dn') = nodeStateWrites (client (testDaemon False DrainIdle))"
    and "patchAnnotations (requestPatch DrainRequired)
           = [NodeDrainAnnotation \<mapsto> Some DrainRequired]"
    by blast+
  with h ev w0 show ?thesis by simp
qed

section \<open>The drain gate of the daemon\<close>

lemma askPlugins_quiet:
  "askPlugins ps state d r tr = Inl (err, tr') \<Longrightarrow>
     \<forall>a \<in> set tr. \<not> behindGate a \<Longrightarrow> \<forall>a \<in> set tr'. \<not> behindGate a"
  "askPlugins ps state d r tr = Inr (d', r', tr') \<Longrightarrow>
     \<forall>a \<in> set tr. \<not> behindGate a \<Longrightarrow> \<forall>a \<in> set tr'. \<not> behindGate a"
proof (induction ps state d r tr rule: askPlugins.induct)
  case (1 state reqDrain reqReboot tr)
  { case 1 then show ?case by simp
  next
    case 2 then show ?case by simp }
next
  case (2 k p rest state reqDrain reqReboot tr)
  have q: "\<forall>a \<in> set tr. \<not> behindGate a
             \<Longrightarrow> \<forall>a \<in> set (tr @ [CallOnNodeStateChange k]). \<not> behindGate a"
    by auto
  { case 1
    with 2 q show ?case
      by (auto split: prod.splits option.splits)
  next
    case 2
    with "2.IH" q show ?case
      by (auto split: prod.splits option.splits) }
qed

lemma applyVendorPlugins_quiet:
  "applyVendorPlugins ps tr = Inl (err, tr') \<Longrightarrow>
     \<forall>a \<in> set tr. \<not> behindGate a \<Longrightarrow> \<forall>a \<in> set tr'. \<not> behindGate a"
  "applyVendorPlugins ps tr = Inr tr' \<Longrightarrow>
     \<forall>a \<in> set tr. \<not> behindGate a \<Longrightarrow> \<forall>a \<in> set tr'. \<not> behindGate a"
proof (induction ps tr rule: applyVendorPlugins.induct)
  case (1 tr)
  { case 1 then show ?case by simp
  next
    case 2 then show ?case by simp }
next
  case (2 k p rest tr)
  have q: "k \<noteq> GenericPluginName \<Longrightarrow> k \<noteq> VirtualPluginName \<Longrightarrow>
           \<forall>a \<in> set tr. \<not> behindGate a
             \<Longrightarrow> \<forall>a \<in> set (tr @ [CallApply k]). \<not> behindGate a"
    by auto
  { case 1
    with 2 q show ?case
      by (auto split: if_splits option.splits)
  next
    case 2
    with "2.IH" q show ?case
      by (auto split: if_splits option.splits) }
qed

lemma syncSystemd_quiet_case:
  assumes "\<forall>a \<in> set tr. \<not> behindGate a"
  shows "case syncSystemd host dn d r tr of
           Inl (err, tr') \<Rightarrow> \<forall>a \<in> set tr'. \<not> behindGate a
         | Inr (d', r', tr') \<Rightarrow> \<forall>a \<in> set tr'. \<not> behindGate a"
  using assms by (simp add: syncSystemd_def split: prod.split option.split)

lemma syncSystemd_quiet:
  "syncSystemd host dn d r tr = Inl (err, tr') \<Longrightarrow>
     \<forall>a \<in> set tr. \<not> behindGate a \<Longrightarrow> \<forall>a \<in> set tr'. \<not> behindGate a"
  "syncSystemd host dn d r tr = Inr (d', r', tr') \<Longrightarrow>
     \<forall>a \<in> set tr. \<not> behindGate a \<Longrightarrow> \<forall>a \<in> set tr'. \<not> behindGate a"
  using syncSystemd_quiet_case [of tr host dn d r] by simp_all

lemma syncPrepare_quiet:
  assumes "syncPrepare host dn = Inl (e, dn', tr) \<or> syncPrepare host dn = Inr (d, r, dn', tr)"
  shows "\<forall>a \<in> set tr. \<not> behindGate a"
proof -
  let ?tr0 = "[Refresh \<lparr>syncStatus = syncStatusInProgress, lastSyncError = ''''\<rparr>]"
  have q0: "\<forall>a \<in> set ?tr0. \<not> behindGate a"
    by simp
  show ?thesis
  proof (cases rule: syncPrepare_cases [of host dn])
    case (getErr x)
    with assms have "tr = ?tr0" by simp
    with q0 show ?thesis by simp
  next
    case (loadErr u dn2 x)
    from assms loadErr(2) have "tr = ?tr0" by simp
    with q0 show ?thesis by simp
  next
    case (askErr u dn2 x tr1)
    from assms askErr(3) have "tr = tr1" by simp
    with askPlugins_quiet(1) [OF askErr(2) q0] show ?thesis by simp
  next
    case (systemdErr u dn2 x tr1 d0 r0 tr4)
    from assms systemdErr(4) have "tr = tr4" by simp
    with syncSystemd_quiet(1) [OF systemdErr(3) askPlugins_quiet(2) [OF systemdErr(2) q0]]
    show ?thesis by simp
  next
    case (applyErr u dn2 x tr1 d0 r0 d r tr4 tr5)
    from assms applyErr(5) have "tr = tr5" by simp
    with applyVendorPlugins_quiet(1) [OF applyErr(4)
           syncSystemd_quiet(2) [OF applyErr(3) askPlugins_quiet(2) [OF applyErr(2) q0]]]
    show ?thesis by simp
  next
    case (gate u dn2 tr1 d0 r0 d r tr4 tr5)
    from assms gate(5) have "tr = tr5" by simp
    with applyVendorPlugins_quiet(2) [OF gate(4)
           syncSystemd_quiet(2) [OF gate(3) askPlugins_quiet(2) [OF gate(2) q0]]]
    show ?thesis by simp
  qed
qed

lemma syncUnchanged_quiet:
  "syncUnchanged host dn = (e, dn', tr) \<Longrightarrow> \<forall>a \<in> set tr. \<not> behindGate a"
  by (auto simp: syncUnchanged_def Let_def split: if_splits prod.splits option.splits)

lemma syncFirstGeneration_quiet:
  "syncFirstGeneration host dn = (e, dn', tr) \<Longrightarrow> \<forall>a \<in> set tr. \<not> behindGate a"
  by (auto simp: syncFirstGeneration_def split: if_splits option.splits)

text \<open>Whatever happens behind the gate, one of its actions is attempted.\<close>

lemma syncFinish_behindGate:
  "\<exists>a \<in> set (snd (snd (syncFinish host dn reqReboot tr))). behindGate a"
  by (simp add: syncFinish_def applyLast_def Let_def GenericPluginName_def
        VirtualPluginName_def
      split: option.split sum.split prod.split)

lemma isNodeDraining_iff:
  "isNodeDraining dn \<longleftrightarrow> grantSeen dn = Some Draining \<or> grantSeen dn = Some DrainMcpPaused"
  by (auto simp: isNodeDraining_def grantSeen_def go_lookup_def split: option.splits)

lemma ObjectHasAnnotation_iff:
  "ObjectHasAnnotation obj k v \<longleftrightarrow> Annotations obj k = Some v"
  by (auto simp: ObjectHasAnnotation_def go_lookup_def split: option.splits)

lemma ObjectHasAnnotationKey_iff:
  "ObjectHasAnnotationKey obj k \<longleftrightarrow> Annotations obj k \<noteq> None"
  by (auto simp: ObjectHasAnnotationKey_def go_lookup_def split: option.splits)

lemma drainGate_waits:
  assumes "grantSeen dn = Some Draining \<or> grantSeen dn = Some DrainMcpPaused"
  shows "drainGate dn reqDrain = (Return None, dn)"
proof -
  from assms have "isNodeDraining dn" by (simp add: isNodeDraining_iff)
  moreover from assms have
    "ObjectHasAnnotationKey (desiredNodeState dn) NodeStateDrainAnnotationCurrent"
    "\<not> ObjectHasAnnotation (desiredNodeState dn) NodeStateDrainAnnotationCurrent DrainIdle"
    "\<not> ObjectHasAnnotation (desiredNodeState dn) NodeStateDrainAnnotationCurrent DrainComplete"
    by (auto simp: ObjectHasAnnotationKey_iff ObjectHasAnnotation_iff grantSeen_def
        Draining_def DrainMcpPaused_def DrainIdle_def DrainComplete_def)
  ultimately show ?thesis by (simp add: drainGate_def)
qed

lemma applyDrainRequired_eq:
  "applyDrainRequired dn =
     (map_option ApiErr (fst (AnnotateNode (dnName dn) DrainRequired (kubeClient dn))),
      dn\<lparr>kubeClient := snd (AnnotateNode (dnName dn) DrainRequired (kubeClient dn))\<rparr>)"
  by (simp add: applyDrainRequired_def split: prod.split option.split)

lemma drainGate_required:
  "drainGate dn True =
     (if grantSeen dn = Some DrainComplete then (Proceed, dn)
      else if grantSeen dn = Some Draining \<or> grantSeen dn = Some DrainMcpPaused
      then (Return None, dn)
      else if disableDrain dn then (Proceed, dn)
      else (Return (fst (applyDrainRequired dn)), snd (applyDrainRequired dn)))"
proof -
  have c: "ObjectHasAnnotation (desiredNodeState dn) NodeStateDrainAnnotationCurrent
             DrainComplete \<longleftrightarrow> grantSeen dn = Some DrainComplete"
    by (simp add: ObjectHasAnnotation_iff grantSeen_def)
  obtain ae dn2 where a: "applyDrainRequired dn = (ae, dn2)"
    by (cases "applyDrainRequired dn")
  show ?thesis
    by (cases ae) (simp_all add: drainGate_def c isNodeDraining_iff a)
qed

text \<open>A sync that reaches the gate goes through it, with what the steps before it keep.\<close>

lemma reachesGate_handler:
  assumes "reachesGate host dn fetched d r dn1 tr1"
  shows "nodeStateSyncHandler host dn =
           (case drainGate dn1 d of
              (Return err, dn2) \<Rightarrow> (err, dn2, tr1)
            | (Proceed, dn2) \<Rightarrow> syncFinish host dn2 r tr1)"
proof -
  from assms have g: "nodeStateGets (client dn) 0 = (fetched, None)"
    and p: "syncPrepare host (dn\<lparr>desiredNodeState := fetched\<rparr>) = Inr (d, r, dn1, tr1)"
    and u: "\<not> (Generation (currentNodeState dn) = Generation fetched
           \<and> \<not> ObjectHasAnnotation fetched NodeStateDrainAnnotationCurrent DrainComplete)"
    and f: "\<not> (Generation fetched = 1 \<and> SpecInterfaces fetched = [])"
    by (simp_all add: reachesGate_def)
  from u have u': "(Generation (currentNodeState dn) = Generation fetched
           \<and> \<not> ObjectHasAnnotation fetched NodeStateDrainAnnotationCurrent DrainComplete)
          = False"
    by blast
  from f have f': "(Generation fetched = 1 \<and> SpecInterfaces fetched = []) = False"
    by blast
  show ?thesis
    unfolding nodeStateSyncHandler_unfold [OF g] u' f' p by simp
qed

lemma reachesGate_frame:
  assumes "reachesGate host dn fetched d r dn1 tr1"
  shows "grantSeen dn1 = grantOf fetched" "disableDrain dn1 = disableDrain dn"
    "kubeClient dn1 = kubeClient dn" "dnName dn1 = dnName dn"
    "currentNodeState dn1 = currentNodeState dn" "\<forall>a \<in> set tr1. \<not> behindGate a"
proof -
  from assms
  have p: "syncPrepare host (dn\<lparr>desiredNodeState := fetched\<rparr>) = Inr (d, r, dn1, tr1)"
    by (simp add: reachesGate_def)
  from syncPrepare_frame [OF disjI2 [OF p]]
  show "grantSeen dn1 = grantOf fetched" "disableDrain dn1 = disableDrain dn"
    "kubeClient dn1 = kubeClient dn" "dnName dn1 = dnName dn"
    "currentNodeState dn1 = currentNodeState dn"
    by (simp_all add: grantSeen_def grantOf_def)
  from syncPrepare_quiet [OF disjI2 [OF p]] show "\<forall>a \<in> set tr1. \<not> behindGate a" .
qed

lemma reachesGate_waits:
  assumes r: "reachesGate host dn fetched d r dn1 tr1"
    and g: "grantOf fetched = Some Draining \<or> grantOf fetched = Some DrainMcpPaused"
  shows "nodeStateSyncHandler host dn = (None, dn1, tr1)"
proof -
  from g reachesGate_frame(1) [OF r]
  have "grantSeen dn1 = Some Draining \<or> grantSeen dn1 = Some DrainMcpPaused" by simp
  then have "drainGate dn1 d = (Return None, dn1)" by (rule drainGate_waits)
  then show ?thesis unfolding reachesGate_handler [OF r] by simp
qed

lemma reachesGate_proceeds:
  assumes r: "reachesGate host dn fetched True r dn1 tr1"
    and g: "grantOf fetched = Some DrainComplete
            \<or> (disableDrain dn \<and> grantOf fetched \<noteq> Some Draining
                \<and> grantOf fetched \<noteq> Some DrainMcpPaused)"
  shows "nodeStateSyncHandler host dn = syncFinish host dn1 r tr1"
proof -
  have ne: "Draining \<noteq> DrainComplete" "DrainMcpPaused \<noteq> DrainComplete"
    by (simp_all add: handshake_defs)
  from g reachesGate_frame(1,2) [OF r] ne
  have "drainGate dn1 True = (Proceed, dn1)"
    unfolding drainGate_required by auto
  then show ?thesis unfolding reachesGate_handler [OF r] by simp
qed

lemma reachesGate_requests:
  assumes r: "reachesGate host dn fetched True r dn1 tr1"
    and g: "grantOf fetched \<noteq> Some DrainComplete" "grantOf fetched \<noteq> Some Draining"
      "grantOf fetched \<noteq> Some DrainMcpPaused" "\<not> disableDrain dn"
  shows "nodeStateSyncHandler host dn =
           (map_option ApiErr (fst (AnnotateNode (dnName dn) DrainRequired (kubeClient dn))),
            dn1\<lparr>kubeClient := snd (AnnotateNode (dnName dn) DrainRequired (kubeClient dn))\<rparr>,
            tr1)"
proof -
  from g reachesGate_frame(1,2) [OF r]
  have "drainGate dn1 True
          = (Return (fst (applyDrainRequired dn1)), snd (applyDrainRequired dn1))"
    unfolding drainGate_required by simp
  then show ?thesis
    unfolding reachesGate_handler [OF r]
    by (simp add: applyDrainRequired_eq reachesGate_frame(3,4) [OF r])
qed

lemma AnnotateNode_writes:
  assumes "getNodeFault kc node = None" "patchNodeFault kc node = None"
    "nodes kc node = Some old" "Annotations old NodeDrainAnnotation \<noteq> Some DrainRequired"
  shows "AnnotateNode node DrainRequired kc =
           (None,
            kc\<lparr>nodePatches := nodePatches kc @ [(node, requestPatch DrainRequired)],
               nodes := (nodes kc)(node \<mapsto>
                 old\<lparr>Annotations :=
                       (Annotations old)(NodeDrainAnnotation \<mapsto> DrainRequired)\<rparr>)\<rparr>)"
proof -
  from assms(4) have "go_index (Annotations old) NodeDrainAnnotation \<noteq> DrainRequired"
    by (auto simp: go_index_def go_lookup_def DrainRequired_def split: option.splits)
  with assms(1-3) show ?thesis by (simp add: AnnotateNode_paths)
qed

lemma nodeStateSyncHandler_waits:
  assumes g: "grantOf (fst (nodeStateGets (client dn) 0)) = Some Draining
              \<or> grantOf (fst (nodeStateGets (client dn) 0)) = Some DrainMcpPaused"
    and h: "nodeStateSyncHandler host dn = (err, dn', tr)"
  shows "(\<forall>a \<in> set tr. \<not> behindGate a)
         \<and> kubeClient dn' = kubeClient dn \<and> currentNodeState dn' = currentNodeState dn"
  using h
proof (cases rule: nodeStateSyncHandler_cases)
  case (getErr fetched x)
  then show ?thesis by simp
next
  case (unchanged fetched)
  from syncUnchanged_frame [OF unchanged(2)] syncUnchanged_quiet [OF unchanged(2)]
  show ?thesis by simp
next
  case (firstGeneration fetched)
  from syncFirstGeneration_frame [OF firstGeneration(2)]
    syncFirstGeneration_quiet [OF firstGeneration(2)]
  show ?thesis by simp
next
  case (early fetched)
  from syncPrepare_frame [OF disjI1 [OF early(2)]] syncPrepare_quiet [OF disjI1 [OF early(2)]]
  show ?thesis by simp
next
  case (stopped fetched d r dn1)
  from syncPrepare_frame [OF disjI2 [OF stopped(2)]]
  have fr: "Annotations (desiredNodeState dn1) = Annotations fetched"
    "kubeClient dn1 = kubeClient dn" "currentNodeState dn1 = currentNodeState dn"
    by simp_all
  with g stopped(1) have "grantSeen dn1 = Some Draining \<or> grantSeen dn1 = Some DrainMcpPaused"
    by (simp add: grantSeen_def grantOf_def)
  then have "drainGate dn1 d = (Return None, dn1)" by (rule drainGate_waits)
  with stopped(3) have "dn' = dn1" by simp
  with fr syncPrepare_quiet [OF disjI2 [OF stopped(2)]] show ?thesis by simp
next
  case (finished fetched d r dn1 tr1)
  from syncPrepare_frame [OF disjI2 [OF finished(2)]]
  have "Annotations (desiredNodeState dn1) = Annotations fetched" by simp
  with g finished(1) have "grantSeen dn1 = Some Draining \<or> grantSeen dn1 = Some DrainMcpPaused"
    by (simp add: grantSeen_def grantOf_def)
  then have "drainGate dn1 d = (Return None, dn1)" by (rule drainGate_waits)
  with finished(3) show ?thesis by simp
qed

lemma reachesGate_behindGate_iff:
  assumes r: "reachesGate host dn fetched True r dn1 tr1"
  shows "(\<exists>a \<in> set (snd (snd (nodeStateSyncHandler host dn))). behindGate a)
         \<longleftrightarrow> grantOf fetched = Some DrainComplete
             \<or> (disableDrain dn \<and> grantOf fetched \<noteq> Some Draining
                 \<and> grantOf fetched \<noteq> Some DrainMcpPaused)"
proof (cases "grantOf fetched = Some DrainComplete
             \<or> (disableDrain dn \<and> grantOf fetched \<noteq> Some Draining
                 \<and> grantOf fetched \<noteq> Some DrainMcpPaused)")
  case True
  from reachesGate_proceeds [OF r True] syncFinish_behindGate [of host dn1 r tr1] True
  show ?thesis by simp
next
  case False
  have ne: "Draining \<noteq> DrainComplete" "DrainMcpPaused \<noteq> DrainComplete"
    by (simp_all add: handshake_defs)
  show ?thesis
  proof (cases "grantOf fetched = Some Draining \<or> grantOf fetched = Some DrainMcpPaused")
    case True
    from reachesGate_waits [OF r True] reachesGate_frame(6) [OF r] False
    show ?thesis by simp
  next
    case w: False
    with False have "grantOf fetched \<noteq> Some DrainComplete" "grantOf fetched \<noteq> Some Draining"
      "grantOf fetched \<noteq> Some DrainMcpPaused" "\<not> disableDrain dn"
      by auto
    from reachesGate_requests [OF r this] reachesGate_frame(6) [OF r] False
    show ?thesis by simp
  qed
qed

text \<open>
  C6, as stated, fails in two ways. With the grant \<^verbatim>\<open>Draining\<close> and a drain required,
  the sync applies the mellanox plugin before it reaches the gate and waits (lines 493 to
  502 come before line 504), and in systemd mode with the grant \<^verbatim>\<open>DrainMcpPaused\<close> it
  writes the configuration file and the list of supported devices before it waits. With
  draining disabled in the operator configuration, a sync that needs a drain and sees the
  grant \<^verbatim>\<open>Idle\<close> goes past the gate and applies the generic plugin, although the grant is
  not \<^verbatim>\<open>DrainComplete\<close> and no \<^verbatim>\<open>Drain_Required\<close> has been written.
\<close>

theorem daemon_applies_without_drain_complete:
  "grantOf (fst (nodeStateGets (client (testDaemon False Draining)) 0)) = Some Draining
   \<and> \<not> disableDrain (testDaemon False Draining)
   \<and> \<not> isl (syncPrepare testVendorHost
        ((testDaemon False Draining)\<lparr>desiredNodeState :=
            fst (nodeStateGets (client (testDaemon False Draining)) 0)\<rparr>))
   \<and> fst (projr (syncPrepare testVendorHost
        ((testDaemon False Draining)\<lparr>desiredNodeState :=
            fst (nodeStateGets (client (testDaemon False Draining)) 0)\<rparr>)))
   \<and> nodeStateSyncHandler testVendorHost (testDaemon False Draining)
       = (None,
          (testDaemon False Draining)\<lparr>desiredNodeState :=
              fst (nodeStateGets (client (testDaemon False Draining)) 0),
            enabledPlugins :=
              [(''mellanox_plugin'', testPlugin), (''generic_plugin'', testPlugin)]\<rparr>,
          [Refresh \<lparr>syncStatus = ''InProgress'', lastSyncError = ''''\<rparr>,
           CallOnNodeStateChange ''mellanox_plugin'',
           CallOnNodeStateChange ''generic_plugin'',
           CallApply ''mellanox_plugin''])
   \<and> grantOf (fst (nodeStateGets (client (testSystemdDaemon DrainMcpPaused)) 0))
       = Some DrainMcpPaused
   \<and> snd (snd (nodeStateSyncHandler testDaemonHost (testSystemdDaemon DrainMcpPaused)))
       = [Refresh \<lparr>syncStatus = ''InProgress'', lastSyncError = ''''\<rparr>,
          CallOnNodeStateChange ''generic_plugin'',
          WriteConfFile,
          WriteSriovSupportedNics]
   \<and> disableDrain (testDaemon True DrainIdle)
   \<and> grantOf (fst (nodeStateGets (client (testDaemon True DrainIdle)) 0)) = Some DrainIdle
   \<and> DrainIdle \<noteq> DrainComplete
   \<and> \<not> isl (syncPrepare testDaemonHost
        ((testDaemon True DrainIdle)\<lparr>desiredNodeState :=
            fst (nodeStateGets (client (testDaemon True DrainIdle)) 0)\<rparr>))
   \<and> fst (projr (syncPrepare testDaemonHost
        ((testDaemon True DrainIdle)\<lparr>desiredNodeState :=
            fst (nodeStateGets (client (testDaemon True DrainIdle)) 0)\<rparr>)))
   \<and> snd (snd (nodeStateSyncHandler testDaemonHost (testDaemon True DrainIdle)))
       = [Refresh \<lparr>syncStatus = ''InProgress'', lastSyncError = ''''\<rparr>,
          CallOnNodeStateChange ''generic_plugin'',
          CallApply ''generic_plugin'',
          RestartDevicePluginPod,
          Refresh \<lparr>syncStatus = ''Succeeded'', lastSyncError = ''''\<rparr>]
   \<and> nodePatches (kubeClient (fst (snd
        (nodeStateSyncHandler testDaemonHost (testDaemon True DrainIdle))))) = []"
  by (simp add: daemon_defs daemon_test_defs testVendorHost_def testSystemdDaemon_def
        grantOf_def AnnotateNode_paths handshake_defs Let_def)

text \<open>
  C6, amended. Write \<open>g\<close> for the grant annotation of the node state the sync fetches.

  (1) On every path, with or without an error, a sync with \<open>g\<close> \<^verbatim>\<open>Draining\<close> or
  \<^verbatim>\<open>DrainMcpPaused\<close> runs none of the actions behind the gate (it does not apply the
  generic or the virtual plugin, send the reboot event, reboot the node or restart the
  device plugin), submits nothing to the node API and does not record the node state as
  synced. What it may run are the steps before the gate: the status messages, the
  \<^verbatim>\<open>OnNodeStateChange\<close> calls, in systemd mode the writes of the configuration files, and
  \<^verbatim>\<open>Apply\<close> of every plugin other than the generic and the virtual one.

  (2) If such a sync reaches the gate, whether or not a drain is required, it returns
  \<^verbatim>\<open>nil\<close> there, with exactly the actions it arrived with. (A sync that fails before
  the gate returns that error instead.)

  (3) A sync that reaches the gate with a drain required runs an action behind the gate
  exactly when \<open>g\<close> is \<^verbatim>\<open>DrainComplete\<close>, or draining is disabled and \<open>g\<close> is neither
  \<^verbatim>\<open>Draining\<close> nor \<^verbatim>\<open>DrainMcpPaused\<close>; (4) and then it goes on with lines 523 to 581.

  (5) Otherwise, unless it waits as in (2), it calls \<open>AnnotateNode\<close> with
  \<^verbatim>\<open>Drain_Required\<close> for its own node and returns what that call returns, with exactly
  the actions it arrived with; (6) when the API does not fail and the stored node does not
  carry that value yet, this submits one patch that sets the request annotation to
  \<^verbatim>\<open>Drain_Required\<close>, the store holds the value afterwards, and the sync returns \<^verbatim>\<open>nil\<close>.
\<close>

theorem daemon_drain_gate:
  "((grantOf (fst (nodeStateGets (client dn) 0)) = Some Draining
      \<or> grantOf (fst (nodeStateGets (client dn) 0)) = Some DrainMcpPaused)
     \<and> nodeStateSyncHandler host dn = (err, dn', tr)
     \<longrightarrow> (\<forall>a \<in> set tr. \<not> behindGate a)
         \<and> kubeClient dn' = kubeClient dn \<and> currentNodeState dn' = currentNodeState dn)
   \<and> (reachesGate host dn fetched d r dn1 tr1
       \<and> (grantOf fetched = Some Draining \<or> grantOf fetched = Some DrainMcpPaused)
     \<longrightarrow> nodeStateSyncHandler host dn = (None, dn1, tr1)
         \<and> kubeClient dn1 = kubeClient dn \<and> currentNodeState dn1 = currentNodeState dn
         \<and> (\<forall>a \<in> set tr1. \<not> behindGate a))
   \<and> (reachesGate host dn fetched True r dn1 tr1
     \<longrightarrow> ((\<exists>a \<in> set (snd (snd (nodeStateSyncHandler host dn))). behindGate a)
          \<longleftrightarrow> grantOf fetched = Some DrainComplete
              \<or> (disableDrain dn \<and> grantOf fetched \<noteq> Some Draining
                  \<and> grantOf fetched \<noteq> Some DrainMcpPaused)))
   \<and> (reachesGate host dn fetched True r dn1 tr1
       \<and> (grantOf fetched = Some DrainComplete
           \<or> (disableDrain dn \<and> grantOf fetched \<noteq> Some Draining
               \<and> grantOf fetched \<noteq> Some DrainMcpPaused))
     \<longrightarrow> nodeStateSyncHandler host dn = syncFinish host dn1 r tr1)
   \<and> (reachesGate host dn fetched True r dn1 tr1
       \<and> grantOf fetched \<noteq> Some DrainComplete \<and> grantOf fetched \<noteq> Some Draining
       \<and> grantOf fetched \<noteq> Some DrainMcpPaused \<and> \<not> disableDrain dn
     \<longrightarrow> nodeStateSyncHandler host dn =
           (map_option ApiErr (fst (AnnotateNode (dnName dn) DrainRequired (kubeClient dn))),
            dn1\<lparr>kubeClient := snd (AnnotateNode (dnName dn) DrainRequired (kubeClient dn))\<rparr>,
            tr1)
         \<and> (\<forall>a \<in> set tr1. \<not> behindGate a))
   \<and> (reachesGate host dn fetched True r dn1 tr1
       \<and> grantOf fetched \<noteq> Some DrainComplete \<and> grantOf fetched \<noteq> Some Draining
       \<and> grantOf fetched \<noteq> Some DrainMcpPaused \<and> \<not> disableDrain dn
       \<and> getNodeFault (kubeClient dn) (dnName dn) = None
       \<and> patchNodeFault (kubeClient dn) (dnName dn) = None
       \<and> nodes (kubeClient dn) (dnName dn) = Some old
       \<and> Annotations old NodeDrainAnnotation \<noteq> Some DrainRequired
     \<longrightarrow> nodeStateSyncHandler host dn =
           (None,
            dn1\<lparr>kubeClient :=
              (kubeClient dn)
                \<lparr>nodePatches :=
                   nodePatches (kubeClient dn) @ [(dnName dn, requestPatch DrainRequired)],
                 nodes := (nodes (kubeClient dn))(dnName dn \<mapsto>
                   old\<lparr>Annotations :=
                         (Annotations old)(NodeDrainAnnotation \<mapsto> DrainRequired)\<rparr>)\<rparr>\<rparr>,
            tr1))"
proof (intro conjI impI)
  assume "(grantOf (fst (nodeStateGets (client dn) 0)) = Some Draining
      \<or> grantOf (fst (nodeStateGets (client dn) 0)) = Some DrainMcpPaused)
     \<and> nodeStateSyncHandler host dn = (err, dn', tr)"
  then have w: "(\<forall>a \<in> set tr. \<not> behindGate a)
         \<and> kubeClient dn' = kubeClient dn \<and> currentNodeState dn' = currentNodeState dn"
    using nodeStateSyncHandler_waits [of dn host err dn' tr] by blast
  from w show "\<forall>a \<in> set tr. \<not> behindGate a" by blast
  from w show "kubeClient dn' = kubeClient dn" by blast
  from w show "currentNodeState dn' = currentNodeState dn" by blast
next
  assume a: "reachesGate host dn fetched d r dn1 tr1
       \<and> (grantOf fetched = Some Draining \<or> grantOf fetched = Some DrainMcpPaused)"
  then have r: "reachesGate host dn fetched d r dn1 tr1"
    and g: "grantOf fetched = Some Draining \<or> grantOf fetched = Some DrainMcpPaused"
    by blast+
  from reachesGate_waits [OF r g] show "nodeStateSyncHandler host dn = (None, dn1, tr1)" .
  from reachesGate_frame(3) [OF r] show "kubeClient dn1 = kubeClient dn" .
  from reachesGate_frame(5) [OF r] show "currentNodeState dn1 = currentNodeState dn" .
  from reachesGate_frame(6) [OF r] show "\<forall>a \<in> set tr1. \<not> behindGate a" .
next
  assume r: "reachesGate host dn fetched True r dn1 tr1"
  from reachesGate_behindGate_iff [OF r]
  show "(\<exists>a \<in> set (snd (snd (nodeStateSyncHandler host dn))). behindGate a)
          \<longleftrightarrow> grantOf fetched = Some DrainComplete
              \<or> (disableDrain dn \<and> grantOf fetched \<noteq> Some Draining
                  \<and> grantOf fetched \<noteq> Some DrainMcpPaused)" .
next
  assume a: "reachesGate host dn fetched True r dn1 tr1
       \<and> (grantOf fetched = Some DrainComplete
           \<or> (disableDrain dn \<and> grantOf fetched \<noteq> Some Draining
               \<and> grantOf fetched \<noteq> Some DrainMcpPaused))"
  then have r: "reachesGate host dn fetched True r dn1 tr1"
    and g: "grantOf fetched = Some DrainComplete
           \<or> (disableDrain dn \<and> grantOf fetched \<noteq> Some Draining
               \<and> grantOf fetched \<noteq> Some DrainMcpPaused)"
    by blast+
  from reachesGate_proceeds [OF r g]
  show "nodeStateSyncHandler host dn = syncFinish host dn1 r tr1" .
next
  assume a: "reachesGate host dn fetched True r dn1 tr1
       \<and> grantOf fetched \<noteq> Some DrainComplete \<and> grantOf fetched \<noteq> Some Draining
       \<and> grantOf fetched \<noteq> Some DrainMcpPaused \<and> \<not> disableDrain dn"
  then have r: "reachesGate host dn fetched True r dn1 tr1"
    and g: "grantOf fetched \<noteq> Some DrainComplete" "grantOf fetched \<noteq> Some Draining"
      "grantOf fetched \<noteq> Some DrainMcpPaused" "\<not> disableDrain dn"
    by blast+
  from reachesGate_requests [OF r g]
  show "nodeStateSyncHandler host dn =
           (map_option ApiErr (fst (AnnotateNode (dnName dn) DrainRequired (kubeClient dn))),
            dn1\<lparr>kubeClient := snd (AnnotateNode (dnName dn) DrainRequired (kubeClient dn))\<rparr>,
            tr1)" .
  from reachesGate_frame(6) [OF r] show "\<forall>a \<in> set tr1. \<not> behindGate a" .
next
  assume a: "reachesGate host dn fetched True r dn1 tr1
       \<and> grantOf fetched \<noteq> Some DrainComplete \<and> grantOf fetched \<noteq> Some Draining
       \<and> grantOf fetched \<noteq> Some DrainMcpPaused \<and> \<not> disableDrain dn
       \<and> getNodeFault (kubeClient dn) (dnName dn) = None
       \<and> patchNodeFault (kubeClient dn) (dnName dn) = None
       \<and> nodes (kubeClient dn) (dnName dn) = Some old
       \<and> Annotations old NodeDrainAnnotation \<noteq> Some DrainRequired"
  then have r: "reachesGate host dn fetched True r dn1 tr1"
    and g: "grantOf fetched \<noteq> Some DrainComplete" "grantOf fetched \<noteq> Some Draining"
      "grantOf fetched \<noteq> Some DrainMcpPaused" "\<not> disableDrain dn"
    and k: "getNodeFault (kubeClient dn) (dnName dn) = None"
      "patchNodeFault (kubeClient dn) (dnName dn) = None"
      "nodes (kubeClient dn) (dnName dn) = Some old"
      "Annotations old NodeDrainAnnotation \<noteq> Some DrainRequired"
    by blast+
  show "nodeStateSyncHandler host dn =
           (None,
            dn1\<lparr>kubeClient :=
              (kubeClient dn)
                \<lparr>nodePatches :=
                   nodePatches (kubeClient dn) @ [(dnName dn, requestPatch DrainRequired)],
                 nodes := (nodes (kubeClient dn))(dnName dn \<mapsto>
                   old\<lparr>Annotations :=
                         (Annotations old)(NodeDrainAnnotation \<mapsto> DrainRequired)\<rparr>)\<rparr>\<rparr>,
            tr1)"
    unfolding reachesGate_requests [OF r g] AnnotateNode_writes [OF k] by simp
qed

theorem daemon_drain_gate_witness:
  "grantOf (fst (nodeStateGets (client (testDaemon False Draining)) 0)) = Some Draining
   \<and> fst (nodeStateSyncHandler testVendorHost (testDaemon False Draining)) = None
   \<and> snd (snd (nodeStateSyncHandler testVendorHost (testDaemon False Draining)))
       = [Refresh \<lparr>syncStatus = ''InProgress'', lastSyncError = ''''\<rparr>,
          CallOnNodeStateChange ''mellanox_plugin'',
          CallOnNodeStateChange ''generic_plugin'',
          CallApply ''mellanox_plugin'']
   \<and> \<not> behindGate (CallApply ''mellanox_plugin'')
   \<and> kubeClient (fst (snd (nodeStateSyncHandler testVendorHost (testDaemon False Draining))))
       = testCluster
   \<and> grantOf (fst (nodeStateGets (client (testDaemon False DrainComplete)) 0))
       = Some DrainComplete
   \<and> snd (snd (nodeStateSyncHandler testDaemonHost (testDaemon False DrainComplete)))
       = [Refresh \<lparr>syncStatus = ''InProgress'', lastSyncError = ''''\<rparr>,
          CallOnNodeStateChange ''generic_plugin'',
          CallApply ''generic_plugin'',
          RestartDevicePluginPod,
          Refresh \<lparr>syncStatus = ''Succeeded'', lastSyncError = ''''\<rparr>]
   \<and> behindGate (CallApply ''generic_plugin'')
   \<and> grantOf (fst (nodeStateGets (client (testDaemon False DrainIdle)) 0)) = Some DrainIdle
   \<and> fst (nodeStateSyncHandler testDaemonHost (testDaemon False DrainIdle)) = None
   \<and> snd (snd (nodeStateSyncHandler testDaemonHost (testDaemon False DrainIdle)))
       = [Refresh \<lparr>syncStatus = ''InProgress'', lastSyncError = ''''\<rparr>,
          CallOnNodeStateChange ''generic_plugin'']
   \<and> nodePatches (kubeClient (fst (snd
        (nodeStateSyncHandler testDaemonHost (testDaemon False DrainIdle)))))
       = [(''node1'', requestPatch DrainRequired)]
   \<and> map_option Annotations (nodes (kubeClient (fst (snd
        (nodeStateSyncHandler testDaemonHost (testDaemon False DrainIdle))))) ''node1'')
       = Some ((Annotations (testNode ''node1''))(NodeDrainAnnotation \<mapsto> DrainRequired))"
proof -
  let ?w = "testDaemon False Draining"
  let ?c = "testDaemon False DrainComplete"
  let ?i = "testDaemon False DrainIdle"
  let ?fw = "fst (nodeStateGets (client ?w) 0)"
  let ?fc = "fst (nodeStateGets (client ?c) 0)"
  let ?fi = "fst (nodeStateGets (client ?i) 0)"
  have gw: "grantOf ?fw = Some Draining"
    and gc: "grantOf ?fc = Some DrainComplete"
    and gi: "grantOf ?fi = Some DrainIdle"
    by (simp_all add: grantOf_def testDaemon_def)
  have gi': "grantOf ?fi \<noteq> Some DrainComplete" "grantOf ?fi \<noteq> Some Draining"
    "grantOf ?fi \<noteq> Some DrainMcpPaused" "\<not> disableDrain ?i"
    by (simp_all add: grantOf_def testDaemon_def handshake_defs)
  have "\<exists>r dn1. reachesGate testVendorHost ?w ?fw True r dn1
          [Refresh \<lparr>syncStatus = ''InProgress'', lastSyncError = ''''\<rparr>,
           CallOnNodeStateChange ''mellanox_plugin'',
           CallOnNodeStateChange ''generic_plugin'',
           CallApply ''mellanox_plugin'']"
    by (auto simp: reachesGate_def daemon_defs daemon_test_defs testVendorHost_def
          handshake_defs Let_def)
  then obtain rw dw where
    rw: "reachesGate testVendorHost ?w ?fw True rw dw
          [Refresh \<lparr>syncStatus = ''InProgress'', lastSyncError = ''''\<rparr>,
           CallOnNodeStateChange ''mellanox_plugin'',
           CallOnNodeStateChange ''generic_plugin'',
           CallApply ''mellanox_plugin'']"
    by blast
  have "\<exists>r dn1. reachesGate testDaemonHost ?i ?fi True r dn1
          [Refresh \<lparr>syncStatus = ''InProgress'', lastSyncError = ''''\<rparr>,
           CallOnNodeStateChange ''generic_plugin'']"
    by (auto simp: reachesGate_def daemon_defs daemon_test_defs handshake_defs Let_def)
  then obtain ri di where
    ri: "reachesGate testDaemonHost ?i ?fi True ri di
          [Refresh \<lparr>syncStatus = ''InProgress'', lastSyncError = ''''\<rparr>,
           CallOnNodeStateChange ''generic_plugin'']"
    by blast
  have ki: "getNodeFault (kubeClient ?i) (dnName ?i) = None"
    "patchNodeFault (kubeClient ?i) (dnName ?i) = None"
    "nodes (kubeClient ?i) (dnName ?i) = Some (testNode ''node1'')"
    "Annotations (testNode ''node1'') NodeDrainAnnotation \<noteq> Some DrainRequired"
    "dnName ?i = ''node1''"
    by (simp_all add: testDaemon_def testCluster_def testNode_def handshake_defs)
  have kw: "kubeClient ?w = testCluster" by (simp add: testDaemon_def)
  have ev: "snd (snd (nodeStateSyncHandler testDaemonHost ?c))
       = [Refresh \<lparr>syncStatus = ''InProgress'', lastSyncError = ''''\<rparr>,
          CallOnNodeStateChange ''generic_plugin'',
          CallApply ''generic_plugin'',
          RestartDevicePluginPod,
          Refresh \<lparr>syncStatus = ''Succeeded'', lastSyncError = ''''\<rparr>]"
    by (simp add: daemon_defs daemon_test_defs AnnotateNode_paths handshake_defs Let_def)
  have bg: "\<not> behindGate (CallApply ''mellanox_plugin'')"
    "behindGate (CallApply ''generic_plugin'')"
    by (simp_all add: GenericPluginName_def VirtualPluginName_def)
  from daemon_drain_gate [where host = testVendorHost and dn = ?w and fetched = ?fw
      and d = True and r = rw and ?dn1.0 = dw
      and ?tr1.0 = "[Refresh \<lparr>syncStatus = ''InProgress'', lastSyncError = ''''\<rparr>,
           CallOnNodeStateChange ''mellanox_plugin'',
           CallOnNodeStateChange ''generic_plugin'',
           CallApply ''mellanox_plugin'']"] rw gw
  have w: "nodeStateSyncHandler testVendorHost ?w
         = (None, dw,
            [Refresh \<lparr>syncStatus = ''InProgress'', lastSyncError = ''''\<rparr>,
             CallOnNodeStateChange ''mellanox_plugin'',
             CallOnNodeStateChange ''generic_plugin'',
             CallApply ''mellanox_plugin''])"
    "kubeClient dw = kubeClient ?w"
    by blast+
  from daemon_drain_gate [where host = testDaemonHost and dn = ?i and fetched = ?fi
      and r = ri and ?dn1.0 = di and old = "testNode ''node1''"
      and ?tr1.0 = "[Refresh \<lparr>syncStatus = ''InProgress'', lastSyncError = ''''\<rparr>,
           CallOnNodeStateChange ''generic_plugin'']"] ri gi' ki(1-4)
  have i: "nodeStateSyncHandler testDaemonHost ?i =
           (None,
            di\<lparr>kubeClient :=
              (kubeClient ?i)
                \<lparr>nodePatches :=
                   nodePatches (kubeClient ?i) @ [(dnName ?i, requestPatch DrainRequired)],
                 nodes := (nodes (kubeClient ?i))(dnName ?i \<mapsto>
                   (testNode ''node1'')\<lparr>Annotations :=
                         (Annotations (testNode ''node1''))(NodeDrainAnnotation \<mapsto> DrainRequired)\<rparr>)\<rparr>\<rparr>,
            [Refresh \<lparr>syncStatus = ''InProgress'', lastSyncError = ''''\<rparr>,
             CallOnNodeStateChange ''generic_plugin''])"
    by blast
  have pi: "nodePatches (kubeClient ?i) = []"
    by (simp add: testDaemon_def testCluster_def)
  show ?thesis
    unfolding w i using gw gc gi ev bg kw w(2) ki(5) pi by simp
qed

section \<open>Properties of the drain coordinator\<close>

text \<open>A write that keeps the name and the labels of every node keeps the pools.\<close>

lemma poolConfigOf_cong:
  "poolConfigs fleet' = poolConfigs fleet \<Longrightarrow> defaultPool fleet' = defaultPool fleet \<Longrightarrow>
   nodeLabels n' = nodeLabels n \<Longrightarrow> poolConfigOf fleet' n' = poolConfigOf fleet n"
  by (simp add: poolConfigOf_def selects_def Let_def)

lemma updateNode_fields [simp]:
  "poolConfigs (updateNode fleet name g) = poolConfigs fleet"
  "defaultPool (updateNode fleet name g) = defaultPool fleet"
  "fleetNodes (updateNode fleet name g)
     = map (\<lambda>m. if nodeName m = name then g m else m) (fleetNodes fleet)"
  by (simp_all add: updateNode_def)




lemma keepsIdentity_comp:
  "keepsIdentity g \<Longrightarrow> keepsIdentity h \<Longrightarrow> keepsIdentity (h \<circ> g)"
  by (simp add: keepsIdentity_def)

lemma updateNode_updateNode:
  "keepsIdentity g \<Longrightarrow>
   updateNode (updateNode fleet name g) name h = updateNode fleet name (h \<circ> g)"
  by (simp add: updateNode_def keepsIdentity_def)





lemma updateNode_id: "updateNode fleet name id = fleet"
  by (simp add: updateNode_def map_idI)

lemma touchesOnly_refl [simp, intro]: "touchesOnly fleet name fleet"
  unfolding touchesOnly_def
  by (rule exI [of _ id]) (simp add: keepsIdentity_def updateNode_id)

lemma touchesOnly_trans:
  assumes "touchesOnly a name b" and "touchesOnly b name c"
  shows "touchesOnly a name c"
proof -
  from assms obtain g h where g: "keepsIdentity g" "b = updateNode a name g"
    and h: "keepsIdentity h" "c = updateNode b name h"
    by (auto simp: touchesOnly_def)
  from g h have "c = updateNode a name (h \<circ> g)" by (simp add: updateNode_updateNode)
  with keepsIdentity_comp [OF g(1) h(1)] show ?thesis
    unfolding touchesOnly_def by blast
qed

lemma keepsIdentity_writes [simp]:
  "keepsIdentity (\<lambda>m. m\<lparr>nodeState := s\<rparr>)"
  "keepsIdentity (\<lambda>m. m\<lparr>unschedulable := b\<rparr>)"
  "keepsIdentity (\<lambda>m. m\<lparr>requestAnno := r\<rparr>)"
  by (simp_all add: keepsIdentity_def)

lemma touchesOnly_setGrant [simp, intro]: "touchesOnly fleet name (setGrant fleet name g)"
  unfolding touchesOnly_def setGrant_def by (intro exI conjI) (rule keepsIdentity_writes, rule refl)

lemma touchesOnly_setUnschedulable [simp, intro]:
  "touchesOnly fleet name (setUnschedulable fleet name b)"
  unfolding touchesOnly_def setUnschedulable_def
  by (intro exI conjI) (rule keepsIdentity_writes, rule refl)

lemma touchesOnly_agentWrites [simp, intro]: "touchesOnly fleet name (agentWrites fleet name r)"
  unfolding touchesOnly_def agentWrites_def
  by (intro exI conjI) (rule keepsIdentity_writes, rule refl)

lemma touchesOnly_setGrant_after [intro]:
  "touchesOnly fleet name fleet' \<Longrightarrow> touchesOnly fleet name (setGrant fleet' name g)"
  by (rule touchesOnly_trans [OF _ touchesOnly_setGrant])

lemma touchesOnly_setUnschedulable_after [intro]:
  "touchesOnly fleet name fleet' \<Longrightarrow> touchesOnly fleet name (setUnschedulable fleet' name b)"
  by (rule touchesOnly_trans [OF _ touchesOnly_setUnschedulable])

text \<open>The node of a given name after a write.\<close>

lemma find_map_named:
  assumes "keepsIdentity g"
  shows "find (\<lambda>m. nodeName m = name) (map (\<lambda>m. if nodeName m = name then g m else m) xs)
           = map_option g (find (\<lambda>m. nodeName m = name) xs)"
  using assms by (induction xs) (auto simp: keepsIdentity_def)

lemma nodeNamed_updateNode:
  "keepsIdentity g \<Longrightarrow>
   nodeNamed (updateNode fleet name g) name = map_option g (nodeNamed fleet name)"
  by (simp add: nodeNamed_def find_map_named)

lemma nodeNamed_setGrant:
  "nodeNamed (setGrant fleet name g) name
     = map_option (\<lambda>m. m\<lparr>nodeState := Some (Some g)\<rparr>) (nodeNamed fleet name)"
  by (simp add: setGrant_def nodeNamed_updateNode)

lemma nodeNamed_setUnschedulable:
  "nodeNamed (setUnschedulable fleet name b) name
     = map_option (\<lambda>m. m\<lparr>unschedulable := b\<rparr>) (nodeNamed fleet name)"
  by (simp add: setUnschedulable_def nodeNamed_updateNode)

lemma draining_simps [simp]:
  "draining (m\<lparr>unschedulable := b\<rparr>) = draining m"
  "draining (m\<lparr>requestAnno := r\<rparr>) = draining m"
  "draining (m\<lparr>nodeState := Some (Some g)\<rparr>) = consumesSlot g"
  by (simp_all add: draining_def)

text \<open>The steps of a reconcile touch the reconciled node only.\<close>

lemma release_touchesOnly: "touchesOnly fleet name (snd (release cap fleet name))"
  by (auto simp: release_def Let_def split: prod.split option.split bool.split)

lemma ensureSchedulable_touchesOnly:
  "touchesOnly fleet name (snd (ensureSchedulable cap fleet name))"
  by (auto simp: ensureSchedulable_def split: prod.split option.split bool.split)

lemma admit_touchesOnly: "touchesOnly fleet name (snd (admit cap fleet name pc cap'))"
  by (auto simp: admit_def Let_def split: prod.split option.split bool.split)

lemma advance_touchesOnly: "touchesOnly fleet name (snd (advance cap fleet name))"
  by (auto simp: advance_def split: prod.split option.split bool.split)

lemma Reconcile_touchesOnly: "touchesOnly fleet name (snd (Reconcile cap fleet name))"
proof -
  have "\<And>g. touchesOnly fleet name (snd (release cap (setGrant fleet name g) name))"
    "\<And>g. touchesOnly fleet name (snd (ensureSchedulable cap (setGrant fleet name g) name))"
    "\<And>g pc cap'. touchesOnly fleet name (snd (admit cap (setGrant fleet name g) name pc cap'))"
    "\<And>g. touchesOnly fleet name (snd (advance cap (setGrant fleet name g) name))"
    by (blast intro: touchesOnly_trans [OF touchesOnly_setGrant] release_touchesOnly
          ensureSchedulable_touchesOnly admit_touchesOnly advance_touchesOnly)+
  then show ?thesis
    by (simp add: Reconcile_def Let_def split: option.split sum.split)
qed
















text \<open>A pool without a budget: the node of the reconciled name after a reconcile.\<close>

lemma find_map_other:
  assumes "keepsIdentity g" and "name \<noteq> other"
  shows "find (\<lambda>m. nodeName m = name) (map (\<lambda>m. if nodeName m = other then g m else m) xs)
           = find (\<lambda>m. nodeName m = name) xs"
  using assms by (induction xs) (auto simp: keepsIdentity_def)

lemma nodeNamed_updateNode_other:
  "keepsIdentity g \<Longrightarrow> name \<noteq> other \<Longrightarrow>
   nodeNamed (updateNode fleet other g) name = nodeNamed fleet name"
  by (simp add: nodeNamed_def find_map_other)

lemma uncapped_updateNode:
  assumes "keepsIdentity g" and "nodeLabels n' = nodeLabels n"
  shows "uncapped (updateNode fleet other g) n' = uncapped fleet n"
proof -
  from assms(2) have "poolConfigOf (updateNode fleet other g) n' = poolConfigOf fleet n"
    by (intro poolConfigOf_cong) simp_all
  then show ?thesis by (simp add: uncapped_def)
qed

lemma uncapped_setGrant [simp]:
  "uncapped (setGrant fleet other g) n = uncapped fleet n"
  unfolding setGrant_def by (rule uncapped_updateNode) simp_all

lemma uncapped_setUnschedulable [simp]:
  "uncapped (setUnschedulable fleet other b) n = uncapped fleet n"
  unfolding setUnschedulable_def by (rule uncapped_updateNode) simp_all

lemma uncapped_fields [simp]:
  "uncapped fleet (n\<lparr>nodeState := s\<rparr>) = uncapped fleet n"
  "uncapped fleet (n\<lparr>unschedulable := b\<rparr>) = uncapped fleet n"
  by (simp_all add: uncapped_def poolConfigOf_def selects_def)

lemma maxUnavailable_unset:
  "poolMaxUnavailable pc = None \<Longrightarrow> maxUnavailable fleet pc = Inr None"
  by (simp add: maxUnavailable_def resolveMaxUnavailable_def)

lemma reached_other:
  assumes "name \<noteq> other"
  shows "reached (snd (Reconcile cap fleet other)) name k = reached fleet name k"
proof -
  from Reconcile_touchesOnly [of fleet other cap] obtain h where
    h: "keepsIdentity h" "snd (Reconcile cap fleet other) = updateNode fleet other h"
    by (auto simp: touchesOnly_def)
  have "\<And>n. uncapped (updateNode fleet other h) n = uncapped fleet n"
    using h(1) by (intro uncapped_updateNode) simp_all
  with h assms show ?thesis
    by (simp add: reached_def nodeNamed_updateNode_other split: option.split)
qed

text \<open>
  The reconcile of a node that asks for a drain in a pool without a budget, by the grant
  it finds.
\<close>

lemma Reconcile_uncapped:
  assumes n: "nodeNamed fleet name = Some n" and s: "nodeState n = Some observed"
    and r: "requestsDrain (requestAnno n)" and u: "uncapped fleet n"
  shows "\<exists>pc. Reconcile cap fleet name =
           (let g = (case observed of None \<Rightarrow> G_Idle | Some g' \<Rightarrow> g');
                fleet0 = setGrant fleet name g
            in if g = G_Idle then admit cap fleet0 name pc None
               else if g = G_Draining \<or> g = G_DrainMcpPaused then advance cap fleet0 name
               else (Success, fleet0))"
proof -
  from u obtain pc where pc: "poolConfigOf fleet n = Inr pc" "poolMaxUnavailable pc = None"
    by (auto simp: uncapped_def split: sum.splits)
  from n have f: "find (\<lambda>m. nodeName m = name) (fleetNodes fleet) = Some n"
    by (simp add: nodeNamed_def)
  from f s r pc maxUnavailable_unset [OF pc(2), of fleet]
  have "Reconcile cap fleet name =
           (let g = (case observed of None \<Rightarrow> G_Idle | Some g' \<Rightarrow> g');
                fleet0 = setGrant fleet name g
            in if g = G_Idle then admit cap fleet0 name pc None
               else if g = G_Draining \<or> g = G_DrainMcpPaused then advance cap fleet0 name
               else (Success, fleet0))"
    by (simp add: Reconcile_def)
  then show ?thesis ..
qed

lemma admit_uncapped_node:
  assumes "nodeNamed fleet name = Some n0"
  shows "nodeNamed (snd (admit cap fleet name pc None)) name =
           Some (case snd (beforeDrain cap name) of
                   Some e \<Rightarrow> n0\<lparr>unschedulable := True\<rparr>
                 | None \<Rightarrow>
                     n0\<lparr>unschedulable := True,
                        nodeState := Some (Some (if poolPaused cap name then G_DrainMcpPaused
                                                 else G_Draining))\<rparr>)"
  using assms
  by (simp add: admit_def withinCap_def Let_def nodeNamed_setGrant nodeNamed_setUnschedulable
      split: prod.split option.split)

lemma advance_node:
  assumes "nodeNamed fleet name = Some n0"
  shows "nodeNamed (snd (advance cap fleet name)) name =
           Some (if beforeDrain cap name = (True, None) \<and> drainNode cap name = (True, None)
                 then n0\<lparr>nodeState := Some (Some G_DrainComplete)\<rparr> else n0)"
  using assms
  by (simp add: advance_def nodeNamed_setGrant split: prod.split option.split bool.split)

lemma uncapped_after [simp]:
  "uncapped (snd (admit cap fleet name pc cap')) n = uncapped fleet n"
  "uncapped (snd (advance cap fleet name)) n = uncapped fleet n"
  by (simp_all add: admit_def advance_def Let_def split: prod.split option.split bool.split)

lemma Reconcile_uncapped_node:
  assumes n: "nodeNamed fleet name = Some n" and s: "nodeState n = Some observed"
    and r: "requestsDrain (requestAnno n)" and u: "uncapped fleet n"
  shows "nodeNamed (snd (Reconcile cap fleet name)) name =
           Some (let g = (case observed of None \<Rightarrow> G_Idle | Some g' \<Rightarrow> g');
                     n0 = n\<lparr>nodeState := Some (Some g)\<rparr>
                 in if g = G_Idle
                    then (case snd (beforeDrain cap name) of
                            Some e \<Rightarrow> n0\<lparr>unschedulable := True\<rparr>
                          | None \<Rightarrow>
                              n0\<lparr>unschedulable := True,
                                 nodeState :=
                                   Some (Some (if poolPaused cap name then G_DrainMcpPaused
                                               else G_Draining))\<rparr>)
                    else if g = G_Draining \<or> g = G_DrainMcpPaused
                    then (if beforeDrain cap name = (True, None)
                             \<and> drainNode cap name = (True, None)
                          then n0\<lparr>nodeState := Some (Some G_DrainComplete)\<rparr> else n0)
                    else n0)"
    and "uncapped (snd (Reconcile cap fleet name)) m = uncapped fleet m"
proof -
  from Reconcile_uncapped [OF n s r u, of cap] obtain pc where
    eq: "Reconcile cap fleet name =
           (let g = (case observed of None \<Rightarrow> G_Idle | Some g' \<Rightarrow> g');
                fleet0 = setGrant fleet name g
            in if g = G_Idle then admit cap fleet0 name pc None
               else if g = G_Draining \<or> g = G_DrainMcpPaused then advance cap fleet0 name
               else (Success, fleet0))"
    by blast
  define g where "g = (case observed of None \<Rightarrow> G_Idle | Some g' \<Rightarrow> g')"
  have n0: "nodeNamed (setGrant fleet name g) name = Some (n\<lparr>nodeState := Some (Some g)\<rparr>)"
    by (simp add: nodeNamed_setGrant n)
  show "nodeNamed (snd (Reconcile cap fleet name)) name =
           Some (let g = (case observed of None \<Rightarrow> G_Idle | Some g' \<Rightarrow> g');
                     n0 = n\<lparr>nodeState := Some (Some g)\<rparr>
                 in if g = G_Idle
                    then (case snd (beforeDrain cap name) of
                            Some e \<Rightarrow> n0\<lparr>unschedulable := True\<rparr>
                          | None \<Rightarrow>
                              n0\<lparr>unschedulable := True,
                                 nodeState :=
                                   Some (Some (if poolPaused cap name then G_DrainMcpPaused
                                               else G_Draining))\<rparr>)
                    else if g = G_Draining \<or> g = G_DrainMcpPaused
                    then (if beforeDrain cap name = (True, None)
                             \<and> drainNode cap name = (True, None)
                          then n0\<lparr>nodeState := Some (Some G_DrainComplete)\<rparr> else n0)
                    else n0)"
    unfolding eq g_def [symmetric] Let_def
  proof (cases "g = G_Idle")
    case True
    with admit_uncapped_node [OF n0, of cap pc] show
      "nodeNamed
         (snd (if g = G_Idle then admit cap (setGrant fleet name g) name pc None
               else if g = G_Draining \<or> g = G_DrainMcpPaused
               then advance cap (setGrant fleet name g) name
               else (Success, setGrant fleet name g)))
         name =
       Some (if g = G_Idle
             then (case snd (beforeDrain cap name) of
                     Some e \<Rightarrow> n\<lparr>nodeState := Some (Some g), unschedulable := True\<rparr>
                   | None \<Rightarrow>
                       n\<lparr>nodeState := Some (Some g), unschedulable := True,
                          nodeState :=
                            Some (Some (if poolPaused cap name then G_DrainMcpPaused
                                        else G_Draining))\<rparr>)
             else if g = G_Draining \<or> g = G_DrainMcpPaused
             then (if beforeDrain cap name = (True, None)
                      \<and> drainNode cap name = (True, None)
                   then n\<lparr>nodeState := Some (Some g),
                          nodeState := Some (Some G_DrainComplete)\<rparr>
                   else n\<lparr>nodeState := Some (Some g)\<rparr>)
             else n\<lparr>nodeState := Some (Some g)\<rparr>)"
      by simp
  next
    case False
    with advance_node [OF n0, of cap] n0 show
      "nodeNamed
         (snd (if g = G_Idle then admit cap (setGrant fleet name g) name pc None
               else if g = G_Draining \<or> g = G_DrainMcpPaused
               then advance cap (setGrant fleet name g) name
               else (Success, setGrant fleet name g)))
         name =
       Some (if g = G_Idle
             then (case snd (beforeDrain cap name) of
                     Some e \<Rightarrow> n\<lparr>nodeState := Some (Some g), unschedulable := True\<rparr>
                   | None \<Rightarrow>
                       n\<lparr>nodeState := Some (Some g), unschedulable := True,
                          nodeState :=
                            Some (Some (if poolPaused cap name then G_DrainMcpPaused
                                        else G_Draining))\<rparr>)
             else if g = G_Draining \<or> g = G_DrainMcpPaused
             then (if beforeDrain cap name = (True, None)
                      \<and> drainNode cap name = (True, None)
                   then n\<lparr>nodeState := Some (Some g),
                          nodeState := Some (Some G_DrainComplete)\<rparr>
                   else n\<lparr>nodeState := Some (Some g)\<rparr>)
             else n\<lparr>nodeState := Some (Some g)\<rparr>)"
      by (cases "g = G_Draining \<or> g = G_DrainMcpPaused") simp_all
  qed
  show "uncapped (snd (Reconcile cap fleet name)) m = uncapped fleet m"
    unfolding eq g_def [symmetric] Let_def by simp
qed

text \<open>
  The drain of a node in a pool without a budget does not go back when the node is
  reconciled, and goes one step further when the hook and the drainer answer.
\<close>

lemma reached_same:
  assumes "reached fleet name k"
  shows "reached (snd (Reconcile cap fleet name)) name k"
    and "beforeDrain cap name = (True, None) \<Longrightarrow> drainNode cap name = (True, None) \<Longrightarrow>
         reached (snd (Reconcile cap fleet name)) name (min 2 (Suc k))"
proof -
  from assms obtain n where n: "nodeNamed fleet name = Some n"
    and r: "requestsDrain (requestAnno n)" and u: "uncapped fleet n"
    and st: "nodeState n = Some (Some G_DrainComplete) \<and> unschedulable n
             \<or> k \<le> 1 \<and> (nodeState n = Some (Some G_Draining)
                          \<or> nodeState n = Some (Some G_DrainMcpPaused)) \<and> unschedulable n
             \<or> k = 0 \<and> (nodeState n = Some None \<or> nodeState n = Some (Some G_Idle))"
    by (auto simp: reached_def split: option.splits)
  from st obtain observed where s: "nodeState n = Some observed" by blast
  note node = Reconcile_uncapped_node [OF n s r u, of cap]
  from st s r u show "reached (snd (Reconcile cap fleet name)) name k"
    unfolding reached_def node
    by (auto simp: Let_def split: option.split)
  assume "beforeDrain cap name = (True, None)" "drainNode cap name = (True, None)"
  with st s r u show "reached (snd (Reconcile cap fleet name)) name (min 2 (Suc k))"
    unfolding reached_def node
    by (auto simp: Let_def split: option.split)
qed

lemma reached_mono: "reached fleet name k \<Longrightarrow> j \<le> k \<Longrightarrow> reached fleet name j"
  by (auto simp: reached_def split: option.splits)

lemma run_reached:
  assumes "beforeDrain cap name = (True, None)" "drainNode cap name = (True, None)"
  shows "reached fleet name k \<Longrightarrow>
         reached (run fleet (map (Reconciled cap) order)) name
           (min 2 (k + count_list order name))"
proof (induction order arbitrary: fleet k)
  case Nil
  then show ?case by (simp add: reached_mono)
next
  case (Cons x xs)
  show ?case
  proof (cases "x = name")
    case True
    from reached_same(2) [OF Cons.prems assms]
    have "reached (snd (Reconcile cap fleet name)) name (min 2 (Suc k))" .
    from Cons.IH [OF this] True show ?thesis
      by (simp add: min_def split: if_splits)
  next
    case False
    then have "reached (snd (Reconcile cap fleet x)) name k"
      using Cons.prems by (simp add: reached_other)
    from Cons.IH [OF this] False show ?thesis by simp
  qed
qed

text \<open>
  C7. (1) The budget of a pool whose \<^verbatim>\<open>MaxUnavailable\<close> is unset resolves to no cap, and
  the admission check passes whatever the number of concurrent drains. (2) A node that
  asks for a drain in such a pool, with the grant \<^verbatim>\<open>Idle\<close> or not written yet, is admitted
  by its next reconcile whatever the other nodes of the pool are doing: it is cordoned and
  gets the grant \<^verbatim>\<open>Draining\<close> or \<^verbatim>\<open>DrainMcpPaused\<close>, provided the \<^verbatim>\<open>beforeDrain\<close> hook
  returns no error. (3) For every list of such nodes, when the hook answers ready and the
  drainer answers completed for them (as the no-op adapter and the mocked platform of the
  controller test do), after any sequence of reconciles that visits each of them at least
  twice, all of them have the grant \<^verbatim>\<open>DrainComplete\<close> and are unschedulable at the same
  time.
\<close>

theorem unset_MaxUnavailable_no_cap:
  "(poolMaxUnavailable pc = None
     \<longrightarrow> maxUnavailable fleet pc = Inr None \<and> withinCap None c)
   \<and> (awaitsUncappedDrain fleet name \<and> snd (beforeDrain cap name) = None
     \<longrightarrow> admittedAndCordoned (snd (Reconcile cap fleet name)) name)
   \<and> ((\<forall>name \<in> set names. awaitsUncappedDrain fleet name)
      \<and> (\<forall>name \<in> set names.
            beforeDrain cap name = (True, None) \<and> drainNode cap name = (True, None))
      \<and> (\<forall>name \<in> set names. 2 \<le> count_list order name)
     \<longrightarrow> (\<forall>name \<in> set names.
            drainCompleteAndCordoned (run fleet (map (Reconciled cap) order)) name))"
proof (intro conjI impI ballI)
  assume "poolMaxUnavailable pc = None"
  then show "maxUnavailable fleet pc = Inr None" by (rule maxUnavailable_unset)
next
  show "withinCap None c" by (simp add: withinCap_def)
next
  assume a: "awaitsUncappedDrain fleet name \<and> snd (beforeDrain cap name) = None"
  then obtain n where n: "nodeNamed fleet name = Some n"
    and r: "requestsDrain (requestAnno n)" and u: "uncapped fleet n"
    and st: "nodeState n = Some None \<or> nodeState n = Some (Some G_Idle)"
    by (auto simp: awaitsUncappedDrain_def split: option.splits)
  from st obtain observed where s: "nodeState n = Some observed"
    and o: "observed = None \<or> observed = Some G_Idle"
    by blast
  from a o show "admittedAndCordoned (snd (Reconcile cap fleet name)) name"
    unfolding admittedAndCordoned_def Reconcile_uncapped_node(1) [OF n s r u, of cap]
    by (auto simp: Let_def)
next
  fix x
  assume a: "(\<forall>name \<in> set names. awaitsUncappedDrain fleet name)
      \<and> (\<forall>name \<in> set names.
            beforeDrain cap name = (True, None) \<and> drainNode cap name = (True, None))
      \<and> (\<forall>name \<in> set names. 2 \<le> count_list order name)"
    and x: "x \<in> set names"
  from a x have w: "awaitsUncappedDrain fleet x"
    and c: "beforeDrain cap x = (True, None)" "drainNode cap x = (True, None)"
    and k: "2 \<le> count_list order x"
    by blast+
  from w have "reached fleet x 0"
    by (auto simp: awaitsUncappedDrain_def reached_def split: option.splits)
  from run_reached [OF c this, of order] k
  have "reached (run fleet (map (Reconciled cap) order)) x 2"
    by (simp add: min_def)
  then show "drainCompleteAndCordoned (run fleet (map (Reconciled cap) order)) x"
    by (auto simp: reached_def drainCompleteAndCordoned_def split: option.splits)
qed

theorem unset_MaxUnavailable_no_cap_witness:
  "poolMaxUnavailable (testWorkers None) = None
   \<and> maxUnavailable (testFleet None) (testWorkers None) = Inr None
   \<and> awaitsUncappedDrain (testFleet None) ''node1''
   \<and> awaitsUncappedDrain (testFleet None) ''node2''
   \<and> awaitsUncappedDrain (testFleet None) ''node3''
   \<and> admittedAndCordoned (snd (Reconcile testCapabilities (testFleet None) ''node1''))
        ''node1''
   \<and> drainCompleteAndCordoned
        (run (testFleet None)
           (map (Reconciled testCapabilities)
              [''node1'', ''node2'', ''node3'', ''node3'', ''node2'', ''node1'']))
        ''node1''
   \<and> drainCompleteAndCordoned
        (run (testFleet None)
           (map (Reconciled testCapabilities)
              [''node1'', ''node2'', ''node3'', ''node3'', ''node2'', ''node1'']))
        ''node2''
   \<and> drainCompleteAndCordoned
        (run (testFleet None)
           (map (Reconciled testCapabilities)
              [''node1'', ''node2'', ''node3'', ''node3'', ''node2'', ''node1'']))
        ''node3''
   \<and> map nodeState (fleetNodes
        (run (testFleet None)
           (map (Reconciled testCapabilities)
              [''node1'', ''node2'', ''node3'', ''node3'', ''node2'', ''node1''])))
       = [Some (Some G_DrainComplete), Some (Some G_DrainComplete),
          Some (Some G_DrainComplete)]
   \<and> map unschedulable (fleetNodes
        (run (testFleet None)
           (map (Reconciled testCapabilities)
              [''node1'', ''node2'', ''node3'', ''node3'', ''node2'', ''node1''])))
       = [True, True, True]"
proof -
  let ?F = "testFleet None"
  let ?names = "[''node1'', ''node2'', ''node3'']"
  let ?order = "[''node1'', ''node2'', ''node3'', ''node3'', ''node2'', ''node1'']"
  have p: "poolMaxUnavailable (testWorkers None) = None" by (simp add: testWorkers_def)
  have w: "awaitsUncappedDrain ?F ''node1''" "awaitsUncappedDrain ?F ''node2''"
    "awaitsUncappedDrain ?F ''node3''"
    by code_simp+
  have c: "\<forall>name \<in> set ?names.
             beforeDrain testCapabilities name = (True, None)
             \<and> drainNode testCapabilities name = (True, None)"
    by (simp add: testCapabilities_def)
  have k: "\<forall>name \<in> set ?names. 2 \<le> count_list ?order name" by simp
  have b: "snd (beforeDrain testCapabilities ''node1'') = None"
    by (simp add: testCapabilities_def)
  have st: "map nodeState (fleetNodes (run ?F (map (Reconciled testCapabilities) ?order)))
       = [Some (Some G_DrainComplete), Some (Some G_DrainComplete),
          Some (Some G_DrainComplete)]"
    by code_simp
  have un: "map unschedulable
              (fleetNodes (run ?F (map (Reconciled testCapabilities) ?order)))
       = [True, True, True]"
    by code_simp
  note t = unset_MaxUnavailable_no_cap [where pc = "testWorkers None" and fleet = ?F
      and name = "''node1''" and cap = testCapabilities and names = ?names
      and order = ?order]
  from t p have m: "maxUnavailable ?F (testWorkers None) = Inr None" by blast
  from t w(1) b
  have a: "admittedAndCordoned (snd (Reconcile testCapabilities ?F ''node1'')) ''node1''"
    by blast
  from w have "\<forall>name \<in> set ?names. awaitsUncappedDrain ?F name" by simp
  with t c k
  have "\<forall>name \<in> set ?names.
          drainCompleteAndCordoned (run ?F (map (Reconciled testCapabilities) ?order)) name"
    by blast
  then have d: "drainCompleteAndCordoned
        (run ?F (map (Reconciled testCapabilities) ?order)) ''node1''"
    "drainCompleteAndCordoned (run ?F (map (Reconciled testCapabilities) ?order)) ''node2''"
    "drainCompleteAndCordoned (run ?F (map (Reconciled testCapabilities) ?order)) ''node3''"
    by simp_all
  from p m w a d st un show ?thesis by blast
qed


















end
